(* ===== verification/Prelude.thy ===== *)
theory Prelude
  imports Main "HOL-Library.AList" "HOL-Library.Sublist"
begin

text \<open>
  Shared vocabulary of the development: Python strings, JSON values as Python sees them after
  \<^verbatim>\<open>json.loads\<close>, dictionaries, error results, and the lemma collections and contracts the
  component theories use.

  A Python \<^verbatim>\<open>str\<close> is a list of characters with code points below 256 (Latin-1, the range of
  HTTP header values); case mapping, white space and printability are the ones Python uses on
  that range. Python \<^verbatim>\<open>int\<close>s are unbounded \<open>int\<close>s. A JSON object is an association list in
  insertion order. A float is carried by its \<^verbatim>\<open>repr\<close> text.
\<close>

named_theorems py_defs "definitions of the Python string and dict operations"
named_theorems keeps "preservation of the component invariants by their operations"

type_synonym pystr = string

section \<open>Error results\<close>

text \<open>A Python call that may raise is a sum: \<open>Inl\<close> the exception, \<open>Inr\<close> the value.\<close>

definition is_ok :: "'e + 'a \<Rightarrow> bool" where
  "is_ok r \<longleftrightarrow> (case r of Inl _ \<Rightarrow> False | Inr _ \<Rightarrow> True)"

lemma is_ok_simps [simp]: "is_ok (Inr x)" "\<not> is_ok (Inl e)"
  by (simp_all add: is_ok_def)

lemma is_ok_iff: "is_ok r \<longleftrightarrow> (\<exists>x. r = Inr x)"
  by (cases r) (auto simp: is_ok_def)

lemma not_is_ok_iff: "\<not> is_ok r \<longleftrightarrow> (\<exists>e. r = Inl e)"
  by (cases r) (auto simp: is_ok_def)

text \<open>Sequencing of calls that may raise: the first exception wins.\<close>

definition ebind :: "'e + 'a \<Rightarrow> ('a \<Rightarrow> 'e + 'b) \<Rightarrow> 'e + 'b" where
  "ebind r f = (case r of Inl e \<Rightarrow> Inl e | Inr x \<Rightarrow> f x)"

lemma ebind_simps [simp]: "ebind (Inr x) f = f x" "ebind (Inl e) f = Inl e"
  by (simp_all add: ebind_def)

lemma ebind_Inr_iff: "ebind r f = Inr y \<longleftrightarrow> (\<exists>x. r = Inr x \<and> f x = Inr y)"
  by (cases r) simp_all

section \<open>Characters and strings\<close>

definition is_space :: "char \<Rightarrow> bool" where
  "is_space c \<longleftrightarrow> (let n = (of_char c :: nat) in
     (9 \<le> n \<and> n \<le> 13) \<or> (28 \<le> n \<and> n \<le> 32) \<or> n = 133 \<or> n = 160)"

definition lower_char :: "char \<Rightarrow> char" where
  "lower_char c = (let n = (of_char c :: nat) in
     if (65 \<le> n \<and> n \<le> 90) \<or> (192 \<le> n \<and> n \<le> 222 \<and> n \<noteq> 215) then char_of (n + 32) else c)"

definition upper_char :: "char \<Rightarrow> pystr" where
  "upper_char c = (let n = (of_char c :: nat) in
     if n = 223 then ''SS''
     else if (97 \<le> n \<and> n \<le> 122) \<or> (224 \<le> n \<and> n \<le> 254 \<and> n \<noteq> 247) then [char_of (n - 32)] else [c])"

definition lower :: "pystr \<Rightarrow> pystr" where
  "lower s = map lower_char s"

definition upper :: "pystr \<Rightarrow> pystr" where
  "upper s = concat (map upper_char s)"

definition lstrip :: "(char \<Rightarrow> bool) \<Rightarrow> pystr \<Rightarrow> pystr" where
  "lstrip p s = dropWhile p s"

definition rstrip :: "(char \<Rightarrow> bool) \<Rightarrow> pystr \<Rightarrow> pystr" where
  "rstrip p s = rev (dropWhile p (rev s))"

definition strip :: "pystr \<Rightarrow> pystr" where
  "strip s = rstrip is_space (lstrip is_space s)"

definition startswith :: "pystr \<Rightarrow> pystr \<Rightarrow> bool" where
  "startswith s p \<longleftrightarrow> take (length p) s = p"

definition removeprefix :: "pystr \<Rightarrow> pystr \<Rightarrow> pystr" where
  "removeprefix s p = (if startswith s p then drop (length p) s else s)"

fun contains :: "pystr \<Rightarrow> pystr \<Rightarrow> bool" where
  "contains [] p \<longleftrightarrow> p = []"
| "contains (c # s) p \<longleftrightarrow> startswith (c # s) p \<or> contains s p"

text \<open>\<^verbatim>\<open>s.partition(sep)\<close> for a one-character separator, without the separator itself.\<close>

definition partition_at :: "char \<Rightarrow> pystr \<Rightarrow> pystr \<times> pystr" where
  "partition_at c s = (takeWhile (\<lambda>x. x \<noteq> c) s, tl (dropWhile (\<lambda>x. x \<noteq> c) s))"

text \<open>\<^verbatim>\<open>s.split(sep)\<close> for a one-character separator.\<close>

fun split_on :: "char \<Rightarrow> pystr \<Rightarrow> pystr list" where
  "split_on c [] = [[]]"
| "split_on c (x # s) =
     (if x = c then [] # split_on c s
      else (case split_on c s of [] \<Rightarrow> [[x]] | p # ps \<Rightarrow> (x # p) # ps))"

definition is_digit :: "char \<Rightarrow> bool" where
  "is_digit c \<longleftrightarrow> (let n = (of_char c :: nat) in 48 \<le> n \<and> n \<le> 57)"

definition digit_val :: "char \<Rightarrow> nat" where
  "digit_val c = of_char c - 48"

definition digit_char :: "nat \<Rightarrow> char" where
  "digit_char d = char_of (48 + d)"

fun nat_str :: "nat \<Rightarrow> pystr" where
  "nat_str n = (if n < 10 then [digit_char n] else nat_str (n div 10) @ [digit_char (n mod 10)])"

declare nat_str.simps [simp del]

definition int_str :: "int \<Rightarrow> pystr" where
  "int_str i = (if i < 0 then CHR ''-'' # nat_str (nat (- i)) else nat_str (nat i))"

definition digits_val :: "pystr \<Rightarrow> nat" where
  "digits_val ds = foldl (\<lambda>a c. 10 * a + digit_val c) 0 ds"

text \<open>
  \<^verbatim>\<open>int(s)\<close> for a string: surrounding white space, a sign, decimal digits with single underscores
  between them, at most 4300 digits. \<open>None\<close> is \<^verbatim>\<open>ValueError\<close>.
\<close>

fun underscore_digits :: "pystr \<Rightarrow> bool" where
  "underscore_digits [] = False"
| "underscore_digits [c] = is_digit c"
| "underscore_digits (c # d # s) =
     (is_digit c \<and> (if d = CHR ''_'' then underscore_digits s else underscore_digits (d # s)))"

definition int_of_str :: "pystr \<Rightarrow> int option" where
  "int_of_str s =
     (let t = strip s;
          neg = startswith t ''-'';
          ds = (if startswith t ''-'' \<or> startswith t ''+'' then tl t else t);
          digits = filter is_digit ds
      in if underscore_digits ds \<and> length digits \<le> 4300
         then Some (if neg then - int (digits_val digits) else int (digits_val digits))
         else None)"

subsection \<open>Lemmas on strings\<close>

lemma of_char_less: "(of_char c :: nat) < 256"
  using of_char_mod_256 [of c, where ?'a = nat] by (metis mod_less_divisor zero_less_numeral)

lemma of_char_char_of_small: "n < 256 \<Longrightarrow> of_char (char_of n :: char) = (n :: nat)"
  by (simp add: of_char_of)

lemma lower_char_idem [simp]: "lower_char (lower_char c) = lower_char c"
  by (auto simp: lower_char_def Let_def of_char_char_of_small)

lemma is_space_lower_char [simp]: "is_space (lower_char c) \<longleftrightarrow> is_space c"
  by (auto simp: lower_char_def is_space_def Let_def of_char_char_of_small)

lemma lower_idem [simp]: "lower (lower s) = lower s"
  by (simp add: lower_def)

lemma length_lower [simp]: "length (lower s) = length s"
  by (simp add: lower_def)

lemma lower_Nil_iff [simp]: "lower s = [] \<longleftrightarrow> s = []"
  by (simp add: lower_def)

lemma dropWhile_snoc:
  "dropWhile p (xs @ [c]) =
     (if \<forall>x \<in> set xs. p x then (if p c then [] else [c]) else dropWhile p xs @ [c])"
  by (induction xs) auto

lemma dropWhile_all [simp]: "\<forall>x \<in> set xs. p x \<Longrightarrow> dropWhile p xs = []"
  by simp

lemma dropWhile_rev_idem: "dropWhile p (rev (dropWhile p (rev s))) = rev (dropWhile p (rev (dropWhile p s)))"
  by (induction s) (auto simp: dropWhile_snoc)

lemma dropWhile_idem: "dropWhile p (dropWhile p s) = dropWhile p s"
  by (induction s) auto

lemma strip_idem [simp]: "strip (strip s) = strip s"
  by (simp add: strip_def lstrip_def rstrip_def dropWhile_rev_idem dropWhile_idem)

lemma dropWhile_map_lower: "dropWhile is_space (map lower_char s) = map lower_char (dropWhile is_space s)"
  by (induction s) auto

lemma strip_lower: "strip (lower s) = lower (strip s)"
  by (simp add: strip_def lstrip_def rstrip_def lower_def dropWhile_map_lower rev_map)

lemma strip_Nil [simp]: "strip [] = []"
  by (simp add: strip_def lstrip_def rstrip_def)

lemma startswith_append [simp]: "startswith (p @ s) p"
  by (simp add: startswith_def)

lemma startswith_iff: "startswith s p \<longleftrightarrow> (\<exists>t. s = p @ t)"
  by (auto simp: startswith_def) (metis append_take_drop_id)

lemma removeprefix_append [simp]: "removeprefix (p @ s) p = s"
  by (simp add: removeprefix_def)

lemma contains_iff: "contains s p \<longleftrightarrow> (\<exists>a b. s = a @ p @ b)"
proof (induction s)
  case Nil
  then show ?case by simp
next
  case (Cons c s)
  have "(\<exists>a b. c # s = a @ p @ b) \<longleftrightarrow> startswith (c # s) p \<or> (\<exists>a b. s = a @ p @ b)"
    unfolding startswith_iff by (metis append_Cons append_Nil list.sel(3) tl_append2)
  with Cons show ?case by simp
qed

section \<open>Contracts shared by several components\<close>

text \<open>
  Normal forms. Several comparisons of the code compare normal forms of strings (identifiers,
  e-mail addresses, host names, header values); what those comparisons rely on is that
  normalising twice changes nothing.
\<close>

locale normaliser =
  fixes norm :: "'a \<Rightarrow> 'a"
  assumes norm_idem: "norm (norm x) = norm x"
begin

definition agrees :: "'a \<Rightarrow> 'a \<Rightarrow> bool" where
  "agrees x y \<longleftrightarrow> norm x = norm y"

lemma agrees_norm: "agrees x (norm x)"
  by (simp add: agrees_def norm_idem)

lemma agrees_trans: "agrees x y \<Longrightarrow> agrees y z \<Longrightarrow> agrees x z"
  by (simp add: agrees_def)

lemma normal_iff_range: "norm x = x \<longleftrightarrow> x \<in> range norm"
  by (metis norm_idem rangeE rangeI)

lemma normal_agrees_eq: "x \<in> range norm \<Longrightarrow> y \<in> range norm \<Longrightarrow> agrees x y \<longleftrightarrow> x = y"
  by (metis agrees_def normal_iff_range)

end

text \<open>
  State machines. A component whose state changes by steps keeps an invariant when the start
  states have it and every step keeps it; the client's theorem is about reachable states.
\<close>

locale machine =
  fixes start :: "'s \<Rightarrow> bool"
    and step :: "'s \<Rightarrow> 's \<Rightarrow> bool"
    and inv :: "'s \<Rightarrow> bool"
  assumes start_inv: "start s \<Longrightarrow> inv s"
    and step_inv: "inv s \<Longrightarrow> step s t \<Longrightarrow> inv t"
begin

lemma steps_inv: "step\<^sup>*\<^sup>* s t \<Longrightarrow> inv s \<Longrightarrow> inv t"
  by (induction rule: rtranclp_induct) (auto intro: step_inv)

lemma reachable_inv: "start s \<Longrightarrow> step\<^sup>*\<^sup>* s t \<Longrightarrow> inv t"
  by (blast intro: start_inv steps_inv)

end

text \<open>
  Codecs. A writer and a reader such that the reader recovers every value of the writer's domain;
  the clients need that distinct values have distinct encodings and that reading is exact.
\<close>

locale codec =
  fixes dom :: "'a \<Rightarrow> bool"
    and enc :: "'a \<Rightarrow> 'b"
    and dec :: "'b \<Rightarrow> 'a option"
  assumes dec_enc: "dom x \<Longrightarrow> dec (enc x) = Some x"
begin

lemma enc_inj: "dom x \<Longrightarrow> dom y \<Longrightarrow> enc x = enc y \<Longrightarrow> x = y"
  by (metis dec_enc option.inject)

lemma dec_enc_iff: "dom x \<Longrightarrow> dec (enc x) = Some y \<longleftrightarrow> x = y"
  by (simp add: dec_enc)

end

text \<open>Normal forms of strings: \<^verbatim>\<open>str.strip\<close>, \<^verbatim>\<open>str.lower\<close> and their composition.\<close>

definition strip_lower_form :: "pystr \<Rightarrow> pystr" where
  "strip_lower_form s = lower (strip s)"

lemma strip_lower_form_idem [simp]: "strip_lower_form (strip_lower_form s) = strip_lower_form s"
  by (simp add: strip_lower_form_def strip_lower)

interpretation strip_form: normaliser strip
  by unfold_locales simp

interpretation lower_form: normaliser lower
  by unfold_locales simp

interpretation ident_form: normaliser strip_lower_form
  by unfold_locales simp

section \<open>JSON values\<close>

datatype json =
    JNull
  | JBool bool
  | JInt int
  | JFloat pystr
  | JStr (str_val: pystr)
  | JArr (arr_val: "json list")
  | JObj (obj_val: "(pystr \<times> json) list")

type_synonym pydict = "(pystr \<times> json) list"

text \<open>\<^verbatim>\<open>d.get(k)\<close> and \<^verbatim>\<open>d.get(k, default)\<close>.\<close>

definition dget :: "pydict \<Rightarrow> pystr \<Rightarrow> json" where
  "dget d k = (case map_of d k of None \<Rightarrow> JNull | Some v \<Rightarrow> v)"

definition dget_or :: "pydict \<Rightarrow> pystr \<Rightarrow> json \<Rightarrow> json" where
  "dget_or d k v0 = (case map_of d k of None \<Rightarrow> v0 | Some v \<Rightarrow> v)"

definition has_key :: "pydict \<Rightarrow> pystr \<Rightarrow> bool" where
  "has_key d k \<longleftrightarrow> map_of d k \<noteq> None"

text \<open>\<^verbatim>\<open>d[k] = v\<close>: an existing key keeps its place, a new one goes last.\<close>

definition dset :: "pydict \<Rightarrow> pystr \<Rightarrow> json \<Rightarrow> pydict" where
  "dset d k v = AList.update k v d"

text \<open>Truth value of a JSON value in a Python condition.\<close>

fun truthy :: "json \<Rightarrow> bool" where
  "truthy JNull = False"
| "truthy (JBool b) = b"
| "truthy (JInt i) = (i \<noteq> 0)"
| "truthy (JFloat t) = (t \<noteq> ''0.0'' \<and> t \<noteq> ''-0.0'')"
| "truthy (JStr s) = (s \<noteq> [])"
| "truthy (JArr xs) = (xs \<noteq> [])"
| "truthy (JObj d) = (d \<noteq> [])"

text \<open>\<^verbatim>\<open>a or b\<close>.\<close>

definition py_or :: "json \<Rightarrow> json \<Rightarrow> json" where
  "py_or a b = (if truthy a then a else b)"

text \<open>\<^verbatim>\<open>repr\<close> of a string: the quotes Python chooses and its escapes.\<close>

definition hex_digit :: "nat \<Rightarrow> char" where
  "hex_digit n = (if n < 10 then char_of (48 + n) else char_of (87 + n))"

definition repr_char :: "char \<Rightarrow> char \<Rightarrow> pystr" where
  "repr_char q c = (let n = (of_char c :: nat) in
     if c = q \<or> n = 92 then [CHR 0x5C, c]
     else if n = 10 then [CHR 0x5C, CHR ''n'']
     else if n = 13 then [CHR 0x5C, CHR ''r'']
     else if n = 9 then [CHR 0x5C, CHR ''t'']
     else if n < 32 \<or> (127 \<le> n \<and> n \<le> 160) \<or> n = 173
       then [CHR 0x5C, CHR ''x'', hex_digit (n div 16), hex_digit (n mod 16)]
     else [c])"

definition repr_str :: "pystr \<Rightarrow> pystr" where
  "repr_str s = (let q = (if CHR 0x27 \<in> set s \<and> CHR 0x22 \<notin> set s then CHR 0x22 else CHR 0x27)
     in q # concat (map (repr_char q) s) @ [q])"

text \<open>\<^verbatim>\<open>repr\<close> of a value, with the items of lists and dicts separated by a comma and a space.\<close>

fun py_repr :: "json \<Rightarrow> pystr"
  and repr_items :: "json list \<Rightarrow> pystr"
  and repr_pairs :: "(pystr \<times> json) list \<Rightarrow> pystr" where
  "py_repr JNull = ''None''"
| "py_repr (JBool b) = (if b then ''True'' else ''False'')"
| "py_repr (JInt i) = int_str i"
| "py_repr (JFloat t) = t"
| "py_repr (JStr s) = repr_str s"
| "py_repr (JArr xs) = ''['' @ repr_items xs @ '']''"
| "py_repr (JObj d) = ''{'' @ repr_pairs d @ ''}''"
| "repr_items [] = []"
| "repr_items [x] = py_repr x"
| "repr_items (x # y # xs) = py_repr x @ '', '' @ repr_items (y # xs)"
| "repr_pairs [] = []"
| "repr_pairs [(k, v)] = repr_str k @ '': '' @ py_repr v"
| "repr_pairs ((k, v) # p # ps) = repr_str k @ '': '' @ py_repr v @ '', '' @ repr_pairs (p # ps)"

text \<open>\<^verbatim>\<open>str(v)\<close>.\<close>

definition py_str :: "json \<Rightarrow> pystr" where
  "py_str v = (case v of JStr s \<Rightarrow> s | _ \<Rightarrow> py_repr v)"

text \<open>\<^verbatim>\<open>str(v or "").strip()\<close>, the form in which identifiers are compared.\<close>

definition str_or_empty :: "json \<Rightarrow> pystr" where
  "str_or_empty v = strip (py_str (py_or v (JStr [])))"

lemma py_str_simps [simp]:
  "py_str (JStr s) = s" "py_str (JInt i) = int_str i" "py_str JNull = ''None''"
  by (simp_all add: py_str_def)

lemma str_or_empty_simps [simp]:
  "str_or_empty JNull = []" "str_or_empty (JStr s) = strip s" "str_or_empty (JBool False) = []"
  by (simp_all add: str_or_empty_def py_or_def)

lemma strip_str_or_empty [simp]: "strip (str_or_empty v) = str_or_empty v"
  by (simp add: str_or_empty_def)

lemma dget_Nil [simp]: "dget [] k = JNull"
  by (simp add: dget_def)

lemma dget_Cons [simp]: "dget ((k', v) # d) k = (if k = k' then v else dget d k)"
  by (simp add: dget_def)

lemma dget_or_Nil [simp]: "dget_or [] k v0 = v0"
  by (simp add: dget_or_def)

lemma dget_or_Cons [simp]: "dget_or ((k', v) # d) k v0 = (if k = k' then v else dget_or d k v0)"
  by (simp add: dget_or_def)

lemma has_key_Cons [simp]: "has_key ((k', v) # d) k \<longleftrightarrow> k = k' \<or> has_key d k"
  by (simp add: has_key_def)

lemma has_key_Nil [simp]: "\<not> has_key [] k"
  by (simp add: has_key_def)

lemma dget_dset: "dget (dset d k v) k' = (if k' = k then v else dget d k')"
  by (simp add: dget_def dset_def update_conv')

lemma dget_or_dset: "dget_or (dset d k v) k' v0 = (if k' = k then v else dget_or d k' v0)"
  by (simp add: dget_or_def dset_def update_conv')

section \<open>Association-list tables\<close>

text \<open>Keys of a filtered or updated table.\<close>

lemma distinct_map_filter_mono: "distinct (map f xs) \<Longrightarrow> distinct (map f (filter p xs))"
  by (rule distinct_map_filter)

lemma sorted_wrt_filter_map:
  "sorted (map f xs) \<Longrightarrow> sorted (map f (filter p xs))"
  by (rule sorted_filter)

end
