(* ===== verification/Net_Address.thy ===== *)
theory Net_Address
  imports Prelude "HOL-Library.Word"
begin

text \<open>
  The parts of the Python standard library the network checks are built on, over the modelled
  character range: \<^verbatim>\<open>urllib.parse.urlparse\<close> (scheme, network location, user information, host
  name, fragment) and \<^verbatim>\<open>ipaddress.ip_address\<close> with the address properties
  \<^verbatim>\<open>ipv4_mapped\<close>, \<^verbatim>\<open>sixtofour\<close> and \<^verbatim>\<open>teredo\<close>. Addresses are words of 32 and 128 bits.
  \<open>None\<close> is the \<^verbatim>\<open>ValueError\<close> the library raises.
\<close>

section \<open>Splitting at characters\<close>

text \<open>\<^verbatim>\<open>s.partition(c)\<close>: before, whether the separator was found, after.\<close>

definition py_partition :: "char \<Rightarrow> pystr \<Rightarrow> pystr \<times> bool \<times> pystr" where
  "py_partition c s = (takeWhile (\<lambda>x. x \<noteq> c) s, c \<in> set s, drop 1 (dropWhile (\<lambda>x. x \<noteq> c) s))"

text \<open>\<^verbatim>\<open>s.rpartition(c)\<close>.\<close>

definition py_rpartition :: "char \<Rightarrow> pystr \<Rightarrow> pystr \<times> bool \<times> pystr" where
  "py_rpartition c s =
     (if c \<in> set s
      then (rev (drop 1 (dropWhile (\<lambda>x. x \<noteq> c) (rev s))), True, rev (takeWhile (\<lambda>x. x \<noteq> c) (rev s)))
      else ([], False, s))"

section \<open>IP addresses\<close>

type_synonym ipv4 = "32 word"
type_synonym ipv6 = "128 word"

datatype ip = IPv4 ipv4 | IPv6 ipv6 "pystr option"

definition parse_octet :: "pystr \<Rightarrow> int option" where
  "parse_octet s =
     (if s = [] \<or> \<not> list_all is_digit s \<or> length s > 3 then None
      else if s \<noteq> ''0'' \<and> hd s = CHR ''0'' then None
      else if digits_val s > 255 then None else Some (int (digits_val s)))"

definition ipv4_address :: "pystr \<Rightarrow> ipv4 option" where
  "ipv4_address s =
     (case map parse_octet (split_on (CHR ''.'') s) of
        [Some a, Some b, Some c, Some d] \<Rightarrow> Some (word_of_int (((a * 256 + b) * 256 + c) * 256 + d))
      | _ \<Rightarrow> None)"

definition hex_digit_val :: "char \<Rightarrow> int option" where
  "hex_digit_val c = (let n = (of_char c :: int) in
     if 48 \<le> n \<and> n \<le> 57 then Some (n - 48)
     else if 97 \<le> n \<and> n \<le> 102 then Some (n - 87)
     else if 65 \<le> n \<and> n \<le> 70 then Some (n - 55) else None)"

fun hextet_val :: "int \<Rightarrow> pystr \<Rightarrow> int option" where
  "hextet_val acc [] = Some acc"
| "hextet_val acc (c # s) =
     (case hex_digit_val c of None \<Rightarrow> None | Some d \<Rightarrow> hextet_val (16 * acc + d) s)"

definition parse_hextet :: "pystr \<Rightarrow> int option" where
  "parse_hextet s = (if length s > 4 then None else hextet_val 0 s)"

text \<open>The parts between colons, with an IPv4-style last part turned into two hextet values.\<close>

definition v6_parts :: "pystr \<Rightarrow> (pystr + int) list option" where
  "v6_parts s =
     (let ps = split_on (CHR '':'') s in
      if length ps < 3 then None
      else if CHR ''.'' \<in> set (last ps) then
        (case ipv4_address (last ps) of
           None \<Rightarrow> None
         | Some w \<Rightarrow> Some (map Inl (butlast ps) @ [Inr (uint w div 65536), Inr (uint w mod 65536)]))
      else Some (map Inl ps))"

definition part_empty :: "(pystr + int) \<Rightarrow> bool" where
  "part_empty p \<longleftrightarrow> p = Inl []"

definition part_val :: "(pystr + int) \<Rightarrow> int option" where
  "part_val p = (case p of Inl s \<Rightarrow> parse_hextet s | Inr n \<Rightarrow> Some n)"

fun hextets_val :: "int \<Rightarrow> (pystr + int) list \<Rightarrow> int option" where
  "hextets_val acc [] = Some acc"
| "hextets_val acc (p # ps) =
     (case part_val p of None \<Rightarrow> None | Some n \<Rightarrow> hextets_val (65536 * acc + n) ps)"

definition inner_empty :: "(pystr + int) list \<Rightarrow> nat list" where
  "inner_empty ps = filter (\<lambda>i. part_empty (ps ! i)) [1..<length ps - 1]"

definition ipv6_int :: "pystr \<Rightarrow> int option" where
  "ipv6_int s =
     (if s = [] \<or> length s > 45 then None
      else case v6_parts s of
        None \<Rightarrow> None
      | Some ps \<Rightarrow>
          if length ps > 9 then None
          else (case inner_empty ps of
                  [] \<Rightarrow> (if length ps \<noteq> 8 \<or> part_empty (hd ps) \<or> part_empty (last ps) then None
                        else hextets_val 0 ps)
                | [k] \<Rightarrow>
                    (let hi = (if part_empty (hd ps) then k - 1 else k);
                         n = length ps - k - 1;
                         lo = (if part_empty (last ps) then n - 1 else n)
                     in if part_empty (hd ps) \<and> hi \<noteq> 0 then None
                        else if part_empty (last ps) \<and> lo \<noteq> 0 then None
                        else if hi + lo \<ge> 8 then None
                        else (case hextets_val 0 (take hi ps) of
                                None \<Rightarrow> None
                              | Some h \<Rightarrow> hextets_val (h * 65536 ^ (8 - (hi + lo)))
                                           (drop (length ps - lo) ps)))
                | _ \<Rightarrow> None))"

definition ipv6_address :: "pystr \<Rightarrow> ip option" where
  "ipv6_address s =
     (let (addr, sep, zone) = py_partition (CHR ''%'') s in
      if sep \<and> (zone = [] \<or> CHR ''%'' \<in> set zone) then None
      else (case ipv6_int addr of
              None \<Rightarrow> None
            | Some n \<Rightarrow> Some (IPv6 (word_of_int n) (if sep then Some zone else None))))"

definition ip_address :: "pystr \<Rightarrow> ip option" where
  "ip_address s =
     (if CHR ''/'' \<in> set s then None
      else case ipv4_address s of
        Some w \<Rightarrow> Some (IPv4 w)
      | None \<Rightarrow> ipv6_address s)"

subsection \<open>IPv4 addresses inside IPv6 addresses\<close>

definition low32 :: "ipv6 \<Rightarrow> ipv4" where
  "low32 a = ucast a"

definition ipv4_mapped :: "ipv6 \<Rightarrow> ipv4 option" where
  "ipv4_mapped a = (if drop_bit 32 a = 0xFFFF then Some (low32 a) else None)"

definition sixtofour :: "ipv6 \<Rightarrow> ipv4 option" where
  "sixtofour a = (if drop_bit 112 a = 0x2002 then Some (low32 (drop_bit 80 a)) else None)"

text \<open>The client address of a Teredo address: the complement of the low 32 bits.\<close>

definition teredo_client :: "ipv6 \<Rightarrow> ipv4 option" where
  "teredo_client a = (if drop_bit 96 a = 0x20010000 then Some (not (low32 a)) else None)"

subsection \<open>Text of an address\<close>

text \<open>\<^verbatim>\<open>str(addr)\<close>: dotted quads, and the compressed IPv6 form in which the first longest run of
  two or more zero hextets becomes a double colon and a mapped address shows its IPv4 part.\<close>

fun join_with :: "char \<Rightarrow> pystr list \<Rightarrow> pystr" where
  "join_with c [] = []"
| "join_with c [s] = s"
| "join_with c (s # t # ss) = s @ c # join_with c (t # ss)"

definition ipv4_str :: "ipv4 \<Rightarrow> pystr" where
  "ipv4_str w =
     (let n = nat (uint w) in
      join_with (CHR ''.'') (map nat_str [n div 16777216, n div 65536 mod 256, n div 256 mod 256, n mod 256]))"

fun hex_str :: "nat \<Rightarrow> pystr" where
  "hex_str n = (if n < 16 then [hex_digit n] else hex_str (n div 16) @ [hex_digit (n mod 16)])"

declare hex_str.simps [simp del]

definition hextets :: "ipv6 \<Rightarrow> pystr list" where
  "hextets a = map (\<lambda>i. hex_str (nat (uint (take_bit 16 (drop_bit (112 - 16 * i) a))))) [0..<8]"

text \<open>The scan for the run: (index, current start, current length, best start, best length).\<close>

fun zero_run :: "pystr list \<Rightarrow> nat \<Rightarrow> nat \<Rightarrow> nat \<Rightarrow> nat \<Rightarrow> nat \<Rightarrow> nat \<times> nat" where
  "zero_run [] i st n bst bn = (bst, bn)"
| "zero_run (h # hs) i st n bst bn =
     (if h = ''0'' then
        (let st' = (if n = 0 then i else st) in
         if n + 1 > bn then zero_run hs (i + 1) st' (n + 1) st' (n + 1)
         else zero_run hs (i + 1) st' (n + 1) bst bn)
      else zero_run hs (i + 1) 0 0 bst bn)"

definition compress_hextets :: "pystr list \<Rightarrow> pystr list" where
  "compress_hextets hs =
     (let (st, n) = zero_run hs 0 0 0 0 0 in
      if n > 1 then
        (if st = 0 then [[]] else []) @ take st hs @ [[]] @ drop (st + n) hs
          @ (if st + n = length hs then [[]] else [])
      else hs)"

definition ipv6_str :: "ipv6 \<Rightarrow> pystr option \<Rightarrow> pystr" where
  "ipv6_str a scope =
     (case ipv4_mapped a of
        Some w \<Rightarrow> ''::ffff:'' @ ipv4_str w
      | None \<Rightarrow> join_with (CHR '':'') (compress_hextets (hextets a)))
     @ (case scope of Some z \<Rightarrow> CHR ''%'' # z | None \<Rightarrow> [])"

definition ip_str :: "ip \<Rightarrow> pystr" where
  "ip_str a = (case a of IPv4 w \<Rightarrow> ipv4_str w | IPv6 w scope \<Rightarrow> ipv6_str w scope)"

section \<open>URLs\<close>

record parsed_url =
  url_scheme :: pystr
  url_netloc :: pystr
  url_fragment :: pystr

definition is_ascii_alpha :: "char \<Rightarrow> bool" where
  "is_ascii_alpha c \<longleftrightarrow> (let n = (of_char c :: nat) in (65 \<le> n \<and> n \<le> 90) \<or> (97 \<le> n \<and> n \<le> 122))"

definition is_scheme_char :: "char \<Rightarrow> bool" where
  "is_scheme_char c \<longleftrightarrow> is_ascii_alpha c \<or> is_digit c \<or> c \<in> {CHR ''+'', CHR ''-'', CHR ''.''}"

definition clean_url :: "pystr \<Rightarrow> pystr" where
  "clean_url u = filter (\<lambda>c. c \<notin> {CHR 0x09, CHR 0x0D, CHR 0x0A})
                   (dropWhile (\<lambda>c. (of_char c :: nat) \<le> 32) u)"

definition split_scheme :: "pystr \<Rightarrow> pystr \<times> pystr" where
  "split_scheme u =
     (let (a, found, r) = py_partition (CHR '':'') u in
      if found \<and> a \<noteq> [] \<and> is_ascii_alpha (hd a) \<and> list_all is_scheme_char a then (lower a, r) else ([], u))"

definition split_netloc :: "pystr \<Rightarrow> pystr \<times> pystr" where
  "split_netloc u =
     (let p = (\<lambda>c. c \<notin> {CHR ''/'', CHR ''?'', CHR ''#''}) in (takeWhile p u, dropWhile p u))"

text \<open>\<^verbatim>\<open>_check_bracketed_host\<close>: a bracketed host is an IPvFuture or an IPv6 literal.\<close>

definition bracketed_host_ok :: "pystr \<Rightarrow> bool" where
  "bracketed_host_ok h =
     (if startswith h ''v'' then
        (let (a, found, r) = py_partition (CHR ''.'') (tl h) in
         found \<and> a \<noteq> [] \<and> list_all (\<lambda>c. hex_digit_val c \<noteq> None) a \<and> r \<noteq> [] \<and> CHR 0x0A \<notin> set r)
      else (case ip_address h of Some (IPv6 _ _) \<Rightarrow> True | _ \<Rightarrow> False))"

definition bracketed_netloc_ok :: "pystr \<Rightarrow> bool" where
  "bracketed_netloc_ok n =
     (let (_, _, hp) = py_rpartition (CHR ''@'') n;
          (pre, br, bracketed) = py_partition (CHR ''['') hp
      in if br then
           (let (host, _, port) = py_partition (CHR '']'') bracketed
            in pre = [] \<and> (port = [] \<or> startswith port '':'') \<and> bracketed_host_ok host)
         else (let (host, _, _) = py_partition (CHR '':'') hp in bracketed_host_ok host))"

definition urlparse :: "pystr \<Rightarrow> parsed_url option" where
  "urlparse u =
     (let (scheme, r) = split_scheme (clean_url u);
          (netloc, r') = (if startswith r ''//'' then split_netloc (drop 2 r) else ([], r));
          (_, _, fragment) = py_partition (CHR ''#'') r';
          op = CHR ''['' \<in> set netloc; cl = CHR '']'' \<in> set netloc
      in if op \<noteq> cl then None
         else if op \<and> \<not> bracketed_netloc_ok netloc then None
         else Some \<lparr>url_scheme = scheme, url_netloc = netloc, url_fragment = fragment\<rparr>)"

text \<open>The properties \<^verbatim>\<open>username\<close>, \<^verbatim>\<open>password\<close> and \<^verbatim>\<open>hostname\<close>; an absent one is empty.\<close>

definition url_username :: "parsed_url \<Rightarrow> pystr" where
  "url_username p = (let (ui, _, _) = py_rpartition (CHR ''@'') (url_netloc p) in fst (py_partition (CHR '':'') ui))"

definition url_password :: "parsed_url \<Rightarrow> pystr" where
  "url_password p = (let (ui, _, _) = py_rpartition (CHR ''@'') (url_netloc p) in snd (snd (py_partition (CHR '':'') ui)))"

definition url_hostname :: "parsed_url \<Rightarrow> pystr" where
  "url_hostname p =
     (let (_, _, hi) = py_rpartition (CHR ''@'') (url_netloc p);
          (_, br, bracketed) = py_partition (CHR ''['') hi;
          h = (if br then fst (py_partition (CHR '']'') bracketed) else fst (py_partition (CHR '':'') hi));
          (a, pc, zone) = py_partition (CHR ''%'') h
      in lower a @ (if pc then ''%'' else []) @ zone)"

end
