(* ===== verification/Config.thy ===== *)
theory Config
  imports Net_Address
begin

text \<open>
  \<^verbatim>\<open>app/config.py\<close>: the settings record and the parsers that build it from the environment
  (a function from variable names to optional values). The process exits when a parser raises, so
  the rest of the program only ever sees settings that \<open>from_env\<close> returned; the lemmas show what
  those satisfy and that the start-up log does not depend on the secrets.
\<close>

type_synonym environ = "pystr \<Rightarrow> pystr option"

datatype config_error =
    MissingVariables "pystr list"
  | NotHttpsUrl pystr pystr
  | InvalidUrlValue pystr
  | NotAnInteger pystr
  | IntervalTooSmall int
  | BadUpdateMode pystr
  | BadRecoveryFlag pystr
  | ManagementTokenMissing
  | ManagementTokenTooShort nat
  | BadWebhookMode pystr
  | WebhookTokenMissing
  | WebhookTokenTooShort nat
  | WebhookSecretMissing
  | BadLogLevel pystr

definition getenv :: "environ \<Rightarrow> pystr \<Rightarrow> pystr \<Rightarrow> pystr" where
  "getenv env name dflt = (case env name of None \<Rightarrow> dflt | Some v \<Rightarrow> v)"

text \<open>\<^verbatim>\<open>os.getenv(name) or None\<close>, and the test \<^verbatim>\<open>if value\<close> on an optional string.\<close>

definition nonempty :: "pystr option \<Rightarrow> pystr option" where
  "nonempty v = (case v of Some (c # s) \<Rightarrow> Some (c # s) | _ \<Rightarrow> None)"

definition is_true_flag :: "environ \<Rightarrow> pystr \<Rightarrow> bool" where
  "is_true_flag env name \<longleftrightarrow> lower (getenv env name ''false'') = ''true''"

section \<open>Parsers\<close>

definition WEBHOOK_AUTH_MODES :: "pystr list" where
  "WEBHOOK_AUTH_MODES = [''bearer'', ''hmac'', ''unsigned'']"

definition APPLE_SCIM_UPDATE_MODES :: "pystr list" where
  "APPLE_SCIM_UPDATE_MODES =
     [''patch_all'', ''external_id_only'', ''emails_only'', ''username_only'', ''replace_all'']"

definition LOG_LEVELS :: "pystr list" where
  "LOG_LEVELS = [''DEBUG'', ''INFO'', ''WARNING'', ''ERROR'', ''CRITICAL'']"

definition strip_trailing_slash :: "pystr \<Rightarrow> pystr" where
  "strip_trailing_slash s = rstrip (\<lambda>c. c = CHR ''/'') s"

definition parse_https_url :: "pystr \<Rightarrow> pystr \<Rightarrow> config_error + pystr" where
  "parse_https_url v env_name =
     (case urlparse v of
        None \<Rightarrow> Inl (InvalidUrlValue env_name)
      | Some parsed \<Rightarrow>
          if url_scheme parsed \<noteq> ''https'' \<or> url_hostname parsed = [] then Inl (NotHttpsUrl env_name v)
          else Inr v)"

definition parse_int :: "pystr \<Rightarrow> config_error + int" where
  "parse_int v = (case int_of_str v of None \<Rightarrow> Inl (NotAnInteger v) | Some i \<Rightarrow> Inr i)"

definition parse_sync_interval :: "pystr \<Rightarrow> config_error + int" where
  "parse_sync_interval v =
     ebind (parse_int v) (\<lambda>interval. if interval < 1 then Inl (IntervalTooSmall interval) else Inr interval)"

definition parse_apple_scim_update_mode :: "pystr option \<Rightarrow> config_error + pystr" where
  "parse_apple_scim_update_mode v =
     (let mode = lower (strip (case nonempty v of Some s \<Rightarrow> s | None \<Rightarrow> ''patch_all'')) in
      if mode \<notin> set APPLE_SCIM_UPDATE_MODES then Inl (BadUpdateMode mode) else Inr mode)"

definition parse_apple_scim_allow_username_recovery :: "pystr option \<Rightarrow> config_error + bool" where
  "parse_apple_scim_allow_username_recovery v =
     (case v of
        None \<Rightarrow> Inr False
      | Some s \<Rightarrow>
          let normalized = lower (strip s) in
          if normalized \<notin> {''true'', ''false''} then Inl (BadRecoveryFlag s) else Inr (normalized = ''true''))"

definition parse_management_token :: "pystr option \<Rightarrow> config_error + pystr" where
  "parse_management_token v =
     (case nonempty v of
        None \<Rightarrow> Inl ManagementTokenMissing
      | Some s \<Rightarrow> if length s < 32 then Inl (ManagementTokenTooShort (length s)) else Inr s)"

definition parse_webhook_auth_mode :: "pystr option \<Rightarrow> bool \<Rightarrow> config_error + pystr" where
  "parse_webhook_auth_mode v allow_unsigned_legacy =
     (if allow_unsigned_legacy then Inr ''unsigned''
      else let mode = strip (lower (case nonempty v of Some s \<Rightarrow> s | None \<Rightarrow> ''bearer'')) in
           if mode \<notin> set WEBHOOK_AUTH_MODES then Inl (BadWebhookMode mode) else Inr mode)"

definition parse_webhook_token :: "pystr option \<Rightarrow> pystr \<Rightarrow> config_error + pystr option" where
  "parse_webhook_token v mode =
     (if mode \<noteq> ''bearer'' then Inr (nonempty v)
      else case nonempty v of
        None \<Rightarrow> Inl WebhookTokenMissing
      | Some s \<Rightarrow> if length s < 32 then Inl (WebhookTokenTooShort (length s)) else Inr (Some s))"

definition parse_allowed_receiver_hosts :: "pystr option \<Rightarrow> pystr list" where
  "parse_allowed_receiver_hosts v =
     (case nonempty v of
        None \<Rightarrow> []
      | Some s \<Rightarrow> map (\<lambda>h. lower (strip h)) (filter (\<lambda>h. strip h \<noteq> []) (split_on (CHR '','') s)))"

definition parse_log_level :: "pystr option \<Rightarrow> config_error + pystr" where
  "parse_log_level v =
     (let level = upper (case nonempty v of Some s \<Rightarrow> s | None \<Rightarrow> ''INFO'') in
      if level \<notin> set LOG_LEVELS then Inl (BadLogLevel level) else Inr level)"

definition parse_webhook_secret :: "pystr option \<Rightarrow> pystr \<Rightarrow> config_error + pystr" where
  "parse_webhook_secret v mode =
     (if mode = ''hmac'' \<and> nonempty v = None then Inl WebhookSecretMissing
      else Inr (case v of Some s \<Rightarrow> s | None \<Rightarrow> []))"

section \<open>Settings\<close>

record settings =
  ssf_issuer :: pystr
  ssf_base_url :: pystr
  ssf_root_path :: pystr
  ssf_container_port :: int
  ssf_management_token :: pystr
  log_level :: pystr
  ssf_webhook_auth_mode :: pystr
  ssf_webhook_token :: "pystr option"
  ssf_webhook_secret :: pystr
  database_path :: pystr
  keys_dir :: pystr
  log_pii :: bool
  pii_pepper :: pystr
  apple_scim_client_id :: "pystr option"
  apple_scim_client_secret :: "pystr option"
  authentik_url :: "pystr option"
  authentik_token :: "pystr option"
  apple_scim_group_id :: "pystr option"
  apple_scim_sync_interval :: int
  apple_scim_alert_webhook_url :: "pystr option"
  apple_scim_authorize_url :: pystr
  apple_scim_token_url :: pystr
  apple_scim_log_error_body :: bool
  apple_scim_update_mode :: pystr
  apple_scim_allow_username_recovery :: bool
  ssf_allow_custom_issuer :: bool
  ssf_log_color :: bool
  ssf_log_receiver_error_body :: bool
  ssf_enable_openapi :: bool
  ssf_allowed_receiver_hosts :: "pystr list"
  ssf_token_encryption_key :: "pystr option"

definition allow_unsigned_webhook :: "settings \<Rightarrow> bool" where
  "allow_unsigned_webhook s \<longleftrightarrow> ssf_webhook_auth_mode s = ''unsigned''"

definition apple_scim_enabled :: "settings \<Rightarrow> bool" where
  "apple_scim_enabled s \<longleftrightarrow>
     nonempty (apple_scim_client_id s) \<noteq> None \<and> nonempty (apple_scim_client_secret s) \<noteq> None
     \<and> nonempty (authentik_url s) \<noteq> None \<and> nonempty (authentik_token s) \<noteq> None"

definition opt_https_url :: "environ \<Rightarrow> pystr \<Rightarrow> config_error + pystr option" where
  "opt_https_url env name =
     (case nonempty (env name) of
        None \<Rightarrow> Inr None
      | Some v \<Rightarrow> ebind (parse_https_url v name) (\<lambda>u. Inr (Some u)))"

definition from_env :: "environ \<Rightarrow> config_error + settings" where
  "from_env env =
     (let missing = filter (\<lambda>n. nonempty (env n) = None) [''SSF_ISSUER'', ''SSF_BASE_URL''] in
      if missing \<noteq> [] then Inl (MissingVariables missing)
      else
        ebind (parse_https_url (getenv env ''SSF_ISSUER'' []) ''SSF_ISSUER'') (\<lambda>issuer.
        ebind (parse_https_url (getenv env ''SSF_BASE_URL'' []) ''SSF_BASE_URL'') (\<lambda>base.
        ebind (parse_webhook_auth_mode (env ''SSF_WEBHOOK_AUTH_MODE'')
                 (is_true_flag env ''SSF_ALLOW_UNSIGNED_WEBHOOK'')) (\<lambda>auth_mode.
        ebind (parse_webhook_token (env ''SSF_WEBHOOK_TOKEN'') auth_mode) (\<lambda>wtoken.
        ebind (parse_webhook_secret (env ''SSF_WEBHOOK_SECRET'') auth_mode) (\<lambda>wsecret.
        ebind (parse_int (getenv env ''SSF_CONTAINER_PORT'' ''8000'')) (\<lambda>port.
        ebind (parse_management_token (env ''SSF_MANAGEMENT_TOKEN'')) (\<lambda>mtoken.
        ebind (parse_log_level (Some (getenv env ''SSF_LOG_LEVEL'' (getenv env ''LOG_LEVEL'' ''INFO'')))) (\<lambda>level.
        ebind (parse_sync_interval (getenv env ''APPLE_SCIM_SYNC_INTERVAL'' ''3600'')) (\<lambda>interval.
        ebind (opt_https_url env ''APPLE_SCIM_ALERT_WEBHOOK_URL'') (\<lambda>alert_url.
        ebind (parse_https_url (getenv env ''APPLE_SCIM_AUTHORIZE_URL''
                 ''https://appleid.apple.com/auth/oauth2/v2/authorize'') ''APPLE_SCIM_AUTHORIZE_URL'') (\<lambda>authorize_url.
        ebind (parse_https_url (getenv env ''APPLE_SCIM_TOKEN_URL''
                 ''https://appleid.apple.com/auth/oauth2/v2/token'') ''APPLE_SCIM_TOKEN_URL'') (\<lambda>token_url.
        ebind (parse_apple_scim_update_mode (env ''APPLE_SCIM_UPDATE_MODE'')) (\<lambda>update_mode.
        ebind (parse_apple_scim_allow_username_recovery (env ''APPLE_SCIM_ALLOW_USERNAME_RECOVERY'')) (\<lambda>recovery.
        Inr \<lparr>ssf_issuer = issuer, ssf_base_url = strip_trailing_slash base,
             ssf_root_path = getenv env ''SSF_ROOT_PATH'' [], ssf_container_port = port,
             ssf_management_token = mtoken, log_level = level, ssf_webhook_auth_mode = auth_mode,
             ssf_webhook_token = wtoken, ssf_webhook_secret = wsecret,
             database_path = getenv env ''SSF_DATABASE_PATH'' ''/app/data/ssf.db'',
             keys_dir = getenv env ''SSF_KEYS_DIR'' ''/app/keys'', log_pii = is_true_flag env ''SSF_LOG_PII'',
             pii_pepper = getenv env ''SSF_PII_PEPPER'' [],
             apple_scim_client_id = nonempty (env ''APPLE_SCIM_CLIENT_ID''),
             apple_scim_client_secret = nonempty (env ''APPLE_SCIM_CLIENT_SECRET''),
             authentik_url = map_option strip_trailing_slash (nonempty (env ''AUTHENTIK_URL'')),
             authentik_token = nonempty (env ''AUTHENTIK_TOKEN''),
             apple_scim_group_id = nonempty (env ''APPLE_SCIM_GROUP_ID''),
             apple_scim_sync_interval = interval, apple_scim_alert_webhook_url = alert_url,
             apple_scim_authorize_url = authorize_url, apple_scim_token_url = token_url,
             apple_scim_log_error_body = is_true_flag env ''APPLE_SCIM_LOG_ERROR_BODY'',
             apple_scim_update_mode = update_mode, apple_scim_allow_username_recovery = recovery,
             ssf_allow_custom_issuer = is_true_flag env ''SSF_ALLOW_CUSTOM_ISSUER'',
             ssf_log_color = is_true_flag env ''SSF_LOG_COLOR'',
             ssf_log_receiver_error_body = is_true_flag env ''SSF_LOG_RECEIVER_ERROR_BODY'',
             ssf_enable_openapi = is_true_flag env ''SSF_ENABLE_OPENAPI'',
             ssf_allowed_receiver_hosts = parse_allowed_receiver_hosts (env ''SSF_ALLOWED_RECEIVER_HOSTS''),
             ssf_token_encryption_key = nonempty (env ''SSF_TOKEN_ENCRYPTION_KEY'')\<rparr>)))))))))))))))"

definition public_url :: "settings \<Rightarrow> pystr \<Rightarrow> pystr" where
  "public_url s path =
     ssf_base_url s @ (if startswith path ''/'' then path else CHR ''/'' # path)"

definition opt_str :: "pystr option \<Rightarrow> pystr" where
  "opt_str v = (case v of Some s \<Rightarrow> s | None \<Rightarrow> [])"

definition safe_log_dict :: "settings \<Rightarrow> pydict" where
  "safe_log_dict s =
     [(''ssf_issuer'', JStr (ssf_issuer s)), (''ssf_base_url'', JStr (ssf_base_url s)),
      (''ssf_root_path'', JStr (ssf_root_path s)), (''ssf_container_port'', JInt (ssf_container_port s)),
      (''database_path'', JStr (database_path s)), (''keys_dir'', JStr (keys_dir s)),
      (''log_level'', JStr (log_level s)), (''ssf_webhook_auth_mode'', JStr (ssf_webhook_auth_mode s)),
      (''apple_scim_enabled'', JBool (apple_scim_enabled s)),
      (''apple_scim_group_filter_enabled'', JBool (nonempty (apple_scim_group_id s) \<noteq> None)),
      (''apple_scim_group_id'', JStr (opt_str (apple_scim_group_id s))),
      (''apple_scim_update_mode'', JStr (apple_scim_update_mode s)),
      (''apple_scim_log_error_body'', JBool (apple_scim_log_error_body s)),
      (''apple_scim_allow_username_recovery'', JBool (apple_scim_allow_username_recovery s)),
      (''ssf_enable_openapi'', JBool (ssf_enable_openapi s)),
      (''ssf_allowed_receiver_hosts_count'', JInt (int (length (ssf_allowed_receiver_hosts s)))),
      (''token_encryption_key_dedicated'', JBool (nonempty (ssf_token_encryption_key s) \<noteq> None))]"

text \<open>The access-log filter for the container health check.\<close>

definition healthcheck_filter :: "pystr \<Rightarrow> bool" where
  "healthcheck_filter msg \<longleftrightarrow> \<not> (contains msg ''127.0.0.1'' \<and> contains msg ''/jwks.json'')"

section \<open>What loaded settings satisfy\<close>

definition https_url :: "pystr \<Rightarrow> bool" where
  "https_url v \<longleftrightarrow> (\<exists>p. urlparse v = Some p \<and> url_scheme p = ''https'' \<and> url_hostname p \<noteq> [])"

lemma parse_https_url_ok: "parse_https_url v n = Inr u \<longleftrightarrow> u = v \<and> https_url v"
  by (auto simp: parse_https_url_def https_url_def split: option.splits)

lemma nonempty_Some: "nonempty v = Some s \<longleftrightarrow> v = Some s \<and> s \<noteq> []"
  by (auto simp: nonempty_def split: option.splits list.splits)

lemma parse_sync_interval_ok: "parse_sync_interval v = Inr i \<Longrightarrow> 1 \<le> i"
  by (auto simp: parse_sync_interval_def ebind_Inr_iff split: if_splits)

lemma parse_update_mode_ok: "parse_apple_scim_update_mode v = Inr m \<Longrightarrow> m \<in> set APPLE_SCIM_UPDATE_MODES"
  by (auto simp: parse_apple_scim_update_mode_def Let_def split: if_splits)

lemma parse_management_token_ok: "parse_management_token v = Inr t \<Longrightarrow> v = Some t \<and> 32 \<le> length t"
  by (auto simp: parse_management_token_def nonempty_Some split: option.splits if_splits)

lemma parse_webhook_mode_ok: "parse_webhook_auth_mode v legacy = Inr m \<Longrightarrow> m \<in> set WEBHOOK_AUTH_MODES"
  by (auto simp: parse_webhook_auth_mode_def WEBHOOK_AUTH_MODES_def Let_def split: if_splits)

lemma parse_webhook_token_ok:
  "parse_webhook_token v ''bearer'' = Inr t \<Longrightarrow> \<exists>s. t = Some s \<and> 32 \<le> length s"
  by (cases "nonempty v") (auto simp: parse_webhook_token_def split: if_splits, metis linorder_not_less)

lemma parse_webhook_secret_ok: "parse_webhook_secret v ''hmac'' = Inr s \<Longrightarrow> s \<noteq> []"
  by (auto simp: parse_webhook_secret_def nonempty_def split: option.splits list.splits if_splits)

lemma parse_log_level_ok: "parse_log_level v = Inr l \<Longrightarrow> l \<in> set LOG_LEVELS"
  by (auto simp: parse_log_level_def Let_def split: if_splits)

lemma allowed_hosts_normal:
  "h \<in> set (parse_allowed_receiver_hosts v) \<Longrightarrow> h \<noteq> [] \<and> strip_lower_form h = h"
  by (auto simp: parse_allowed_receiver_hosts_def strip_lower_form_def strip_lower split: option.splits)

lemma rstrip_last: "rstrip p s = [] \<or> \<not> p (last (rstrip p s))"
proof (cases "dropWhile p (rev s)")
  case (Cons c t)
  then have "\<not> p c" by (metis dropWhile_eq_Cons_conv)
  with Cons show ?thesis by (simp add: rstrip_def)
qed (simp add: rstrip_def)

definition no_trailing_slash :: "pystr \<Rightarrow> bool" where
  "no_trailing_slash s \<longleftrightarrow> s = [] \<or> last s \<noteq> CHR ''/''"

lemma no_trailing_slash_strip: "no_trailing_slash (strip_trailing_slash s)"
  using rstrip_last [of "\<lambda>c. c = CHR ''/''" s] by (auto simp: no_trailing_slash_def strip_trailing_slash_def)

definition settings_ok :: "settings \<Rightarrow> bool" where
  "settings_ok s \<longleftrightarrow>
     https_url (ssf_issuer s) \<and> no_trailing_slash (ssf_base_url s)
     \<and> 32 \<le> length (ssf_management_token s) \<and> log_level s \<in> set LOG_LEVELS
     \<and> ssf_webhook_auth_mode s \<in> set WEBHOOK_AUTH_MODES
     \<and> (ssf_webhook_auth_mode s = ''bearer'' \<longrightarrow> (\<exists>t. ssf_webhook_token s = Some t \<and> 32 \<le> length t))
     \<and> (ssf_webhook_auth_mode s = ''hmac'' \<longrightarrow> ssf_webhook_secret s \<noteq> [])
     \<and> 1 \<le> apple_scim_sync_interval s \<and> apple_scim_update_mode s \<in> set APPLE_SCIM_UPDATE_MODES
     \<and> https_url (apple_scim_authorize_url s) \<and> https_url (apple_scim_token_url s)
     \<and> (\<forall>u. apple_scim_alert_webhook_url s = Some u \<longrightarrow> https_url u)
     \<and> (\<forall>h \<in> set (ssf_allowed_receiver_hosts s). h \<noteq> [] \<and> strip_lower_form h = h)"

lemmas parser_facts = parse_sync_interval_ok parse_update_mode_ok
  parse_management_token_ok parse_webhook_mode_ok parse_webhook_token_ok parse_webhook_secret_ok
  parse_log_level_ok allowed_hosts_normal

lemma opt_https_url_ok: "opt_https_url env n = Inr (Some u) \<Longrightarrow> https_url u"
  by (auto simp: opt_https_url_def ebind_Inr_iff parse_https_url_ok split: option.splits)

lemma from_env_settings_ok: "from_env env = Inr s \<Longrightarrow> settings_ok s"
  by (auto simp: from_env_def Let_def ebind_Inr_iff settings_ok_def parse_https_url_ok
      dest: parser_facts opt_https_url_ok intro: no_trailing_slash_strip split: if_splits)

text \<open>
  C29. Settings that load are usable: the issuer and the Apple URLs are HTTPS URLs, the base URL
  has no trailing slash, the management token has at least 32 characters, the webhook mode is one
  of the three and carries the credential it needs, the sync interval is positive, the update
  mode and log level are known, and every allowlisted host is non-empty and in normal form.
\<close>

theorem from_env_ok:
  assumes "from_env env = Inr s"
  shows "settings_ok s"
  using assms by (rule from_env_settings_ok)

definition example_env :: environ where
  "example_env = map_of
     [(''SSF_ISSUER'', ''https://id.example.com''), (''SSF_BASE_URL'', ''https://ssf.example.com/''),
      (''SSF_MANAGEMENT_TOKEN'', ''0123456789abcdef0123456789abcdef''),
      (''SSF_WEBHOOK_TOKEN'', ''fedcba9876543210fedcba9876543210''),
      (''SSF_ALLOWED_RECEIVER_HOSTS'', ''A.example.com, b.example.com,'')]"

definition example_settings :: settings where
  "example_settings =
     \<lparr>ssf_issuer = ''https://id.example.com'', ssf_base_url = ''https://ssf.example.com'',
      ssf_root_path = [], ssf_container_port = 8000,
      ssf_management_token = ''0123456789abcdef0123456789abcdef'', log_level = ''INFO'',
      ssf_webhook_auth_mode = ''bearer'', ssf_webhook_token = Some ''fedcba9876543210fedcba9876543210'',
      ssf_webhook_secret = [], database_path = ''/app/data/ssf.db'', keys_dir = ''/app/keys'',
      log_pii = False, pii_pepper = [], apple_scim_client_id = None, apple_scim_client_secret = None,
      authentik_url = None, authentik_token = None, apple_scim_group_id = None,
      apple_scim_sync_interval = 3600, apple_scim_alert_webhook_url = None,
      apple_scim_authorize_url = ''https://appleid.apple.com/auth/oauth2/v2/authorize'',
      apple_scim_token_url = ''https://appleid.apple.com/auth/oauth2/v2/token'',
      apple_scim_log_error_body = False, apple_scim_update_mode = ''patch_all'',
      apple_scim_allow_username_recovery = False, ssf_allow_custom_issuer = False, ssf_log_color = False,
      ssf_log_receiver_error_body = False, ssf_enable_openapi = False,
      ssf_allowed_receiver_hosts = [''a.example.com'', ''b.example.com''], ssf_token_encryption_key = None\<rparr>"

theorem from_env_ok_witness:
  "from_env example_env = Inr example_settings \<and> settings_ok example_settings"
proof -
  have e: "from_env example_env = Inr example_settings" by code_simp
  then show ?thesis using from_env_ok [OF e] by simp
qed

definition with_secrets :: "settings \<Rightarrow> settings \<Rightarrow> settings" where
  "with_secrets s t = s\<lparr>ssf_management_token := ssf_management_token t,
     ssf_webhook_token := ssf_webhook_token t, ssf_webhook_secret := ssf_webhook_secret t,
     pii_pepper := pii_pepper t, apple_scim_client_id := apple_scim_client_id t,
     apple_scim_client_secret := apple_scim_client_secret t, authentik_token := authentik_token t,
     ssf_token_encryption_key := ssf_token_encryption_key t\<rparr>"

text \<open>
  The dictionary logged at start-up carries no secret: replacing the management token, the
  webhook credentials, the pseudonymisation pepper, the SCIM and Authentik credentials and the
  encryption key by other values (present where they were present) leaves it unchanged.
\<close>

theorem safe_log_dict_hides_secrets:
  assumes "apple_scim_enabled (with_secrets s t) = apple_scim_enabled s"
    and "(nonempty (ssf_token_encryption_key t) = None) = (nonempty (ssf_token_encryption_key s) = None)"
  shows "safe_log_dict (with_secrets s t) = safe_log_dict s"
  using assms by (simp add: safe_log_dict_def with_secrets_def)

theorem safe_log_dict_hides_secrets_witness:
  "safe_log_dict (with_secrets example_settings
     (example_settings\<lparr>ssf_management_token := ''x'', pii_pepper := ''y''\<rparr>)) = safe_log_dict example_settings"
  by (rule safe_log_dict_hides_secrets)
     (simp_all add: with_secrets_def apple_scim_enabled_def example_settings_def)

end
