(* ===== verification/Json_Text.thy ===== *)
theory Json_Text
  imports Prelude
begin

text \<open>
  The JSON text format as the sources use it: \<^verbatim>\<open>json.dumps\<close> with compact separators and
  \<^verbatim>\<open>ensure_ascii=True\<close> (\<open>json_dumps\<close>), and \<^verbatim>\<open>json.loads\<close> (\<open>json_loads\<close>, where \<open>None\<close> is a
  \<^verbatim>\<open>JSONDecodeError\<close>). The main result is the round trip that the durable queue rests on:
  what \<open>json_dumps\<close> writes, \<open>json_loads\<close> reads back, for every value without floats whose
  objects have no repeated key. Unicode escapes above \<^verbatim>\<open>\u00ff\<close> are outside the modelled
  character range and count as unreadable. The reader is structurally recursive in a fuel
  argument; \<open>json_loads\<close> supplies one unit per character, and every nested call consumes a
  character, so running out of fuel never decides a result on text \<open>json_dumps\<close> wrote.
\<close>

section \<open>Writing\<close>

abbreviation qt :: char where "qt \<equiv> CHR 0x22"
abbreviation bs :: char where "bs \<equiv> CHR 0x5C"

definition short_escapes :: "(char \<times> char) list" where
  "short_escapes = [(qt, qt), (bs, bs), (CHR 0x0A, CHR ''n''), (CHR 0x0D, CHR ''r''),
     (CHR 0x09, CHR ''t''), (CHR 0x0C, CHR ''f''), (CHR 0x08, CHR ''b'')]"

definition esc_char :: "char \<Rightarrow> pystr" where
  "esc_char c =
     (case map_of short_escapes c of
        Some e \<Rightarrow> [bs, e]
      | None \<Rightarrow> (let n = (of_char c :: nat) in
          if 32 \<le> n \<and> n \<le> 126 then [c]
          else [bs, CHR ''u'', CHR ''0'', CHR ''0'', hex_digit (n div 16), hex_digit (n mod 16)]))"

definition dump_str :: "pystr \<Rightarrow> pystr" where
  "dump_str s = qt # concat (map esc_char s) @ [qt]"

text \<open>The writer, with the text \<open>g\<close> it puts after each comma and colon: empty for compact
  separators, a space for the default ones.\<close>

fun dump :: "pystr \<Rightarrow> json \<Rightarrow> pystr"
  and dump_items :: "pystr \<Rightarrow> json list \<Rightarrow> pystr"
  and dump_pairs :: "pystr \<Rightarrow> (pystr \<times> json) list \<Rightarrow> pystr" where
  "dump g JNull = ''null''"
| "dump g (JBool b) = (if b then ''true'' else ''false'')"
| "dump g (JInt i) = int_str i"
| "dump g (JFloat t) = t"
| "dump g (JStr s) = dump_str s"
| "dump g (JArr xs) = CHR ''['' # dump_items g xs @ '']''"
| "dump g (JObj d) = CHR ''{'' # dump_pairs g d @ ''}''"
| "dump_items g [] = []"
| "dump_items g [x] = dump g x"
| "dump_items g (x # y # xs) = dump g x @ CHR '','' # g @ dump_items g (y # xs)"
| "dump_pairs g [] = []"
| "dump_pairs g [(k, v)] = dump_str k @ CHR '':'' # g @ dump g v"
| "dump_pairs g ((k, v) # p # ps) =
     dump_str k @ CHR '':'' # g @ dump g v @ CHR '','' # g @ dump_pairs g (p # ps)"

text \<open>\<^verbatim>\<open>json.dumps(v, separators=(",", ":"))\<close> and \<^verbatim>\<open>json.dumps(v)\<close>.\<close>

definition json_dumps :: "json \<Rightarrow> pystr" where
  "json_dumps v = dump [] v"

definition json_dumps_spaced :: "json \<Rightarrow> pystr" where
  "json_dumps_spaced v = dump '' '' v"

section \<open>Reading\<close>

definition is_ws :: "char \<Rightarrow> bool" where
  "is_ws c \<longleftrightarrow> c = CHR '' '' \<or> c = CHR 0x09 \<or> c = CHR 0x0A \<or> c = CHR 0x0D"

definition skip_ws :: "pystr \<Rightarrow> pystr" where
  "skip_ws s = dropWhile is_ws s"

definition hex_val :: "char \<Rightarrow> nat option" where
  "hex_val c = (let n = (of_char c :: nat) in
     if 48 \<le> n \<and> n \<le> 57 then Some (n - 48)
     else if 97 \<le> n \<and> n \<le> 102 then Some (n - 87)
     else if 65 \<le> n \<and> n \<le> 70 then Some (n - 55) else None)"

definition hex4_char :: "char \<Rightarrow> char \<Rightarrow> char \<Rightarrow> char \<Rightarrow> char option" where
  "hex4_char a b c d = (case (hex_val a, hex_val b, hex_val c, hex_val d) of
     (Some w, Some x, Some y, Some z) \<Rightarrow>
       (if w = 0 \<and> x = 0 then Some (char_of (16 * y + z)) else None)
   | _ \<Rightarrow> None)"

definition unescape :: "char \<Rightarrow> char option" where
  "unescape e = map_of [(qt, qt), (bs, bs), (CHR ''/'', CHR ''/''), (CHR ''b'', CHR 0x08),
     (CHR ''f'', CHR 0x0C), (CHR ''n'', CHR 0x0A), (CHR ''r'', CHR 0x0D), (CHR ''t'', CHR 0x09)] e"

text \<open>The rest of a string literal after its opening quote: its characters and what follows it.\<close>

fun load_chars :: "pystr \<Rightarrow> (pystr \<times> pystr) option" where
  "load_chars [] = None"
| "load_chars (c # s) =
     (if c = qt then Some ([], s)
      else if c = bs then
        (case s of
           [] \<Rightarrow> None
         | e # s' \<Rightarrow>
             if e = CHR ''u'' then
               (case s' of
                  h1 # h2 # h3 # h4 # s'' \<Rightarrow>
                    (case hex4_char h1 h2 h3 h4 of
                       None \<Rightarrow> None
                     | Some x \<Rightarrow> map_option (apfst ((#) x)) (load_chars s''))
                | _ \<Rightarrow> None)
             else (case unescape e of
                     None \<Rightarrow> None
                   | Some x \<Rightarrow> map_option (apfst ((#) x)) (load_chars s')))
      else if (of_char c :: nat) < 32 then None
      else map_option (apfst ((#) c)) (load_chars s))"

text \<open>A number literal: an integer, or a float kept as its text.\<close>

definition load_frac :: "pystr \<Rightarrow> pystr \<times> pystr" where
  "load_frac s = (case s of
     c # d # s' \<Rightarrow> if c = CHR ''.'' \<and> is_digit d
                  then (c # takeWhile is_digit (d # s'), dropWhile is_digit (d # s')) else ([], s)
   | _ \<Rightarrow> ([], s))"

definition load_exp :: "pystr \<Rightarrow> pystr \<times> pystr" where
  "load_exp s = (case s of
     c # s1 \<Rightarrow>
       if c = CHR ''e'' \<or> c = CHR ''E'' then
         (let (sg, s2) = (case s1 of d # s' \<Rightarrow> if d = CHR ''+'' \<or> d = CHR ''-'' then ([d], s') else ([], s1)
                                   | [] \<Rightarrow> ([], s1));
              ds = takeWhile is_digit s2
          in if ds = [] then ([], s) else (c # sg @ ds, dropWhile is_digit s2))
       else ([], s)
   | [] \<Rightarrow> ([], s))"

definition load_digits :: "pystr \<Rightarrow> pystr \<times> pystr" where
  "load_digits s = (case s of
     c # s' \<Rightarrow> if c = CHR ''0'' then ([c], s') else (takeWhile is_digit s, dropWhile is_digit s)
   | [] \<Rightarrow> ([], []))"

definition load_number :: "pystr \<Rightarrow> (json \<times> pystr) option" where
  "load_number s =
     (let neg = startswith s ''-'';
          (ds, s1) = load_digits (removeprefix s ''-'');
          (fr, s2) = load_frac s1;
          (ex, s3) = load_exp s2
      in if ds = [] then None
         else if fr = [] \<and> ex = []
           then Some (JInt (if neg then - int (digits_val ds) else int (digits_val ds)), s3)
         else Some (JFloat ((if neg then ''-'' else []) @ ds @ fr @ ex), s3))"

definition load_word :: "pystr \<Rightarrow> (json \<times> pystr) option" where
  "load_word s =
     (if startswith s ''null'' then Some (JNull, drop 4 s)
      else if startswith s ''true'' then Some (JBool True, drop 4 s)
      else if startswith s ''false'' then Some (JBool False, drop 5 s)
      else if startswith s ''NaN'' then Some (JFloat ''nan'', drop 3 s)
      else if startswith s ''Infinity'' then Some (JFloat ''inf'', drop 8 s)
      else if startswith s ''-Infinity'' then Some (JFloat ''-inf'', drop 9 s)
      else load_number s)"

fun load_value :: "nat \<Rightarrow> pystr \<Rightarrow> (json \<times> pystr) option"
  and load_items :: "nat \<Rightarrow> pystr \<Rightarrow> (json list \<times> pystr) option"
  and load_pairs :: "nat \<Rightarrow> pystr \<Rightarrow> ((pystr \<times> json) list \<times> pystr) option" where
  "load_value 0 s = None"
| "load_value (Suc f) s =
     (case s of
        [] \<Rightarrow> None
      | c # s1 \<Rightarrow>
          if c = qt then map_option (apfst JStr) (load_chars s1)
          else if c = CHR ''['' then
            (case skip_ws s1 of
               [] \<Rightarrow> None
             | d # s2 \<Rightarrow> if d = CHR '']'' then Some (JArr [], s2)
                        else map_option (apfst JArr) (load_items f (d # s2)))
          else if c = CHR ''{'' then
            (case skip_ws s1 of
               [] \<Rightarrow> None
             | d # s2 \<Rightarrow> if d = CHR ''}'' then Some (JObj [], s2)
                        else map_option (apfst (\<lambda>ps. JObj (fold (\<lambda>(k, v) d. dset d k v) ps [])))
                               (load_pairs f (d # s2)))
          else load_word s)"
| "load_items 0 s = None"
| "load_items (Suc f) s =
     (case load_value f s of
        None \<Rightarrow> None
      | Some (v, s1) \<Rightarrow>
          (case skip_ws s1 of
             [] \<Rightarrow> None
           | d # s2 \<Rightarrow> if d = CHR '']'' then Some ([v], s2)
                      else if d = CHR '','' then map_option (apfst ((#) v)) (load_items f (skip_ws s2))
                      else None))"
| "load_pairs 0 s = None"
| "load_pairs (Suc f) s =
     (case s of
        [] \<Rightarrow> None
      | c # s0 \<Rightarrow>
          if c \<noteq> qt then None
          else (case load_chars s0 of
                  None \<Rightarrow> None
                | Some (k, s1) \<Rightarrow>
                    (case skip_ws s1 of
                       [] \<Rightarrow> None
                     | d # s2 \<Rightarrow>
                         if d \<noteq> CHR '':'' then None
                         else (case load_value f (skip_ws s2) of
                                 None \<Rightarrow> None
                               | Some (v, s3) \<Rightarrow>
                                   (case skip_ws s3 of
                                      [] \<Rightarrow> None
                                    | e # s4 \<Rightarrow>
                                        if e = CHR ''}'' then Some ([(k, v)], s4)
                                        else if e = CHR '','' then
                                          map_option (apfst ((#) (k, v))) (load_pairs f (skip_ws s4))
                                        else None)))))"

definition json_loads :: "pystr \<Rightarrow> json option" where
  "json_loads s =
     (case load_value (Suc (length s)) (skip_ws s) of
        None \<Rightarrow> None
      | Some (v, r) \<Rightarrow> if skip_ws r = [] then Some v else None)"

section \<open>Round trip\<close>

subsection \<open>Strings\<close>

lemma hex_val_hex_digit: "n < 16 \<Longrightarrow> hex_val (hex_digit n) = Some n"
  by (auto simp: hex_val_def hex_digit_def Let_def of_char_char_of_small)

lemma hex4_char_code: "hex4_char (CHR ''0'') (CHR ''0'') (hex_digit (of_char c div 16)) (hex_digit (of_char c mod 16)) = Some c"
proof -
  have "of_char c div 16 < (16 :: nat)"
    using of_char_less [of c] less_mult_imp_div_less [of "of_char c" 16 16] by simp
  moreover have "hex_val (CHR ''0'') = Some 0" by (simp add: hex_val_def)
  moreover have "16 * (of_char c div 16) + of_char c mod 16 = (of_char c :: nat)" by simp
  ultimately show ?thesis by (simp add: hex4_char_def hex_val_hex_digit)
qed

lemma short_escapes_unescape: "map_of short_escapes c = Some e \<Longrightarrow> unescape e = Some c \<and> e \<noteq> CHR ''u''"
  by (auto simp: short_escapes_def unescape_def split: if_splits)

lemma short_escapes_None: "map_of short_escapes c = None \<Longrightarrow> c \<noteq> qt \<and> c \<noteq> bs"
  by (auto simp: short_escapes_def)

lemma esc_char_cases:
  obtains (plain) "esc_char c = [c]" "c \<noteq> qt" "c \<noteq> bs" "\<not> (of_char c :: nat) < 32"
    | (short) e where "esc_char c = [bs, e]" "unescape e = Some c" "e \<noteq> CHR ''u''"
    | (hex) "esc_char c = [bs, CHR ''u'', CHR ''0'', CHR ''0'',
                           hex_digit (of_char c div 16), hex_digit (of_char c mod 16)]"
proof (cases "map_of short_escapes c")
  case None
  then show ?thesis
    using that(1,3) short_escapes_None [OF None]
    by (cases "32 \<le> (of_char c :: nat) \<and> (of_char c :: nat) \<le> 126") (auto simp: esc_char_def Let_def)
next
  case (Some e)
  then show ?thesis using that(2) short_escapes_unescape [OF Some] by (simp add: esc_char_def)
qed

lemma load_chars_dump: "load_chars (concat (map esc_char s) @ qt # r) = Some (s, r)"
proof (induction s)
  case Nil
  then show ?case by simp
next
  case (Cons c s)
  then show ?case
    by (cases c rule: esc_char_cases) (auto simp: hex4_char_code)
qed

subsection \<open>Integers\<close>

definition sep_end :: "pystr \<Rightarrow> bool" where
  "sep_end r \<longleftrightarrow> (case r of [] \<Rightarrow> True | c # _ \<Rightarrow> c \<in> {CHR '','', CHR '']'', CHR ''}''})"

lemma digit_char_digit: "d < 10 \<Longrightarrow> is_digit (digit_char d) \<and> digit_val (digit_char d) = d"
  by (auto simp: is_digit_def digit_char_def digit_val_def Let_def of_char_char_of_small)

lemma nat_str_digits: "\<forall>c \<in> set (nat_str n). is_digit c"
proof (induction n rule: nat_str.induct)
  case (1 n)
  then show ?case
    by (cases "n < 10") (auto simp: nat_str.simps [of n] digit_char_digit)
qed

lemma digits_val_snoc: "digits_val (ds @ [c]) = 10 * digits_val ds + digit_val c"
  by (simp add: digits_val_def)

lemma digits_val_nat_str: "digits_val (nat_str n) = n"
proof (induction n rule: nat_str.induct)
  case (1 n)
  show ?case
  proof (cases "n < 10")
    case True
    then show ?thesis
      by (simp add: nat_str.simps [of n] digits_val_def digit_char_digit)
  next
    case False
    with "1" show ?thesis
      by (simp add: nat_str.simps [of n] digits_val_snoc digit_char_digit)
  qed
qed

lemma nat_str_nonempty: "nat_str n \<noteq> []"
  by (subst nat_str.simps) simp

lemma digit_char_0: "digit_char 0 = CHR ''0''"
  by code_simp

lemma nat_str_0: "nat_str 0 = ''0''"
  by (simp add: nat_str.simps [of 0] digit_char_0)

lemma hd_nat_str: "n > 0 \<Longrightarrow> hd (nat_str n) \<noteq> CHR ''0''"
proof (induction n rule: nat_str.induct)
  case (1 n)
  show ?case
  proof (cases "n < 10")
    case True
    with "1.prems" have "(of_char (digit_char n) :: nat) \<noteq> of_char (CHR ''0'')"
      by (simp add: digit_char_def of_char_char_of_small)
    with True show ?thesis by (auto simp: nat_str.simps [of n])
  next
    case False
    with "1" show ?thesis
      by (simp add: nat_str.simps [of n] nat_str_nonempty)
  qed
qed

lemma sep_end_not_digit: "sep_end r \<Longrightarrow> takeWhile is_digit r = [] \<and> dropWhile is_digit r = r"
  by (auto simp: sep_end_def is_digit_def split: list.splits)

lemma takeWhile_digits:
  "\<forall>c \<in> set ds. is_digit c \<Longrightarrow> sep_end r \<Longrightarrow>
     takeWhile is_digit (ds @ r) = ds \<and> dropWhile is_digit (ds @ r) = r"
  by (simp add: sep_end_not_digit dropWhile_append)

lemma load_digits_nat_str: "sep_end r \<Longrightarrow> load_digits (nat_str n @ r) = (nat_str n, r)"
proof (cases "n = 0")
  case True
  then show ?thesis by (simp add: nat_str_0 load_digits_def)
next
  case False
  assume "sep_end r"
  then have "takeWhile is_digit (nat_str n @ r) = nat_str n" "dropWhile is_digit (nat_str n @ r) = r"
    using takeWhile_digits [OF nat_str_digits] by auto
  moreover obtain c s where "nat_str n = c # s" using nat_str_nonempty by (cases "nat_str n") auto
  ultimately show ?thesis using hd_nat_str [of n] False by (simp add: load_digits_def)
qed

lemma sep_end_no_frac: "sep_end r \<Longrightarrow> load_frac r = ([], r) \<and> load_exp r = ([], r)"
  by (auto simp: sep_end_def load_frac_def load_exp_def split: list.splits)

lemma nat_str_Cons: "\<exists>c s. nat_str n = c # s \<and> is_digit c"
  using nat_str_nonempty [of n] nat_str_digits [of n] by (cases "nat_str n") auto

lemma load_number_int_str: "sep_end r \<Longrightarrow> load_number (int_str i @ r) = Some (JInt i, r)"
proof -
  assume r: "sep_end r"
  obtain c s where c: "nat_str (nat i) = c # s" "is_digit c" using nat_str_Cons by blast
  then have "c \<noteq> CHR ''-''" by (auto simp: is_digit_def)
  with c have pos: "\<not> startswith (nat_str (nat i) @ r) ''-''" by (simp add: startswith_def)
  have neg: "startswith (CHR ''-'' # nat_str (nat (- i)) @ r) ''-''"
    "removeprefix (CHR ''-'' # nat_str (nat (- i)) @ r) ''-'' = nat_str (nat (- i)) @ r"
    by (simp_all add: startswith_def removeprefix_def)
  show ?thesis
    using r pos neg
    by (auto simp: load_number_def int_str_def load_digits_nat_str sep_end_no_frac
        nat_str_nonempty digits_val_nat_str removeprefix_def)
qed

lemma load_word_int_str: "sep_end r \<Longrightarrow> load_word (int_str i @ r) = Some (JInt i, r)"
proof -
  assume r: "sep_end r"
  obtain c s where c: "nat_str (nat i) = c # s" "is_digit c" using nat_str_Cons by blast
  obtain c' s' where c': "nat_str (nat (- i)) = c' # s'" "is_digit c'" using nat_str_Cons by blast
  from c(2) c'(2) have "c \<notin> {CHR ''n'', CHR ''t'', CHR ''f'', CHR ''N'', CHR ''I'', CHR ''-''}"
    "c' \<noteq> CHR ''I''" by (auto simp: is_digit_def)
  then have "load_word (int_str i @ r) = load_number (int_str i @ r)"
    using c c' by (auto simp: load_word_def int_str_def startswith_def)
  with r show ?thesis by (simp add: load_number_int_str)
qed

subsection \<open>Values\<close>

text \<open>The values whose text form determines them: no float, no repeated key.\<close>

fun plain :: "json \<Rightarrow> bool"
  and plain_items :: "json list \<Rightarrow> bool"
  and plain_pairs :: "(pystr \<times> json) list \<Rightarrow> bool" where
  "plain (JFloat t) \<longleftrightarrow> False"
| "plain (JArr xs) \<longleftrightarrow> plain_items xs"
| "plain (JObj d) \<longleftrightarrow> distinct (map fst d) \<and> plain_pairs d"
| "plain _ \<longleftrightarrow> True"
| "plain_items [] \<longleftrightarrow> True"
| "plain_items (x # xs) \<longleftrightarrow> plain x \<and> plain_items xs"
| "plain_pairs [] \<longleftrightarrow> True"
| "plain_pairs ((k, v) # ps) \<longleftrightarrow> plain v \<and> plain_pairs ps"

lemma plain_items_iff: "plain_items xs \<longleftrightarrow> (\<forall>x \<in> set xs. plain x)"
  by (induction xs) auto

lemma plain_pairs_iff: "plain_pairs ps \<longleftrightarrow> (\<forall>(k, v) \<in> set ps. plain v)"
  by (induction ps) auto

lemma skip_ws_Cons: "\<not> is_ws c \<Longrightarrow> skip_ws (c # s) = c # s"
  by (simp add: skip_ws_def)

lemma sep_not_ws [simp]:
  "skip_ws (CHR '','' # s) = CHR '','' # s" "skip_ws (CHR '']'' # s) = CHR '']'' # s"
  "skip_ws (CHR ''}'' # s) = CHR ''}'' # s" "skip_ws (CHR '':'' # s) = CHR '':'' # s"
  "skip_ws (qt # s) = qt # s"
  by (simp_all add: skip_ws_def is_ws_def)

text \<open>The text between items is white space, so the reader skips it.\<close>

definition gap :: "pystr \<Rightarrow> bool" where
  "gap sp \<longleftrightarrow> (\<forall>c \<in> set sp. is_ws c)"

lemma skip_ws_gap: "gap sp \<Longrightarrow> skip_ws (sp @ s) = skip_ws s"
  by (induction sp) (auto simp: gap_def skip_ws_def)

text \<open>What a written value starts with: never white space, never a closing bracket.\<close>

lemma int_str_start: "\<exists>c s. int_str i = c # s \<and> \<not> is_ws c \<and>
    c \<notin> {CHR '']'', CHR ''}'', qt, CHR ''['', CHR ''{''}"
  using nat_str_Cons [of "nat i"] nat_str_Cons [of "nat (- i)"]
  by (auto simp: int_str_def is_digit_def is_ws_def)

lemma dump_start:
  "plain v \<Longrightarrow> \<exists>c s. dump sp v = c # s \<and> \<not> is_ws c \<and> c \<noteq> CHR '']'' \<and> c \<noteq> CHR ''}''"
proof (cases v)
  case (JInt i)
  then show ?thesis using int_str_start [of i] by auto
qed (auto simp: dump_str_def is_ws_def)

lemma skip_ws_dump: "plain v \<Longrightarrow> skip_ws (dump sp v @ r) = dump sp v @ r"
  using dump_start [of v sp] by (auto simp: skip_ws_Cons)

lemma dump_nonempty: "plain v \<Longrightarrow> 0 < length (dump sp v)"
  using dump_start [of v sp] by auto

lemma dset_new: "k \<notin> fst ` set d \<Longrightarrow> dset d k v = d @ [(k, v)]"
  by (induction d) (auto simp: dset_def)

lemma fold_dset_distinct:
  "distinct (map fst (acc @ ps)) \<Longrightarrow> fold (\<lambda>(k, v) d. dset d k v) ps acc = acc @ ps"
proof (induction ps arbitrary: acc)
  case Nil
  then show ?case by simp
next
  case (Cons p ps)
  obtain k v where p: "p = (k, v)" by (cases p)
  with Cons.prems have "dset acc k v = acc @ [(k, v)]"
    by (auto intro: dset_new)
  with Cons p show ?case by simp
qed

text \<open>
  The reader inverts the writer. \<open>reads sp v\<close> says so for one value, whatever follows it and
  whatever the fuel beyond its length; the list lemmas lift it to items and members, and the
  result is by induction on the value.
\<close>

definition reads :: "pystr \<Rightarrow> json \<Rightarrow> bool" where
  "reads sp v \<longleftrightarrow> (\<forall>r f. sep_end r \<longrightarrow> length (dump sp v) \<le> f \<longrightarrow> load_value f (dump sp v @ r) = Some (v, r))"

lemma readsD: "reads sp v \<Longrightarrow> sep_end r \<Longrightarrow> length (dump sp v) \<le> f \<Longrightarrow> load_value f (dump sp v @ r) = Some (v, r)"
  by (simp add: reads_def)

lemma sep_end_Cons [simp]: "sep_end (CHR '','' # r)" "sep_end (CHR '']'' # r)" "sep_end (CHR ''}'' # r)" "sep_end []"
  by (simp_all add: sep_end_def)

lemma dump_items_start:
  "\<forall>x \<in> set xs. plain x \<Longrightarrow> xs \<noteq> [] \<Longrightarrow>
     \<exists>c s. dump_items sp xs = c # s \<and> \<not> is_ws c \<and> c \<noteq> CHR '']''"
proof (cases xs)
  case (Cons x ys)
  moreover assume "\<forall>x \<in> set xs. plain x"
  ultimately show ?thesis using dump_start [of x sp] by (cases ys) auto
qed simp

lemma dump_pairs_start: "ps \<noteq> [] \<Longrightarrow> \<exists>s. dump_pairs sp ps = qt # s"
  by (cases ps; cases "hd ps"; cases "tl ps") (auto simp: dump_str_def)

lemma load_items_dump:
  assumes "gap sp" "\<forall>x \<in> set xs. plain x \<and> reads sp x" "xs \<noteq> []" "Suc (length (dump_items sp xs)) \<le> f"
  shows "load_items f (dump_items sp xs @ CHR '']'' # r) = Some (xs, r)"
  using assms(2-4)
proof (induction xs arbitrary: f)
  case (Cons x xs)
  then obtain g where f: "f = Suc g" by (cases f) auto
  show ?case
  proof (cases xs)
    case Nil
    then show ?thesis using Cons.prems f readsD [of sp x "CHR '']'' # r" g] by simp
  next
    case (Cons y ys)
    let ?rest = "dump_items sp xs @ CHR '']'' # r"
    have "load_value g (dump sp x @ CHR '','' # sp @ ?rest) = Some (x, CHR '','' # sp @ ?rest)"
      using Cons.prems f Cons by (intro readsD) auto
    moreover have "skip_ws (sp @ ?rest) = ?rest"
      using dump_items_start [of xs sp] Cons.prems Cons
      by (auto simp: skip_ws_gap [OF assms(1)] skip_ws_Cons)
    moreover have "load_items g ?rest = Some (xs, r)"
      using Cons.IH [of g] Cons.prems f Cons dump_nonempty [of x sp] by auto
    ultimately show ?thesis using f Cons by simp
  qed
qed simp

lemma load_pairs_dump:
  assumes "gap sp" "\<forall>p \<in> set ps. plain (snd p) \<and> reads sp (snd p)" "ps \<noteq> []"
    and "Suc (length (dump_pairs sp ps)) \<le> f"
  shows "load_pairs f (dump_pairs sp ps @ CHR ''}'' # r) = Some (ps, r)"
  using assms(2-4)
proof (induction ps arbitrary: f)
  case (Cons p ps)
  obtain k v where p: "p = (k, v)" by (cases p)
  from Cons.prems obtain g where f: "f = Suc g" by (cases f) auto
  note ws = skip_ws_gap [OF assms(1)] skip_ws_dump [of v sp]
  show ?case
  proof (cases ps)
    case Nil
    then show ?thesis
      using Cons.prems f p readsD [of sp v "CHR ''}'' # r" g] by (simp add: dump_str_def load_chars_dump ws)
  next
    case (Cons q qs)
    let ?rest = "dump_pairs sp ps @ CHR ''}'' # r"
    have "load_value g (dump sp v @ CHR '','' # sp @ ?rest) = Some (v, CHR '','' # sp @ ?rest)"
      using Cons.prems f Cons p by (intro readsD) (auto simp: dump_str_def)
    moreover have "skip_ws (sp @ ?rest) = ?rest"
      using dump_pairs_start [of ps sp] Cons by (auto simp: skip_ws_gap [OF assms(1)])
    moreover have "load_pairs g ?rest = Some (ps, r)"
      using Cons.IH [of g] Cons.prems f Cons p by (auto simp: dump_str_def)
    ultimately show ?thesis using Cons.prems f Cons p by (simp add: dump_str_def load_chars_dump ws)
  qed
qed simp

lemma reads_array:
  assumes "gap sp" "\<forall>x \<in> set xs. plain x \<and> reads sp x"
  shows "reads sp (JArr xs)"
  unfolding reads_def
proof (intro allI impI)
  fix r f
  assume "length (dump sp (JArr xs)) \<le> f"
  then obtain g where f: "f = Suc g" "Suc (length (dump_items sp xs)) \<le> g" by (cases f) auto
  show "load_value f (dump sp (JArr xs) @ r) = Some (JArr xs, r)"
  proof (cases "xs = []")
    case False
    then obtain c s where "dump_items sp xs = c # s" "\<not> is_ws c" "c \<noteq> CHR '']''"
      using dump_items_start [of xs sp] assms by auto
    then show ?thesis
      using load_items_dump [OF assms False f(2), of r] f by (simp add: skip_ws_Cons)
  qed (use f in simp)
qed

lemma reads_object:
  assumes "gap sp" "\<forall>p \<in> set ps. plain (snd p) \<and> reads sp (snd p)" "distinct (map fst ps)"
  shows "reads sp (JObj ps)"
  unfolding reads_def
proof (intro allI impI)
  fix r f
  assume "length (dump sp (JObj ps)) \<le> f"
  then obtain g where f: "f = Suc g" "Suc (length (dump_pairs sp ps)) \<le> g" by (cases f) auto
  show "load_value f (dump sp (JObj ps) @ r) = Some (JObj ps, r)"
  proof (cases "ps = []")
    case False
    then obtain s where "dump_pairs sp ps = qt # s" using dump_pairs_start by blast
    then show ?thesis
      using load_pairs_dump [OF assms(1,2) False f(2), of r] f assms(3) fold_dset_distinct [of "[]" ps] by simp
  qed (use f in simp)
qed

lemma reads_int: "reads sp (JInt i)"
  unfolding reads_def
proof (intro allI impI)
  fix r f
  assume r: "sep_end r" and "length (dump sp (JInt i)) \<le> f"
  then obtain g where "f = Suc g" using dump_nonempty [of "JInt i" sp] by (cases f) auto
  then show "load_value f (dump sp (JInt i) @ r) = Some (JInt i, r)"
    using int_str_start [of i] load_word_int_str [OF r, of i] by auto
qed

lemma reads_plain: "gap sp \<Longrightarrow> plain v \<Longrightarrow> reads sp v"
proof (induction v)
  case (JInt i)
  show ?case by (rule reads_int)
next
  case (JArr xs)
  then show ?case by (intro reads_array) (auto simp: plain_items_iff)
next
  case (JObj ps)
  then show ?case by (intro reads_object) (fastforce simp: plain_pairs_iff)+
next
  case JNull
  show ?case unfolding reads_def by (intro allI impI, case_tac f) (auto simp: load_word_def startswith_def)
next
  case (JBool b)
  show ?case
    unfolding reads_def by (intro allI impI, case_tac f; cases b) (auto simp: load_word_def startswith_def)
next
  case (JStr s)
  show ?case
    unfolding reads_def by (intro allI impI, case_tac f) (auto simp: dump_str_def load_chars_dump)
qed simp

lemma json_loads_dump: "gap sp \<Longrightarrow> plain v \<Longrightarrow> json_loads (dump sp v) = Some v"
  using readsD [OF reads_plain, of sp v "[]" "Suc (length (dump sp v))"] skip_ws_dump [of v sp "[]"]
  by (simp add: json_loads_def skip_ws_def)

lemma gap_simps [simp]: "gap []" "gap '' ''"
  by (simp_all add: gap_def is_ws_def)

lemma json_loads_dumps: "plain v \<Longrightarrow> json_loads (json_dumps v) = Some v"
  by (simp add: json_dumps_def json_loads_dump)

lemma json_loads_dumps_spaced: "plain v \<Longrightarrow> json_loads (json_dumps_spaced v) = Some v"
  by (simp add: json_dumps_spaced_def json_loads_dump)

interpretation compact_json: codec plain json_dumps json_loads
  by unfold_locales (rule json_loads_dumps)

interpretation spaced_json: codec plain json_dumps_spaced json_loads
  by unfold_locales (rule json_loads_dumps_spaced)

end
