(* ===== verification/Crypto.thy ===== *)
theory Crypto
  imports Config Json_Text
begin

text \<open>
  \<^verbatim>\<open>app/crypto.py\<close>: encryption at rest of receiver tokens and queued payloads, the signing-key
  files, and the claims of the signed security event tokens. Fernet, SHA-256 and the JWT encoder
  are parameters (record \<open>crypto_lib\<close>); what the code relies on is stated as \<open>fernet_laws\<close> and
  shown to be satisfiable by a concrete cipher. The format heuristic \<open>is_valid_fernet_token_format\<close>
  is computed with the lenient base64 decoder of the standard library.
\<close>

section \<open>Parameters\<close>

text \<open>Outcome of decrypting a Fernet token and decoding the bytes as UTF-8.\<close>

datatype fernet_result = Plaintext pystr | InvalidToken | NotUtf8

record crypto_lib =
  fernet_encrypt :: "pystr \<Rightarrow> nat \<Rightarrow> pystr \<Rightarrow> pystr"    \<comment> \<open>key, time and nonce, text\<close>
  fernet_decrypt :: "pystr \<Rightarrow> pystr \<Rightarrow> fernet_result"      \<comment> \<open>key, token\<close>
  sha256_key :: "pystr \<Rightarrow> pystr"                              \<comment> \<open>base64 of the SHA-256 digest\<close>
  jwt_encode :: "json \<Rightarrow> pystr \<Rightarrow> json \<Rightarrow> pystr option"  \<comment> \<open>claims, key, headers\<close>

datatype crypto_error =
    TokenDecryptionError | EncryptedDataError | UnicodeDecodeError
  | MissingKeyFile | JwksShape | JwksNoKeys | JwksNoKid | SigningFailed

definition FERNET_PREFIX :: pystr where
  "FERNET_PREFIX = ''fernet1:''"

definition FERNET_BLOB_PREFIX :: pystr where
  "FERNET_BLOB_PREFIX = ''gAAAA''"

definition FERNET_VERSION_BYTE :: nat where
  "FERNET_VERSION_BYTE = 128"

definition FERNET_MIN_TOKEN_BYTES :: nat where
  "FERNET_MIN_TOKEN_BYTES = 57"

section \<open>Base64\<close>

text \<open>Value of a character of the URL-safe or the standard alphabet.\<close>

definition b64_val :: "char \<Rightarrow> nat option" where
  "b64_val c = (let n = (of_char c :: nat) in
     if 65 \<le> n \<and> n \<le> 90 then Some (n - 65)
     else if 97 \<le> n \<and> n \<le> 122 then Some (n - 71)
     else if 48 \<le> n \<and> n \<le> 57 then Some (n + 4)
     else if c = CHR ''-'' \<or> c = CHR ''+'' then Some 62
     else if c = CHR ''_'' \<or> c = CHR ''/'' then Some 63 else None)"

text \<open>
  The lenient decoder \<^verbatim>\<open>binascii.a2b_base64\<close>: position in the current group of four, pads seen
  since the last data character, bits left over. Other characters are skipped, a completed
  padding ends the input, an incomplete group is an error.
\<close>

fun a2b_base64 :: "nat \<Rightarrow> nat \<Rightarrow> nat \<Rightarrow> pystr \<Rightarrow> nat list option" where
  "a2b_base64 pos pads left [] = (if pos = 0 then Some [] else None)"
| "a2b_base64 pos pads left (c # s) =
     (if c = CHR ''='' then
        (if pos \<ge> 2 then (if pos + pads + 1 \<ge> 4 then Some [] else a2b_base64 pos (pads + 1) left s)
         else a2b_base64 pos pads left s)
      else case b64_val c of
        None \<Rightarrow> a2b_base64 pos pads left s
      | Some v \<Rightarrow>
          if pos = 0 then a2b_base64 1 0 v s
          else if pos = 1 then map_option ((#) (left * 4 + v div 16)) (a2b_base64 2 0 (v mod 16) s)
          else if pos = 2 then map_option ((#) (left * 16 + v div 4)) (a2b_base64 3 0 (v mod 4) s)
          else map_option ((#) (left * 64 + v)) (a2b_base64 0 0 0 s))"

text \<open>\<^verbatim>\<open>base64.urlsafe_b64decode\<close> on a text; text with a character above 127 is refused.\<close>

definition urlsafe_b64decode :: "pystr \<Rightarrow> nat list option" where
  "urlsafe_b64decode s =
     (if list_all (\<lambda>c. (of_char c :: nat) < 128) s then a2b_base64 0 0 0 s else None)"

definition is_valid_fernet_token_format :: "pystr \<Rightarrow> bool" where
  "is_valid_fernet_token_format s \<longleftrightarrow>
     startswith s FERNET_BLOB_PREFIX \<and>
     (let padded = s @ replicate ((4 - length s mod 4) mod 4) (CHR ''='') in
      case urlsafe_b64decode padded of
        None \<Rightarrow> False
      | Some raw \<Rightarrow> FERNET_MIN_TOKEN_BYTES \<le> length raw \<and> hd raw = FERNET_VERSION_BYTE)"

section \<open>Encryption at rest\<close>

definition get_token_encryption_key :: "crypto_lib \<Rightarrow> settings \<Rightarrow> pystr" where
  "get_token_encryption_key lib cfg =
     sha256_key lib (case nonempty (ssf_token_encryption_key cfg) of
                       Some k \<Rightarrow> k | None \<Rightarrow> ssf_management_token cfg)"

definition encrypt_token :: "crypto_lib \<Rightarrow> settings \<Rightarrow> nat \<Rightarrow> pystr \<Rightarrow> pystr" where
  "encrypt_token lib cfg nonce plaintext =
     (if plaintext = [] then []
      else FERNET_PREFIX @ fernet_encrypt lib (get_token_encryption_key lib cfg) nonce plaintext)"

definition encrypt_sensitive_data :: "crypto_lib \<Rightarrow> settings \<Rightarrow> nat \<Rightarrow> pystr \<Rightarrow> pystr" where
  "encrypt_sensitive_data lib cfg nonce plaintext =
     FERNET_PREFIX @ fernet_encrypt lib (get_token_encryption_key lib cfg) nonce plaintext"

definition decrypt_sensitive_data :: "crypto_lib \<Rightarrow> settings \<Rightarrow> pystr \<Rightarrow> crypto_error + pystr" where
  "decrypt_sensitive_data lib cfg ciphertext =
     (if \<not> startswith ciphertext FERNET_PREFIX then Inl EncryptedDataError
      else case fernet_decrypt lib (get_token_encryption_key lib cfg)
                  (drop (length FERNET_PREFIX) ciphertext) of
        Plaintext s \<Rightarrow> Inr s
      | InvalidToken \<Rightarrow> Inl EncryptedDataError
      | NotUtf8 \<Rightarrow> Inl EncryptedDataError)"

definition decrypt_fernet_blob :: "crypto_lib \<Rightarrow> settings \<Rightarrow> pystr \<Rightarrow> crypto_error + pystr" where
  "decrypt_fernet_blob lib cfg blob =
     (case fernet_decrypt lib (get_token_encryption_key lib cfg) blob of
        Plaintext s \<Rightarrow> Inr s
      | InvalidToken \<Rightarrow> Inl TokenDecryptionError
      | NotUtf8 \<Rightarrow> Inl UnicodeDecodeError)"

definition decrypt_token :: "crypto_lib \<Rightarrow> settings \<Rightarrow> pystr \<Rightarrow> crypto_error + pystr" where
  "decrypt_token lib cfg ciphertext =
     (if ciphertext = [] then Inr []
      else if startswith ciphertext FERNET_PREFIX then
        (let blob = drop (length FERNET_PREFIX) ciphertext in
         case decrypt_fernet_blob lib cfg blob of
           Inr s \<Rightarrow> Inr s
         | Inl TokenDecryptionError \<Rightarrow>
             if is_valid_fernet_token_format blob then Inl TokenDecryptionError else Inr ciphertext
         | Inl e \<Rightarrow> Inl e)
      else if is_valid_fernet_token_format ciphertext then
        (case fernet_decrypt lib (get_token_encryption_key lib cfg) ciphertext of
           Plaintext s \<Rightarrow> Inr s
         | InvalidToken \<Rightarrow> Inr ciphertext
         | NotUtf8 \<Rightarrow> Inl UnicodeDecodeError)
      else Inr ciphertext)"

section \<open>Signing keys\<close>

text \<open>The two key files; \<open>None\<close> is a missing or unreadable file. The JWKS file is its JSON value.\<close>

record key_files =
  private_pem :: "pystr option"
  jwks_file :: "json option"

text \<open>\<^verbatim>\<open>_b64url_uint\<close>: big-endian bytes of the number in unpadded URL-safe base64.\<close>

definition b64url_char :: "nat \<Rightarrow> char" where
  "b64url_char v =
     (if v < 26 then char_of (65 + v) else if v < 52 then char_of (71 + v)
      else if v < 62 then char_of (v - 4) else if v = 62 then CHR ''-'' else CHR ''_'')"

fun b64url_bytes :: "nat list \<Rightarrow> pystr" where
  "b64url_bytes (a # b # c # s) =
     [b64url_char (a div 4), b64url_char (a mod 4 * 16 + b div 16),
      b64url_char (b mod 16 * 4 + c div 64), b64url_char (c mod 64)] @ b64url_bytes s"
| "b64url_bytes [a, b] =
     [b64url_char (a div 4), b64url_char (a mod 4 * 16 + b div 16), b64url_char (b mod 16 * 4)]"
| "b64url_bytes [a] = [b64url_char (a div 4), b64url_char (a mod 4 * 16)]"
| "b64url_bytes [] = []"

fun be_bytes :: "nat \<Rightarrow> nat list" where
  "be_bytes n = (if n = 0 then [] else be_bytes (n div 256) @ [n mod 256])"

declare be_bytes.simps [simp del]

definition b64url_uint :: "nat \<Rightarrow> pystr" where
  "b64url_uint n = b64url_bytes (be_bytes n)"

text \<open>The key generator is a parameter: the private PEM text, the SHA-256 hex digest of the public
  PEM, and the modulus and exponent.\<close>

record generated_key =
  gen_pem :: pystr
  gen_public_digest :: pystr
  gen_n :: nat
  gen_e :: nat

definition public_jwk :: "generated_key \<Rightarrow> json" where
  "public_jwk k = JObj [(''kty'', JStr ''RSA''), (''use'', JStr ''sig''),
     (''kid'', JStr (take 8 (gen_public_digest k))), (''alg'', JStr ''RS256''),
     (''n'', JStr (b64url_uint (gen_n k))), (''e'', JStr (b64url_uint (gen_e k)))]"

definition ensure_keys :: "generated_key \<Rightarrow> key_files \<Rightarrow> key_files" where
  "ensure_keys fresh kf =
     (if private_pem kf \<noteq> None \<and> jwks_file kf \<noteq> None then kf
      else \<lparr>private_pem = Some (gen_pem fresh),
            jwks_file = Some (JObj [(''keys'', JArr [public_jwk fresh])])\<rparr>)"

definition load_jwks :: "key_files \<Rightarrow> crypto_error + json" where
  "load_jwks kf = (case jwks_file kf of None \<Rightarrow> Inl MissingKeyFile | Some j \<Rightarrow> Inr j)"

definition load_signing_material :: "key_files \<Rightarrow> crypto_error + (pystr \<times> json)" where
  "load_signing_material kf =
     (case private_pem kf of
        None \<Rightarrow> Inl MissingKeyFile
      | Some pem \<Rightarrow>
         ebind (load_jwks kf) (\<lambda>jwks.
           case jwks of
             JObj d \<Rightarrow>
               (if \<not> truthy (dget d ''keys'') then Inl JwksNoKeys
                else case dget d ''keys'' of
                  JArr (JObj k # _) \<Rightarrow>
                    (if truthy (dget k ''kid'') then Inr (pem, dget k ''kid'') else Inl JwksNoKid)
                | _ \<Rightarrow> Inl JwksShape)
           | _ \<Rightarrow> Inl JwksShape))"

section \<open>Security event tokens\<close>

definition set_headers :: "json \<Rightarrow> json" where
  "set_headers kid = JObj [(''kid'', kid), (''typ'', JStr ''secevent+jwt'')]"

definition set_claims ::
  "settings \<Rightarrow> int \<Rightarrow> pystr \<Rightarrow> pystr \<Rightarrow> pystr \<Rightarrow> pystr \<Rightarrow> pystr \<Rightarrow> pydict option \<Rightarrow> pystr option \<Rightarrow> json" where
  "set_claims cfg now jti txn_uuid event_uri audience email event_payload txn =
     JObj [(''iss'', JStr (ssf_issuer cfg)), (''iat'', JInt now), (''jti'', JStr jti),
       (''aud'', JArr [JStr audience]),
       (''txn'', JStr (case nonempty txn of Some t \<Rightarrow> t | None \<Rightarrow> txn_uuid)),
       (''sub_id'', JObj [(''format'', JStr ''email''), (''email'', JStr email)]),
       (''events'', JObj [(event_uri, JObj (case event_payload of Some p \<Rightarrow> p | None \<Rightarrow> []))])]"

definition VERIFICATION_EVENT :: pystr where
  "VERIFICATION_EVENT = ''https://schemas.openid.net/secevent/ssf/event-type/verification''"

definition verification_claims ::
  "settings \<Rightarrow> int \<Rightarrow> pystr \<Rightarrow> pystr \<Rightarrow> pystr \<Rightarrow> pystr option \<Rightarrow> json" where
  "verification_claims cfg now jti audience stream_id state =
     JObj [(''iss'', JStr (ssf_issuer cfg)), (''iat'', JInt now), (''jti'', JStr jti),
       (''aud'', JArr [JStr audience]),
       (''sub_id'', JObj [(''format'', JStr ''opaque''), (''id'', JStr stream_id)]),
       (''events'', JObj [(VERIFICATION_EVENT,
          JObj (case state of Some s \<Rightarrow> [(''state'', JStr s)] | None \<Rightarrow> []))])]"

definition jwt_sign :: "crypto_lib \<Rightarrow> key_files \<Rightarrow> json \<Rightarrow> crypto_error + pystr" where
  "jwt_sign lib kf claims =
     ebind (load_signing_material kf) (\<lambda>(pem, kid).
       case jwt_encode lib claims pem (set_headers kid) of
         None \<Rightarrow> Inl SigningFailed
       | Some t \<Rightarrow> Inr t)"

text \<open>The clock and the fresh identifiers of one call.\<close>

record fresh =
  f_now :: int
  f_jti :: pystr
  f_txn :: pystr

definition sign_set ::
  "crypto_lib \<Rightarrow> settings \<Rightarrow> key_files \<Rightarrow> fresh \<Rightarrow> pystr \<Rightarrow> pystr \<Rightarrow> pystr \<Rightarrow> pydict option \<Rightarrow> pystr option
     \<Rightarrow> crypto_error + pystr" where
  "sign_set lib cfg kf fr event_uri audience email event_payload txn =
     jwt_sign lib kf
       (set_claims cfg (f_now fr) (f_jti fr) (f_txn fr) event_uri audience email event_payload txn)"

definition sign_verification_set ::
  "crypto_lib \<Rightarrow> settings \<Rightarrow> key_files \<Rightarrow> fresh \<Rightarrow> pystr \<Rightarrow> pystr \<Rightarrow> pystr option \<Rightarrow> crypto_error + pystr" where
  "sign_verification_set lib cfg kf fr audience stream_id state =
     jwt_sign lib kf (verification_claims cfg (f_now fr) (f_jti fr) audience stream_id state)"

section \<open>What the code relies on\<close>

text \<open>
  The documented behaviour of Fernet: a token decrypts under its key to the text it was made from and
  is refused under every other key, and its wire format is that of the specification: the padded
  URL-safe base64 of the version byte 128, eight bytes of time in big-endian order, an initialisation
  vector of 16 bytes, a ciphertext of one or more blocks of 16 bytes, and 32 bytes of HMAC. The time is
  in seconds since 1970, so that its first three bytes are zero for 34,000 years.
\<close>

definition b64_pad :: "pystr \<Rightarrow> pystr" where
  "b64_pad s = s @ replicate ((4 - length s mod 4) mod 4) (CHR ''='')"

definition fernet_wire :: "pystr \<Rightarrow> bool" where
  "fernet_wire t \<longleftrightarrow>
     (\<exists>time iv ct mac. t = b64_pad (b64url_bytes (128 # [0, 0, 0] @ time @ iv @ ct @ mac))
        \<and> length time = 5 \<and> length iv = 16 \<and> ct \<noteq> [] \<and> 16 dvd length ct \<and> length mac = 32
        \<and> (\<forall>x \<in> set (time @ iv @ ct @ mac). x < 256))"

definition fernet_laws :: "crypto_lib \<Rightarrow> bool" where
  "fernet_laws lib \<longleftrightarrow>
     (\<forall>k n p. fernet_decrypt lib k (fernet_encrypt lib k n p) = Plaintext p) \<and>
     (\<forall>k k' n p. k \<noteq> k' \<longrightarrow> fernet_decrypt lib k' (fernet_encrypt lib k n p) = InvalidToken) \<and>
     (\<forall>k n p. fernet_wire (fernet_encrypt lib k n p))"

section \<open>Base64 inverts\<close>

lemma b64_val_char_eq: "v < 64 \<Longrightarrow> b64_val (b64url_char v) = Some v"
  by (auto simp: b64_val_def b64url_char_def Let_def of_char_char_of_small)

lemma b64_char_not_pad: "v < 64 \<Longrightarrow> b64url_char v \<noteq> CHR ''=''"
  using b64_val_char_eq [of v] by (auto simp: b64_val_def)

lemma byte_parts:
  assumes "a < (256 :: nat)" "b < 256"
  shows "a div 4 < 64" "a mod 4 * 16 + b div 16 < 64" "b mod 16 * 4 < 64" "a mod 4 * 16 < 64"
    "a div 4 * 4 + (a mod 4 * 16 + b div 16) div 16 = a" "(a mod 4 * 16 + b div 16) mod 16 = b div 16"
    "a div 4 * 4 + a mod 4 * 16 div 16 = a" "b div 16 * 16 + b mod 16 * 4 div 4 = b"
  using assms less_mult_imp_div_less [of a 64 4] less_mult_imp_div_less [of b 16 16] by auto

lemma byte_parts3:
  assumes "b < (256 :: nat)" "c < 256"
  shows "b mod 16 * 4 + c div 64 < 64" "c mod 64 < 64"
    "b div 16 * 16 + (b mod 16 * 4 + c div 64) div 4 = b" "(b mod 16 * 4 + c div 64) mod 4 = c div 64"
    "c div 64 * 64 + c mod 64 = c"
  using assms less_mult_imp_div_less [of c 4 64] by auto

text \<open>Decoding inverts encoding, the padding that was stripped restored.\<close>

lemma b64_decode_bytes:
  "\<forall>x \<in> set xs. x < 256 \<Longrightarrow> a2b_base64 0 0 0 (b64_pad (b64url_bytes xs)) = Some xs"
proof (induction xs rule: b64url_bytes.induct)
  case (1 a b c s)
  let ?g = "[b64url_char (a div 4), b64url_char (a mod 4 * 16 + b div 16),
      b64url_char (b mod 16 * 4 + c div 64), b64url_char (c mod 64)]"
  have "b64_pad (b64url_bytes (a # b # c # s)) = ?g @ b64_pad (b64url_bytes s)"
    by (simp add: b64_pad_def)
  moreover have "b div 16 < 16" "c div 64 < 4"
    using 1 less_mult_imp_div_less [of b 16 16] less_mult_imp_div_less [of c 4 64] by simp_all
  ultimately show ?case
    using 1 byte_parts [of a b] byte_parts3 [of b c] by (simp add: b64_val_char_eq b64_char_not_pad)
next
  case (2 a b)
  then show ?case
    using byte_parts [of a b] by (simp add: b64_pad_def b64_val_char_eq b64_char_not_pad)
next
  case (3 a)
  then show ?case
    using byte_parts [of a a] by (simp add: b64_pad_def b64_val_char_eq b64_char_not_pad numeral_2_eq_2)
qed (simp add: b64_pad_def)

interpretation base64_bytes: codec "\<lambda>xs. \<forall>x \<in> set xs. x < 256" "\<lambda>xs. b64_pad (b64url_bytes xs)"
  "a2b_base64 0 0 0"
  by unfold_locales (rule b64_decode_bytes)

lemma b64url_bytes_ascii: "\<forall>x \<in> set xs. x < 256 \<Longrightarrow> list_all (\<lambda>c. (of_char c :: nat) < 128) (b64url_bytes xs)"
proof -
  have a: "v < 64 \<Longrightarrow> (of_char (b64url_char v) :: nat) < 128" for v
    by (auto simp: b64url_char_def of_char_char_of_small)
  show "\<forall>x \<in> set xs. x < 256 \<Longrightarrow> ?thesis"
  proof (induction xs rule: b64url_bytes.induct)
    case (1 a b c s)
    then show ?case using byte_parts [of a b] byte_parts3 [of b c] by (auto simp: a)
  next
    case (2 a b)
    then show ?case using byte_parts [of a b] by (simp add: a)
  next
    case (3 a)
    then show ?case using byte_parts [of a a] by (simp add: a)
  qed simp
qed

section \<open>Tokens are recognised\<close>

lemma b64_pad_length: "length (b64_pad s) mod 4 = 0"
proof -
  have "(n mod 4 + (4 - n mod 4) mod 4) mod 4 = 0" for n :: nat
  proof -
    have "n mod 4 \<in> {0, 1, 2, 3}" using mod_less_divisor [of 4 n] by force
    then show ?thesis by auto
  qed
  from this [of "length s"] show ?thesis by (simp add: b64_pad_def mod_add_left_eq)
qed

lemma b64_pad_ascii:
  "\<forall>x \<in> set xs. x < 256 \<Longrightarrow> list_all (\<lambda>c. (of_char c :: nat) < 128) (b64_pad (b64url_bytes xs))"
  using b64url_bytes_ascii [of xs] by (auto simp: b64_pad_def list_all_iff)

lemma b64_first_chars: "b64url_char 0 = CHR ''A''" "b64url_char 32 = CHR ''g''"
  by code_simp+

lemma b64url_bytes_zero: "\<exists>t. b64url_bytes (0 # s) = CHR ''A'' # t"
  by (cases "0 # s" rule: b64url_bytes.cases) (simp_all add: b64_first_chars)

text \<open>The format check accepts everything of the wire format: prefix, padding, length and version byte.\<close>

lemma fernet_wire_recognised:
  assumes "fernet_wire t"
  shows "is_valid_fernet_token_format t"
proof -
  from assms obtain time iv ct mac where t: "t = b64_pad (b64url_bytes (128 # [0, 0, 0] @ time @ iv @ ct @ mac))"
    and len: "length time = 5" "length iv = 16" "ct \<noteq> []" "16 dvd length ct" "length mac = 32"
    and bytes: "\<forall>x \<in> set (time @ iv @ ct @ mac). x < 256"
    unfolding fernet_wire_def by blast
  let ?raw = "128 # [0, 0, 0] @ time @ iv @ ct @ mac"
  have range: "\<forall>x \<in> set ?raw. x < 256" using bytes by auto
  have "urlsafe_b64decode t = Some ?raw"
    using b64_pad_ascii [OF range] b64_decode_bytes [OF range] by (simp add: urlsafe_b64decode_def t)
  moreover have "length t mod 4 = 0" by (simp only: t b64_pad_length)
  moreover obtain r where "b64url_bytes (0 # time @ iv @ ct @ mac) = CHR ''A'' # r" using b64url_bytes_zero by blast
  then have "startswith t FERNET_BLOB_PREFIX"
    by (simp add: t b64_pad_def startswith_def FERNET_BLOB_PREFIX_def b64_first_chars)
  moreover have "16 \<le> length ct" using len(3,4) by (auto dest: dvd_imp_le)
  ultimately show ?thesis
    using len by (simp add: is_valid_fernet_token_format_def FERNET_MIN_TOKEN_BYTES_def FERNET_VERSION_BYTE_def)
qed

section \<open>Round trips and other keys\<close>

lemma fernet_lawsD:
  assumes "fernet_laws lib"
  shows "fernet_decrypt lib k (fernet_encrypt lib k n p) = Plaintext p"
    "k \<noteq> k' \<Longrightarrow> fernet_decrypt lib k' (fernet_encrypt lib k n p) = InvalidToken"
    "is_valid_fernet_token_format (fernet_encrypt lib k n p)"
  using assms fernet_wire_recognised by (simp_all add: fernet_laws_def)

lemma drop_prefix [simp]: "drop (length p) (p @ s) = s"
  by simp

lemma decrypt_encrypt_token:
  "fernet_laws lib \<Longrightarrow> decrypt_token lib cfg (encrypt_token lib cfg n p) = Inr p"
  by (cases "p = []")
     (simp_all add: decrypt_token_def encrypt_token_def decrypt_fernet_blob_def fernet_lawsD(1)
        FERNET_PREFIX_def startswith_def)

lemma decrypt_encrypt_sensitive:
  "fernet_laws lib \<Longrightarrow> decrypt_sensitive_data lib cfg (encrypt_sensitive_data lib cfg n p) = Inr p"
  by (simp add: decrypt_sensitive_data_def encrypt_sensitive_data_def fernet_lawsD(1))

lemma decrypt_token_other_key:
  "fernet_laws lib \<Longrightarrow> get_token_encryption_key lib cfg' \<noteq> get_token_encryption_key lib cfg \<Longrightarrow> p \<noteq> [] \<Longrightarrow>
     decrypt_token lib cfg' (encrypt_token lib cfg n p) = Inl TokenDecryptionError"
  by (simp add: decrypt_token_def encrypt_token_def decrypt_fernet_blob_def fernet_lawsD
      FERNET_PREFIX_def startswith_def)

lemma decrypt_sensitive_other_key:
  "fernet_laws lib \<Longrightarrow> get_token_encryption_key lib cfg' \<noteq> get_token_encryption_key lib cfg \<Longrightarrow>
     decrypt_sensitive_data lib cfg' (encrypt_sensitive_data lib cfg n p) = Inl EncryptedDataError"
  by (simp add: decrypt_sensitive_data_def encrypt_sensitive_data_def fernet_lawsD)

text \<open>A token without the version prefix and without the Fernet shape is a legacy plaintext token.\<close>

lemma decrypt_token_legacy:
  "\<not> startswith t FERNET_PREFIX \<Longrightarrow> \<not> is_valid_fernet_token_format t \<Longrightarrow> decrypt_token lib cfg t = Inr t"
  by (simp add: decrypt_token_def)

section \<open>A cipher that satisfies the laws\<close>

text \<open>A block of 16 bytes per character of key and text, told apart by their first byte.\<close>

definition toy_blocks :: "nat \<Rightarrow> pystr \<Rightarrow> nat list" where
  "toy_blocks tag s = concat (map (\<lambda>c. tag # of_char c # replicate 14 0) s)"

definition toy_encrypt :: "pystr \<Rightarrow> nat \<Rightarrow> pystr \<Rightarrow> pystr" where
  "toy_encrypt k n p =
     b64_pad (b64url_bytes (128 # [0, 0, 0] @ replicate 5 0 @ replicate 16 0
       @ (toy_blocks 1 k @ toy_blocks 2 p @ replicate 16 0) @ replicate 32 0))"

fun toy_cells :: "nat list \<Rightarrow> (nat \<times> nat) list" where
  "toy_cells (a # b # s) = (a, b) # toy_cells (drop 14 s)"
| "toy_cells _ = []"

definition toy_part :: "nat \<Rightarrow> (nat \<times> nat) list \<Rightarrow> pystr" where
  "toy_part tag cs = map (\<lambda>(a, b). char_of b) (filter (\<lambda>(a, b). a = tag) cs)"

definition toy_decrypt :: "pystr \<Rightarrow> pystr \<Rightarrow> fernet_result" where
  "toy_decrypt k t =
     (case urlsafe_b64decode t of
        None \<Rightarrow> InvalidToken
      | Some raw \<Rightarrow>
          (let cs = toy_cells (drop 25 raw) in if toy_part 1 cs = k then Plaintext (toy_part 2 cs) else InvalidToken))"

definition toy_lib :: crypto_lib where
  "toy_lib = \<lparr>fernet_encrypt = toy_encrypt, fernet_decrypt = toy_decrypt, sha256_key = (\<lambda>s. s),
     jwt_encode = (\<lambda>claims key headers. Some (json_dumps (JArr [claims, headers])))\<rparr>"

lemma toy_blocks_length: "length (toy_blocks tag s) = 16 * length s"
  by (induction s) (simp_all add: toy_blocks_def)

lemma toy_blocks_bytes: "tag < 256 \<Longrightarrow> x \<in> set (toy_blocks tag s) \<Longrightarrow> x < 256"
  using of_char_less by (auto simp: toy_blocks_def split: if_splits)

lemma toy_cells_blocks: "toy_cells (toy_blocks tag s @ r) = map (\<lambda>c. (tag, of_char c)) s @ toy_cells r"
  by (induction s) (simp_all add: toy_blocks_def)

lemma toy_cells_tail: "toy_cells (replicate 16 0 @ replicate 32 0) = [(0, 0), (0, 0), (0, 0)]"
  by code_simp

lemma toy_encrypt_wire: "fernet_wire (toy_encrypt k n p)"
  unfolding fernet_wire_def toy_encrypt_def
  by (intro exI conjI) (rule refl, auto simp: toy_blocks_length dest: toy_blocks_bytes [rotated])

lemma toy_decrypt_encrypt: "toy_decrypt k' (toy_encrypt k n p) = (if k' = k then Plaintext p else InvalidToken)"
proof -
  let ?raw = "128 # [0, 0, 0] @ replicate 5 0 @ replicate 16 0 @ (toy_blocks 1 k @ toy_blocks 2 p @ replicate 16 0) @ replicate 32 0"
  have range: "\<forall>x \<in> set ?raw. x < 256" by (auto dest: toy_blocks_bytes [rotated])
  have "urlsafe_b64decode (toy_encrypt k n p) = Some ?raw"
    using b64_pad_ascii [OF range] b64_decode_bytes [OF range] by (simp add: urlsafe_b64decode_def toy_encrypt_def)
  moreover have "toy_cells (drop 25 ?raw) = map (\<lambda>c. (1, of_char c)) k @ map (\<lambda>c. (2, of_char c)) p @ [(0, 0), (0, 0), (0, 0)]"
    using toy_cells_tail by (simp add: toy_cells_blocks del: toy_cells.simps)
  ultimately show ?thesis by (auto simp: toy_decrypt_def toy_part_def Let_def filter_map comp_def)
qed

lemma toy_lib_laws: "fernet_laws toy_lib"
  by (simp add: fernet_laws_def toy_lib_def toy_decrypt_encrypt toy_encrypt_wire)

section \<open>Keys and key files\<close>

lemma be_bytes_0 [simp]: "be_bytes 0 = []"
  by (simp add: be_bytes.simps)

lemma be_bytes_range: "x \<in> set (be_bytes n) \<Longrightarrow> x < 256"
proof (induction n rule: be_bytes.induct)
  case (1 n)
  then show ?case by (cases "n = 0") (auto simp: be_bytes.simps [of n])
qed

lemma be_bytes_value: "foldl (\<lambda>v x. 256 * v + x) 0 (be_bytes n) = n"
proof (induction n rule: be_bytes.induct)
  case (1 n)
  then show ?case by (cases "n = 0") (simp_all add: be_bytes.simps [of n])
qed

text \<open>
  The modulus and exponent published in the JWKS are recoverable: decoding the base64url text
  of a number (padding restored) gives bytes whose big-endian value is that number.
\<close>

theorem b64url_uint_roundtrip:
  "map_option (foldl (\<lambda>v x. 256 * v + x) 0) (urlsafe_b64decode (b64_pad (b64url_uint n))) = Some n"
proof -
  have r: "\<forall>x \<in> set (be_bytes n). x < 256" using be_bytes_range by blast
  then have "list_all (\<lambda>c. (of_char c :: nat) < 128) (b64_pad (b64url_bytes (be_bytes n)))"
    using b64url_bytes_ascii by (auto simp: b64_pad_def list_all_iff)
  with r show ?thesis
    by (simp add: b64url_uint_def urlsafe_b64decode_def base64_bytes.dec_enc be_bytes_value)
qed

lemma ensure_keys_material:
  "private_pem kf = None \<or> jwks_file kf = None \<Longrightarrow> gen_public_digest g \<noteq> [] \<Longrightarrow>
     load_signing_material (ensure_keys g kf) = Inr (gen_pem g, JStr (take 8 (gen_public_digest g)))"
  by (auto simp: load_signing_material_def ensure_keys_def load_jwks_def public_jwk_def)

text \<open>
  Key generation is stable: when a key file is missing, the generated pair is usable for
  signing under the published key identifier, and a later start never replaces it.
\<close>

theorem ensure_keys_stable:
  assumes "private_pem kf = None \<or> jwks_file kf = None" "gen_public_digest g \<noteq> []"
  shows "load_signing_material (ensure_keys g kf) = Inr (gen_pem g, JStr (take 8 (gen_public_digest g)))
    \<and> ensure_keys g' (ensure_keys g kf) = ensure_keys g kf"
  using ensure_keys_material [OF assms] assms(1) by (auto simp: ensure_keys_def)

definition example_key :: generated_key where
  "example_key = \<lparr>gen_pem = ''PEM'', gen_public_digest = ''0123456789ab'', gen_n = 3233, gen_e = 17\<rparr>"

theorem ensure_keys_stable_witness:
  "load_signing_material (ensure_keys example_key \<lparr>private_pem = None, jwks_file = None\<rparr>)
     = Inr (''PEM'', JStr ''01234567'')"
  using ensure_keys_stable [of "\<lparr>private_pem = None, jwks_file = None\<rparr>" example_key example_key]
  by (simp add: example_key_def)

section \<open>Properties of encryption at rest\<close>

text \<open>
  A receiver token stored encrypted is read back unchanged while the key is unchanged, the
  empty token included.
\<close>

theorem token_roundtrip:
  assumes "fernet_laws lib"
  shows "decrypt_token lib cfg (encrypt_token lib cfg n p) = Inr p"
  using assms by (rule decrypt_encrypt_token)

theorem token_roundtrip_witness:
  "decrypt_token toy_lib example_settings (encrypt_token toy_lib example_settings 1 ''s3cret'') = Inr ''s3cret''"
  by (rule token_roundtrip [OF toy_lib_laws])

text \<open>The secret that protects the data: the dedicated key, unless it is absent or empty.\<close>

definition at_rest_secret :: "settings \<Rightarrow> pystr" where
  "at_rest_secret cfg =
     (case ssf_token_encryption_key cfg of Some k \<Rightarrow> if k = [] then ssf_management_token cfg else k | None \<Rightarrow> ssf_management_token cfg)"

lemma encryption_key_of_secret: "get_token_encryption_key lib cfg = sha256_key lib (at_rest_secret cfg)"
  by (simp add: get_token_encryption_key_def at_rest_secret_def nonempty_def split: option.splits list.splits)

text \<open>
  C25. Encryption at rest fails closed: what was stored under one configuration is read back under
  another exactly when both protect it with the same secret, the dedicated key if one is set and the
  management token otherwise. Under any other secret, as long as its digest differs, a stored token
  is reported as undecryptable, never returned as text, and a stored payload is refused.
\<close>

theorem other_key_fails_closed:
  assumes "fernet_laws lib" "p \<noteq> []"
    and "sha256_key lib (at_rest_secret cfg') = sha256_key lib (at_rest_secret cfg) \<longrightarrow> at_rest_secret cfg' = at_rest_secret cfg"
  shows "decrypt_token lib cfg' (encrypt_token lib cfg n p)
      = (if at_rest_secret cfg' = at_rest_secret cfg then Inr p else Inl TokenDecryptionError)
    \<and> decrypt_sensitive_data lib cfg' (encrypt_sensitive_data lib cfg n p)
      = (if at_rest_secret cfg' = at_rest_secret cfg then Inr p else Inl EncryptedDataError)"
proof (cases "at_rest_secret cfg' = at_rest_secret cfg")
  case True
  then have "get_token_encryption_key lib cfg' = get_token_encryption_key lib cfg" by (simp add: encryption_key_of_secret)
  then have "encrypt_token lib cfg n p = encrypt_token lib cfg' n p"
    "encrypt_sensitive_data lib cfg n p = encrypt_sensitive_data lib cfg' n p"
    by (simp_all add: encrypt_token_def encrypt_sensitive_data_def)
  with True assms(1) show ?thesis by (simp add: decrypt_encrypt_token decrypt_encrypt_sensitive)
next
  case False
  with assms(3) have "get_token_encryption_key lib cfg' \<noteq> get_token_encryption_key lib cfg" by (auto simp: encryption_key_of_secret)
  with False assms show ?thesis by (simp add: decrypt_token_other_key decrypt_sensitive_other_key)
qed

theorem other_key_fails_closed_witness:
  "let cfg' = example_settings\<lparr>ssf_token_encryption_key := Some ''rotated''\<rparr> in
   decrypt_token toy_lib cfg' (encrypt_token toy_lib example_settings 1 ''s3cret'') = Inl TokenDecryptionError
   \<and> decrypt_sensitive_data toy_lib cfg' (encrypt_sensitive_data toy_lib example_settings 1 ''s3cret'')
       = Inl EncryptedDataError"
proof -
  have "at_rest_secret (example_settings\<lparr>ssf_token_encryption_key := Some ''rotated''\<rparr>) \<noteq> at_rest_secret example_settings"
    by (simp add: at_rest_secret_def example_settings_def)
  with other_key_fails_closed [OF toy_lib_laws, of "''s3cret''" "example_settings\<lparr>ssf_token_encryption_key := Some ''rotated''\<rparr>"
      example_settings 1] show ?thesis by (simp add: toy_lib_def Let_def)
qed

end
