(* ===== verification/Database.thy ===== *)
theory Database
  imports Crypto "HOL-Library.Product_Lexorder"
begin

text \<open>
  \<^verbatim>\<open>app/database.py\<close>: the SQLite tables for the receiver stream and the durable delivery queue,
  one definition per operation. A database state is the two tables and the autoincrement counter;
  an operation returns its result with the new state, and an exception leaves the state as it was
  (the transaction is rolled back). The clock, the encryption nonces and the fresh stream
  identifier are arguments.
\<close>

section \<open>Rows and records\<close>

record stream =
  stream_id :: pystr
  aud :: pystr
  endpoint_url :: pystr
  endpoint_token :: pystr
  events_requested :: "json list"
  status :: pystr
  created_at :: int

record stream_row =
  r_stream_id :: pystr
  r_aud :: pystr
  r_endpoint_url :: pystr
  r_endpoint_token :: pystr
  r_events_requested :: pystr
  r_status :: pystr
  r_created_at :: int

record outbox_row =
  o_id :: nat
  o_stream_id :: pystr
  o_payload :: pystr
  o_created_at :: int
  o_attempts :: nat
  o_next_attempt_at :: int
  o_status :: pystr
  o_last_error :: "pystr option"

record outbox_item =
  item_id :: nat
  item_stream_id :: pystr
  item_payload :: pystr
  item_created_at :: int
  item_attempts :: nat

record db =
  streams :: "stream_row list"
  outbox :: "outbox_row list"
  outbox_seq :: nat

datatype db_error =
    StreamGone | StreamChanged | OutboxFull
  | MissingEndpointUrl | MissingAud | EventsNotList | UndecryptableToken
  | RowToken crypto_error | RowEvents

definition MAX_OUTBOX_ITEMS :: nat where
  "MAX_OUTBOX_ITEMS = 10000"

text \<open>The dictionaries \<^verbatim>\<open>prepare_stream\<close> and \<^verbatim>\<open>update_stream\<close> take; \<open>None\<close> is an absent key.\<close>

record delivery_payload =
  d_endpoint_url :: "pystr option"
  d_endpoint_url_token :: "pystr option"
  d_authorization_header :: "pystr option"

record stream_payload =
  p_stream_id :: "pystr option"
  p_aud :: "pystr option"
  p_delivery :: "delivery_payload option"
  p_endpoint_url :: "pystr option"
  p_endpoint_token :: "pystr option"
  p_events_requested :: "json option"
  p_status :: "pystr option"

definition no_delivery :: delivery_payload where
  "no_delivery = \<lparr>d_endpoint_url = None, d_endpoint_url_token = None, d_authorization_header = None\<rparr>"

definition delivery_of :: "stream_payload \<Rightarrow> delivery_payload" where
  "delivery_of p = (case p_delivery p of Some d \<Rightarrow> d | None \<Rightarrow> no_delivery)"

text \<open>\<^verbatim>\<open>x or y\<close> on optional strings.\<close>

definition or_str :: "pystr option \<Rightarrow> pystr option \<Rightarrow> pystr option" where
  "or_str x y = (case nonempty x of Some s \<Rightarrow> Some s | None \<Rightarrow> y)"

section \<open>Streams\<close>

text \<open>
  Every row is written with a JSON list in \<^verbatim>\<open>events_requested\<close>. A column with another JSON value, which
  the source would pass on as it is, is the error \<open>RowEvents\<close> here, like one that is not JSON.
\<close>

definition row_to_stream :: "crypto_lib \<Rightarrow> settings \<Rightarrow> stream_row \<Rightarrow> db_error + stream" where
  "row_to_stream lib cfg row =
     ebind (case decrypt_token lib cfg (r_endpoint_token row) of
              Inr t \<Rightarrow> Inr t
            | Inl TokenDecryptionError \<Rightarrow> Inr []
            | Inl e \<Rightarrow> Inl (RowToken e)) (\<lambda>tok.
       case json_loads (r_events_requested row) of
         Some (JArr evs) \<Rightarrow>
           Inr \<lparr>stream_id = r_stream_id row, aud = r_aud row, endpoint_url = r_endpoint_url row,
                endpoint_token = tok, events_requested = evs, status = r_status row,
                created_at = r_created_at row\<rparr>
       | _ \<Rightarrow> Inl RowEvents)"

definition replacement_endpoint_token :: "stream_payload \<Rightarrow> pystr option" where
  "replacement_endpoint_token p =
     (let delivery = delivery_of p in
      case d_endpoint_url_token delivery of
        Some t \<Rightarrow> Some t
      | None \<Rightarrow> (case p_endpoint_token p of
          Some t \<Rightarrow> Some t
        | None \<Rightarrow> (case d_authorization_header delivery of
            Some h \<Rightarrow> Some (if h \<noteq> [] then removeprefix h ''Bearer '' else [])
          | None \<Rightarrow> None)))"

definition receiver_replacement_is_missing :: "pystr option \<Rightarrow> bool" where
  "receiver_replacement_is_missing t \<longleftrightarrow> (case t of None \<Rightarrow> True | Some s \<Rightarrow> strip s = [])"

definition stored_token_is_undecryptable :: "pystr \<Rightarrow> pystr \<Rightarrow> bool" where
  "stored_token_is_undecryptable stored_token runtime_token \<longleftrightarrow> stored_token \<noteq> [] \<and> runtime_token = []"

definition prepare_stream :: "pystr \<Rightarrow> int \<Rightarrow> stream_payload \<Rightarrow> db_error + stream" where
  "prepare_stream uuid now p =
     (let delivery = delivery_of p;
          url = or_str (d_endpoint_url delivery) (p_endpoint_url p);
          auth_header = opt_str (d_authorization_header delivery);
          tok = opt_str (or_str (d_endpoint_url_token delivery)
                  (or_str (p_endpoint_token p)
                    (if auth_header \<noteq> [] then Some (removeprefix auth_header ''Bearer '') else None)));
          evs = (case p_events_requested p of Some v \<Rightarrow> py_or v (JArr []) | None \<Rightarrow> JArr [])
      in case nonempty url of
           None \<Rightarrow> Inl MissingEndpointUrl
         | Some u \<Rightarrow> (case nonempty (p_aud p) of
             None \<Rightarrow> Inl MissingAud
           | Some a \<Rightarrow> (case evs of
               JArr es \<Rightarrow> Inr \<lparr>stream_id = opt_str (or_str (p_stream_id p) (Some uuid)), aud = a,
                            endpoint_url = u, endpoint_token = tok, events_requested = es,
                            status = (case p_status p of Some s \<Rightarrow> s | None \<Rightarrow> ''enabled''),
                            created_at = now\<rparr>
             | _ \<Rightarrow> Inl EventsNotList)))"

definition stream_to_row :: "crypto_lib \<Rightarrow> settings \<Rightarrow> nat \<Rightarrow> stream \<Rightarrow> stream_row" where
  "stream_to_row lib cfg nonce st =
     \<lparr>r_stream_id = stream_id st, r_aud = aud st, r_endpoint_url = endpoint_url st,
      r_endpoint_token = encrypt_token lib cfg nonce (endpoint_token st),
      r_events_requested = json_dumps_spaced (JArr (events_requested st)),
      r_status = status st, r_created_at = created_at st\<rparr>"

definition pending :: "outbox_row \<Rightarrow> bool" where
  "pending r \<longleftrightarrow> o_status r = ''pending''"

definition save_stream :: "crypto_lib \<Rightarrow> settings \<Rightarrow> nat \<Rightarrow> stream \<Rightarrow> db \<Rightarrow> db" where
  "save_stream lib cfg nonce st d =
     d\<lparr>outbox := filter (\<lambda>r. \<not> pending r) (outbox d), streams := [stream_to_row lib cfg nonce st]\<rparr>"

definition create_stream ::
  "crypto_lib \<Rightarrow> settings \<Rightarrow> nat \<Rightarrow> pystr \<Rightarrow> int \<Rightarrow> stream_payload \<Rightarrow> db \<Rightarrow> db_error + (stream \<times> db)" where
  "create_stream lib cfg nonce uuid now p d =
     ebind (prepare_stream uuid now p) (\<lambda>st. Inr (st, save_stream lib cfg nonce st d))"

fun rows_to_streams :: "crypto_lib \<Rightarrow> settings \<Rightarrow> stream_row list \<Rightarrow> db_error + stream list" where
  "rows_to_streams lib cfg [] = Inr []"
| "rows_to_streams lib cfg (r # rs) =
     ebind (row_to_stream lib cfg r) (\<lambda>st. ebind (rows_to_streams lib cfg rs) (\<lambda>sts. Inr (st # sts)))"

text \<open>\<^verbatim>\<open>SELECT * FROM streams ORDER BY created_at DESC\<close>.\<close>

definition ordered_streams :: "db \<Rightarrow> stream_row list" where
  "ordered_streams d = sort_key (\<lambda>r. - r_created_at r) (streams d)"

definition list_streams :: "crypto_lib \<Rightarrow> settings \<Rightarrow> db \<Rightarrow> db_error + stream list" where
  "list_streams lib cfg d = rows_to_streams lib cfg (ordered_streams d)"

definition get_first_stream :: "crypto_lib \<Rightarrow> settings \<Rightarrow> db \<Rightarrow> db_error + stream option" where
  "get_first_stream lib cfg d =
     ebind (list_streams lib cfg d) (\<lambda>sts. Inr (case sts of [] \<Rightarrow> None | st # _ \<Rightarrow> Some st))"

definition find_row :: "pystr \<Rightarrow> db \<Rightarrow> stream_row option" where
  "find_row sid d = find (\<lambda>r. r_stream_id r = sid) (streams d)"

definition get_stream_by_id :: "crypto_lib \<Rightarrow> settings \<Rightarrow> pystr \<Rightarrow> db \<Rightarrow> db_error + stream option" where
  "get_stream_by_id lib cfg sid d =
     (case find_row sid d of
        None \<Rightarrow> Inr None
      | Some row \<Rightarrow> ebind (row_to_stream lib cfg row) (\<lambda>st. Inr (Some st)))"

text \<open>The row and the runtime stream after a patch, with the flags the transaction acts on.\<close>

definition patched_stream :: "stream_payload \<Rightarrow> stream \<Rightarrow> json list \<Rightarrow> stream" where
  "patched_stream p st evs =
     st\<lparr>aud := (case nonempty (p_aud p) of Some a \<Rightarrow> a | None \<Rightarrow> aud st),
        endpoint_url := opt_str (or_str (d_endpoint_url (delivery_of p))
                          (or_str (p_endpoint_url p) (Some (endpoint_url st)))),
        endpoint_token := (case replacement_endpoint_token p of Some t \<Rightarrow> t | None \<Rightarrow> endpoint_token st),
        events_requested := evs,
        status := (case p_status p of Some s \<Rightarrow> s | None \<Rightarrow> status st)\<rparr>"

definition delivery_configuration_changed :: "stream \<Rightarrow> stream \<Rightarrow> bool" where
  "delivery_configuration_changed new old \<longleftrightarrow>
     aud new \<noteq> aud old \<or> endpoint_url new \<noteq> endpoint_url old
     \<or> endpoint_token new \<noteq> endpoint_token old \<or> events_requested new \<noteq> events_requested old"

definition cancel_pending_of :: "pystr \<Rightarrow> outbox_row list \<Rightarrow> outbox_row list" where
  "cancel_pending_of sid rs = filter (\<lambda>r. \<not> (o_stream_id r = sid \<and> pending r)) rs"

definition wake_pending_of :: "pystr \<Rightarrow> outbox_row list \<Rightarrow> outbox_row list" where
  "wake_pending_of sid rs =
     map (\<lambda>r. if o_stream_id r = sid \<and> pending r then r\<lparr>o_next_attempt_at := 0\<rparr> else r) rs"

definition write_row :: "stream_row \<Rightarrow> stream_row list \<Rightarrow> stream_row list" where
  "write_row row rs = map (\<lambda>r. if r_stream_id r = r_stream_id row then row else r) rs"

definition patched_events :: "stream_payload \<Rightarrow> stream \<Rightarrow> json" where
  "patched_events p st = (case p_events_requested p of Some v \<Rightarrow> v | None \<Rightarrow> JArr (events_requested st))"

definition patched_row :: "crypto_lib \<Rightarrow> settings \<Rightarrow> nat \<Rightarrow> stream_payload \<Rightarrow> stream_row \<Rightarrow> stream \<Rightarrow> stream_row" where
  "patched_row lib cfg nonce p row new =
     row\<lparr>r_aud := aud new, r_endpoint_url := endpoint_url new,
         r_endpoint_token := (case replacement_endpoint_token p of
                                Some t \<Rightarrow> encrypt_token lib cfg nonce t | None \<Rightarrow> r_endpoint_token row),
         r_events_requested := json_dumps_spaced (JArr (events_requested new)), r_status := status new\<rparr>"

definition patched_outbox :: "stream \<Rightarrow> stream \<Rightarrow> outbox_row list \<Rightarrow> outbox_row list" where
  "patched_outbox new old rs =
     (if delivery_configuration_changed new old then cancel_pending_of (stream_id old) rs
      else if status new = ''enabled'' \<and> status old \<noteq> ''enabled'' then wake_pending_of (stream_id old) rs
      else rs)"

definition enables_without_token :: "stream_payload \<Rightarrow> stream_row \<Rightarrow> stream \<Rightarrow> stream \<Rightarrow> bool" where
  "enables_without_token p row new old \<longleftrightarrow>
     status new = ''enabled'' \<and> stored_token_is_undecryptable (r_endpoint_token row) (endpoint_token old)
     \<and> receiver_replacement_is_missing (replacement_endpoint_token p)"

definition update_stream ::
  "crypto_lib \<Rightarrow> settings \<Rightarrow> nat \<Rightarrow> stream_payload \<Rightarrow> db \<Rightarrow> db_error + (stream option \<times> db)" where
  "update_stream lib cfg nonce p d =
     (case ordered_streams d of
        [] \<Rightarrow> Inr (None, d)
      | row # _ \<Rightarrow>
          ebind (row_to_stream lib cfg row) (\<lambda>st.
            case patched_events p st of
              JArr evs \<Rightarrow>
                (let new = patched_stream p st evs in
                 if enables_without_token p row new st then Inl UndecryptableToken
                 else Inr (Some new,
                   d\<lparr>outbox := patched_outbox new st (outbox d),
                     streams := write_row (patched_row lib cfg nonce p row new) (streams d)\<rparr>))
            | _ \<Rightarrow> Inl EventsNotList))"

definition delete_stream_by_id :: "pystr \<Rightarrow> db \<Rightarrow> bool \<times> db" where
  "delete_stream_by_id sid d =
     (let deleted = (find_row sid d \<noteq> None) in
      (deleted,
       d\<lparr>streams := filter (\<lambda>r. r_stream_id r \<noteq> sid) (streams d),
         outbox := (if deleted then cancel_pending_of sid (outbox d) else outbox d)\<rparr>))"

text \<open>The stream is read first and deleted in a transaction of its own; \<open>others\<close> is what happens between.\<close>

definition delete_stream :: "crypto_lib \<Rightarrow> settings \<Rightarrow> (db \<Rightarrow> db) \<Rightarrow> db \<Rightarrow> db_error + (bool \<times> db)" where
  "delete_stream lib cfg others d =
     ebind (get_first_stream lib cfg d) (\<lambda>st.
       case st of None \<Rightarrow> Inr (False, d) | Some s \<Rightarrow> Inr (delete_stream_by_id (stream_id s) (others d)))"

section \<open>Outbox\<close>

fun check_streams_unchanged :: "crypto_lib \<Rightarrow> settings \<Rightarrow> (stream \<times> pydict) list \<Rightarrow> db \<Rightarrow> db_error + unit" where
  "check_streams_unchanged lib cfg [] d = Inr ()"
| "check_streams_unchanged lib cfg ((st, _) # ds) d =
     (case find_row (stream_id st) d of
        None \<Rightarrow> Inl StreamGone
      | Some row \<Rightarrow>
          ebind (row_to_stream lib cfg row) (\<lambda>current.
            if current \<noteq> st \<or> status current \<noteq> ''enabled'' then Inl StreamChanged
            else check_streams_unchanged lib cfg ds d))"

text \<open>The rows inserted by \<^verbatim>\<open>executemany\<close>: consecutive identifiers after the counter.\<close>

fun new_rows :: "crypto_lib \<Rightarrow> settings \<Rightarrow> int \<Rightarrow> nat \<Rightarrow> nat \<Rightarrow> (stream \<times> pydict) list \<Rightarrow> outbox_row list" where
  "new_rows lib cfg now nonce n [] = []"
| "new_rows lib cfg now nonce n ((st, payload) # ds) =
     \<lparr>o_id = Suc n, o_stream_id = stream_id st,
      o_payload = encrypt_sensitive_data lib cfg nonce (json_dumps (JObj payload)),
      o_created_at = now, o_attempts = 0, o_next_attempt_at = now, o_status = ''pending'',
      o_last_error = None\<rparr> # new_rows lib cfg now (Suc nonce) (Suc n) ds"

definition enqueue_outbox ::
  "crypto_lib \<Rightarrow> settings \<Rightarrow> int \<Rightarrow> nat \<Rightarrow> (stream \<times> pydict) list \<Rightarrow> db \<Rightarrow> db_error + (nat \<times> db)" where
  "enqueue_outbox lib cfg now nonce deliveries d =
     (if deliveries = [] then Inr (0, d)
      else ebind (check_streams_unchanged lib cfg deliveries d) (\<lambda>_.
        if length (outbox d) + length deliveries > MAX_OUTBOX_ITEMS then Inl OutboxFull
        else Inr (length deliveries,
          d\<lparr>outbox := outbox d @ new_rows lib cfg now nonce (outbox_seq d) deliveries,
            outbox_seq := outbox_seq d + length deliveries\<rparr>)))"

definition row_to_item :: "outbox_row \<Rightarrow> outbox_item" where
  "row_to_item r = \<lparr>item_id = o_id r, item_stream_id = o_stream_id r, item_payload = o_payload r,
     item_created_at = o_created_at r, item_attempts = o_attempts r\<rparr>"

definition due :: "int \<Rightarrow> outbox_row \<Rightarrow> bool" where
  "due now r \<longleftrightarrow> pending r \<and> o_next_attempt_at r \<le> now"

definition get_due_outbox :: "int \<Rightarrow> nat \<Rightarrow> db \<Rightarrow> outbox_item list" where
  "get_due_outbox now limit d =
     map row_to_item (take limit (sort_key (\<lambda>r. (o_created_at r, o_id r)) (filter (due now) (outbox d))))"

definition get_due_outbox_item :: "int \<Rightarrow> nat \<Rightarrow> db \<Rightarrow> outbox_item option" where
  "get_due_outbox_item now i d = map_option row_to_item (find (\<lambda>r. o_id r = i \<and> due now r) (outbox d))"

definition remove_pending_item :: "nat \<Rightarrow> db \<Rightarrow> db" where
  "remove_pending_item i d = d\<lparr>outbox := filter (\<lambda>r. \<not> (o_id r = i \<and> pending r)) (outbox d)\<rparr>"

definition complete_outbox_item :: "nat \<Rightarrow> db \<Rightarrow> db" where
  "complete_outbox_item i d = remove_pending_item i d"

definition cancel_outbox_item :: "nat \<Rightarrow> db \<Rightarrow> db" where
  "cancel_outbox_item i d = remove_pending_item i d"

definition update_pending_item :: "nat \<Rightarrow> (outbox_row \<Rightarrow> outbox_row) \<Rightarrow> db \<Rightarrow> db" where
  "update_pending_item i f d = d\<lparr>outbox := map (\<lambda>r. if o_id r = i \<and> pending r then f r else r) (outbox d)\<rparr>"

definition retry_outbox_item :: "nat \<Rightarrow> nat \<Rightarrow> int \<Rightarrow> pystr \<Rightarrow> db \<Rightarrow> db" where
  "retry_outbox_item i attempts next_at reason d =
     update_pending_item i (\<lambda>r. r\<lparr>o_attempts := attempts, o_next_attempt_at := next_at,
                                  o_last_error := Some reason\<rparr>) d"

definition block_outbox_item :: "nat \<Rightarrow> pystr \<Rightarrow> db \<Rightarrow> db" where
  "block_outbox_item i reason d =
     update_pending_item i (\<lambda>r. r\<lparr>o_status := ''blocked'', o_last_error := Some reason\<rparr>) d"

definition blocked :: "outbox_row \<Rightarrow> bool" where
  "blocked r \<longleftrightarrow> o_status r = ''blocked''"

definition requeue_blocked_outbox :: "int \<Rightarrow> db \<Rightarrow> nat \<times> db" where
  "requeue_blocked_outbox now d =
     (length (filter blocked (outbox d)),
      d\<lparr>outbox := map (\<lambda>r. if blocked r then r\<lparr>o_status := ''pending'', o_attempts := 0,
                                              o_next_attempt_at := now, o_last_error := None\<rparr> else r) (outbox d)\<rparr>)"

definition delete_blocked_outbox :: "db \<Rightarrow> nat \<times> db" where
  "delete_blocked_outbox d =
     (length (filter blocked (outbox d)), d\<lparr>outbox := filter (\<lambda>r. \<not> blocked r) (outbox d)\<rparr>)"

definition delete_pending_outbox :: "db \<Rightarrow> nat \<times> db" where
  "delete_pending_outbox d =
     (length (filter pending (outbox d)), d\<lparr>outbox := filter (\<lambda>r. \<not> pending r) (outbox d)\<rparr>)"

record outbox_status =
  s_pending :: nat
  s_blocked :: nat
  s_oldest_pending_at :: "int option"
  s_stored :: nat
  s_capacity :: nat

definition get_outbox_status :: "db \<Rightarrow> outbox_status" where
  "get_outbox_status d =
     (let ps = filter pending (outbox d) in
      \<lparr>s_pending = length ps, s_blocked = length (filter blocked (outbox d)),
       s_oldest_pending_at = (if ps = [] then None else Some (Min (set (map o_created_at ps)))),
       s_stored = length (outbox d), s_capacity = MAX_OUTBOX_ITEMS\<rparr>)"

definition decrypt_outbox_payload :: "crypto_lib \<Rightarrow> settings \<Rightarrow> outbox_item \<Rightarrow> crypto_error + pydict" where
  "decrypt_outbox_payload lib cfg item =
     (case decrypt_sensitive_data lib cfg (item_payload item) of
        Inl e \<Rightarrow> Inl EncryptedDataError
      | Inr text \<Rightarrow> (case json_loads text of
          Some (JObj p) \<Rightarrow> Inr p
        | _ \<Rightarrow> Inl EncryptedDataError))"

text \<open>\<^verbatim>\<open>init_db\<close>: the tables are created when the file has none and kept otherwise.\<close>

definition empty_db :: db where
  "empty_db = \<lparr>streams = [], outbox = [], outbox_seq = 0\<rparr>"

definition init_db :: "db option \<Rightarrow> db" where
  "init_db file = (case file of Some d \<Rightarrow> d | None \<Rightarrow> empty_db)"

unbundle bit_operations_syntax

text \<open>
  The permissions of the database file, \<open>None\<close> when there is none: it is created for the owner alone
  (less what the process masks), \<open>None\<close> being \<^verbatim>\<open>FileExistsError\<close>, and an existing one is restricted
  unless the system refuses that (384 and 63 are octal 600 and 077).
\<close>

definition create_file_exclusive :: "12 word \<Rightarrow> 12 word \<Rightarrow> 12 word option \<Rightarrow> 12 word option" where
  "create_file_exclusive umask mode file = (case file of None \<Rightarrow> Some (mode AND NOT umask) | Some _ \<Rightarrow> None)"

definition init_db_file :: "12 word \<Rightarrow> bool \<Rightarrow> 12 word option \<Rightarrow> 12 word option" where
  "init_db_file umask chmod_ok file =
     (case create_file_exclusive umask 384 file of
        Some mode \<Rightarrow> Some mode
      | None \<Rightarrow> if chmod_ok then Some 384 else file)"

lemma init_db_file_private:
  "init_db_file umask chmod_ok file = Some mode \<Longrightarrow> chmod_ok \<or> file = None \<Longrightarrow> mode AND 63 = 0"
proof -
  have "(384 :: 12 word) AND 63 = 0" by simp
  then have "((384 :: 12 word) AND NOT umask) AND 63 = 0" by (metis and.assoc and.left_commute and_zero_eq)
  then show "init_db_file umask chmod_ok file = Some mode \<Longrightarrow> chmod_ok \<or> file = None \<Longrightarrow> mode AND 63 = 0"
    by (auto simp: init_db_file_def create_file_exclusive_def split: option.splits if_splits)
qed

section \<open>Invariant\<close>

text \<open>
  At most one stream; queue rows in increasing identifier order, identifiers below the counter so
  that none is ever used twice; every row pending or blocked; the queue within its capacity.
\<close>

definition known_status :: "outbox_row \<Rightarrow> bool" where
  "known_status r \<longleftrightarrow> pending r \<or> blocked r"

definition db_ok :: "db \<Rightarrow> bool" where
  "db_ok d \<longleftrightarrow>
     length (streams d) \<le> 1 \<and> sorted_wrt (<) (map o_id (outbox d))
     \<and> (\<forall>r \<in> set (outbox d). o_id r \<le> outbox_seq d \<and> known_status r)
     \<and> length (outbox d) \<le> MAX_OUTBOX_ITEMS"

lemma sorted_wrt_map_filter: "sorted_wrt (<) (map f xs) \<Longrightarrow> sorted_wrt (<) (map f (filter p xs))"
  by (induction xs) auto

text \<open>Every change of the queue but enqueueing filters it, or maps rows to rows of the same identifier.\<close>

lemma db_ok_filter:
  "db_ok d \<Longrightarrow> length ss \<le> 1 \<Longrightarrow> db_ok (d\<lparr>streams := ss, outbox := filter p (outbox d)\<rparr>)"
  unfolding db_ok_def
  by (auto simp: sorted_wrt_map_filter intro: le_trans [OF length_filter_le])

lemma db_ok_map:
  assumes "db_ok d" "length ss \<le> 1" "\<And>r. o_id (f r) = o_id r" "\<And>r. known_status r \<Longrightarrow> known_status (f r)"
  shows "db_ok (d\<lparr>streams := ss, outbox := map f (outbox d)\<rparr>)"
  using assms by (auto simp: db_ok_def comp_def)

lemma db_update_swap: "d\<lparr>outbox := rs, streams := ss\<rparr> = d\<lparr>streams := ss, outbox := rs\<rparr>"
  by simp

lemma db_ok_streams: "db_ok d \<Longrightarrow> length (streams d) \<le> 1"
  by (simp add: db_ok_def)

lemma db_ok_empty [keeps]: "db_ok empty_db"
  by (simp add: db_ok_def empty_db_def)

lemma db_ok_outbox_filter: "db_ok d \<Longrightarrow> db_ok (d\<lparr>outbox := filter p (outbox d)\<rparr>)"
  using db_ok_filter [OF _ db_ok_streams, of d d p] by simp

lemma db_ok_outbox_map:
  "db_ok d \<Longrightarrow> (\<And>r. o_id (f r) = o_id r) \<Longrightarrow> (\<And>r. known_status r \<Longrightarrow> known_status (f r)) \<Longrightarrow>
     db_ok (d\<lparr>outbox := map f (outbox d)\<rparr>)"
  using db_ok_map [OF _ db_ok_streams, of d d f] by simp

lemma save_stream_ok [keeps]: "db_ok d \<Longrightarrow> db_ok (save_stream lib cfg n st d)"
  unfolding save_stream_def db_update_swap by (rule db_ok_filter) simp_all

lemma delete_stream_by_id_ok [keeps]: "db_ok d \<Longrightarrow> db_ok (snd (delete_stream_by_id sid d))"
proof -
  assume d: "db_ok d"
  have "length (filter (\<lambda>r. r_stream_id r \<noteq> sid) (streams d)) \<le> 1"
    using db_ok_streams [OF d] length_filter_le le_trans by blast
  from db_ok_filter [OF d this, of "\<lambda>_. True"] db_ok_filter [OF d this] show ?thesis
    by (simp add: delete_stream_by_id_def Let_def cancel_pending_of_def)
qed

lemma known_status_simps [simp]:
  "known_status (r\<lparr>o_next_attempt_at := x\<rparr>) = known_status r"
  "known_status (r\<lparr>o_attempts := a\<rparr>) = known_status r"
  "known_status (r\<lparr>o_last_error := e\<rparr>) = known_status r"
  "known_status (r\<lparr>o_status := ''blocked''\<rparr>)" "known_status (r\<lparr>o_status := ''pending''\<rparr>)"
  by (simp_all add: known_status_def pending_def blocked_def)

lemma update_pending_item_ok:
  "db_ok d \<Longrightarrow> (\<And>r. o_id (f r) = o_id r) \<Longrightarrow> (\<And>r. known_status r \<Longrightarrow> known_status (f r)) \<Longrightarrow>
     db_ok (update_pending_item i f d)"
  unfolding update_pending_item_def by (rule db_ok_outbox_map) simp_all

lemma item_ops_ok [keeps]:
  assumes "db_ok d"
  shows "db_ok (complete_outbox_item i d)" "db_ok (cancel_outbox_item i d)"
    "db_ok (retry_outbox_item i a t reason d)" "db_ok (block_outbox_item i reason d)"
    "db_ok (snd (requeue_blocked_outbox now d))" "db_ok (snd (delete_blocked_outbox d))"
    "db_ok (snd (delete_pending_outbox d))"
proof -
  show "db_ok (complete_outbox_item i d)" "db_ok (cancel_outbox_item i d)"
    "db_ok (snd (delete_blocked_outbox d))" "db_ok (snd (delete_pending_outbox d))"
    using assms by (simp_all add: complete_outbox_item_def cancel_outbox_item_def remove_pending_item_def
        delete_blocked_outbox_def delete_pending_outbox_def db_ok_outbox_filter)
  show "db_ok (retry_outbox_item i a t reason d)" "db_ok (block_outbox_item i reason d)"
    unfolding retry_outbox_item_def block_outbox_item_def
    by (rule update_pending_item_ok [OF assms]; simp)+
  show "db_ok (snd (requeue_blocked_outbox now d))"
    unfolding requeue_blocked_outbox_def snd_conv by (rule db_ok_outbox_map [OF assms]) simp_all
qed

lemma new_rows_ids: "map o_id (new_rows lib cfg now nonce n ds) = map Suc [n..<n + length ds]"
proof (induction ds arbitrary: nonce n)
  case (Cons x ds)
  have "[n..<n + length (x # ds)] = n # [Suc n..<Suc n + length ds]" by (simp add: upt_rec)
  with Cons show ?case by (cases x) simp
qed simp

lemma length_new_rows [simp]: "length (new_rows lib cfg now nonce n ds) = length ds"
  using arg_cong [OF new_rows_ids, of length] by simp

lemma new_rows_pending: "r \<in> set (new_rows lib cfg now nonce n ds) \<Longrightarrow> pending r \<and> n < o_id r \<and> o_id r \<le> n + length ds"
  by (induction ds arbitrary: nonce n) (fastforce simp: pending_def)+

lemma enqueue_outbox_cases:
  assumes "enqueue_outbox lib cfg now nonce ds d = Inr (k, d')"
  obtains "ds = []" "k = 0" "d' = d"
  | "ds \<noteq> []" "check_streams_unchanged lib cfg ds d = Inr ()"
    "length (outbox d) + length ds \<le> MAX_OUTBOX_ITEMS" "k = length ds"
    "d' = d\<lparr>outbox := outbox d @ new_rows lib cfg now nonce (outbox_seq d) ds,
            outbox_seq := outbox_seq d + length ds\<rparr>"
  using assms by (auto simp: enqueue_outbox_def ebind_Inr_iff split: if_splits)

lemma sorted_wrt_Suc_upt: "sorted_wrt (<) (map Suc [n..<m])"
  by (simp add: sorted_wrt_map)

lemma enqueue_outbox_ok [keeps]:
  assumes "db_ok d" "enqueue_outbox lib cfg now nonce ds d = Inr (k, d')"
  shows "db_ok d'"
  using assms(2)
proof (cases rule: enqueue_outbox_cases)
  case 2
  let ?new = "new_rows lib cfg now nonce (outbox_seq d) ds"
  have "sorted_wrt (<) (map o_id (outbox d @ ?new))"
    using assms(1) sorted_wrt_Suc_upt
    by (auto simp: db_ok_def new_rows_ids sorted_wrt_append le_imp_less_Suc)
  moreover have "\<forall>r \<in> set (outbox d @ ?new). o_id r \<le> outbox_seq d + length ds \<and> known_status r"
    using assms(1) new_rows_pending [of _ lib cfg now nonce "outbox_seq d" ds]
    by (auto simp: db_ok_def known_status_def intro: trans_le_add1)
  ultimately show ?thesis using 2 assms(1) by (simp add: db_ok_def)
qed (use assms in simp)

lemma update_stream_cases:
  assumes "update_stream lib cfg nonce p d = Inr (res, d')"
  obtains "streams d = []" "res = None" "d' = d"
  | row st evs where "row \<in> set (streams d)" "row_to_stream lib cfg row = Inr st"
    "patched_events p st = JArr evs" "res = Some (patched_stream p st evs)"
    "\<not> enables_without_token p row (patched_stream p st evs) st"
    "d' = d\<lparr>outbox := patched_outbox (patched_stream p st evs) st (outbox d),
            streams := write_row (patched_row lib cfg nonce p row (patched_stream p st evs)) (streams d)\<rparr>"
proof (cases "ordered_streams d")
  case Nil
  then have "streams d = []" by (metis length_0_conv length_sort ordered_streams_def)
  then show ?thesis using that(1) assms Nil by (simp add: update_stream_def)
next
  case (Cons row rs)
  then have row: "row \<in> set (streams d)" by (metis list.set_intros(1) ordered_streams_def set_sort)
  from assms Cons obtain st where st: "row_to_stream lib cfg row = Inr st"
    by (auto simp: update_stream_def ebind_Inr_iff)
  with assms Cons obtain evs where evs: "patched_events p st = JArr evs"
    by (cases "patched_events p st") (auto simp: update_stream_def)
  show ?thesis
    using that(2) [OF row st evs] assms Cons st evs
    by (simp add: update_stream_def Let_def split: if_splits)
qed

lemma length_write_row [simp]: "length (write_row row rs) = length rs"
  by (simp add: write_row_def)

lemma patched_outbox_ok:
  assumes "db_ok d" "length ss \<le> 1"
  shows "db_ok (d\<lparr>streams := ss, outbox := patched_outbox new old (outbox d)\<rparr>)"
proof -
  have "db_ok (d\<lparr>streams := ss, outbox := outbox d\<rparr>)"
    using db_ok_filter [OF assms, of "\<lambda>_. True"] by simp
  moreover have "db_ok (d\<lparr>streams := ss, outbox := wake_pending_of sid (outbox d)\<rparr>)" for sid
    unfolding wake_pending_of_def by (rule db_ok_map [OF assms]) simp_all
  ultimately show ?thesis
    using db_ok_filter [OF assms] by (simp add: patched_outbox_def cancel_pending_of_def)
qed

lemma update_stream_ok [keeps]:
  assumes "db_ok d" "update_stream lib cfg nonce p d = Inr (res, d')"
  shows "db_ok d'"
  using assms(2)
proof (cases rule: update_stream_cases)
  case (2 row st evs)
  then show ?thesis
    unfolding db_update_swap using patched_outbox_ok [OF assms(1)] db_ok_streams [OF assms(1)] by simp
qed (use assms in simp)

section \<open>Runs of operations\<close>

text \<open>Every operation that changes the tables, as one step.\<close>

inductive db_step :: "crypto_lib \<Rightarrow> settings \<Rightarrow> db \<Rightarrow> db \<Rightarrow> bool" for lib cfg where
  save: "db_step lib cfg d (save_stream lib cfg nonce st d)"
| update: "update_stream lib cfg nonce p d = Inr (res, d') \<Longrightarrow> db_step lib cfg d d'"
| delete: "db_step lib cfg d (snd (delete_stream_by_id sid d))"
| enqueue: "enqueue_outbox lib cfg now nonce ds d = Inr (k, d') \<Longrightarrow> db_step lib cfg d d'"
| complete: "db_step lib cfg d (complete_outbox_item i d)"
| retry: "db_step lib cfg d (retry_outbox_item i a t reason d)"
| block: "db_step lib cfg d (block_outbox_item i reason d)"
| cancel: "db_step lib cfg d (cancel_outbox_item i d)"
| requeue: "db_step lib cfg d (snd (requeue_blocked_outbox now d))"
| drop_blocked: "db_step lib cfg d (snd (delete_blocked_outbox d))"
| drop_pending: "db_step lib cfg d (snd (delete_pending_outbox d))"

lemma db_step_ok [keeps]: "db_step lib cfg d d' \<Longrightarrow> db_ok d \<Longrightarrow> db_ok d'"
  by (induction rule: db_step.induct) (auto intro: keeps)

interpretation tables: machine "\<lambda>d. d = empty_db" "db_step lib cfg" db_ok for lib cfg
  by unfold_locales (auto intro: keeps)

text \<open>Identifiers are never reused: the counter only grows, and a row of an old identifier is old.\<close>

lemma db_step_ids:
  assumes "db_ok d" "db_step lib cfg d d'"
  shows "outbox_seq d \<le> outbox_seq d' \<and>
    (\<forall>r \<in> set (outbox d'). o_id r \<le> outbox_seq d \<longrightarrow> o_id r \<in> o_id ` set (outbox d))"
  using assms(2)
proof (cases rule: db_step.cases)
  case (update nonce p res)
  from update show ?thesis
    by (cases rule: update_stream_cases)
       (auto simp: patched_outbox_def cancel_pending_of_def wake_pending_of_def)
next
  case (enqueue now nonce ds k)
  from enqueue show ?thesis
    by (cases rule: enqueue_outbox_cases) (auto dest: new_rows_pending)
qed (auto simp: save_stream_def delete_stream_by_id_def Let_def cancel_pending_of_def complete_outbox_item_def
    cancel_outbox_item_def remove_pending_item_def retry_outbox_item_def block_outbox_item_def
    update_pending_item_def requeue_blocked_outbox_def delete_blocked_outbox_def delete_pending_outbox_def)

section \<open>Storage and queueing\<close>

text \<open>The streams whose stored form determines them.\<close>

definition storable :: "stream \<Rightarrow> bool" where
  "storable st \<longleftrightarrow> plain (JArr (events_requested st))"

lemma row_to_stream_stored:
  "fernet_laws lib \<Longrightarrow> storable st \<Longrightarrow> row_to_stream lib cfg (stream_to_row lib cfg nonce st) = Inr st"
  by (simp add: row_to_stream_def stream_to_row_def decrypt_encrypt_token storable_def
      json_loads_dumps_spaced del: plain.simps)

lemma get_first_saved:
  "fernet_laws lib \<Longrightarrow> storable st \<Longrightarrow>
     get_first_stream lib cfg (save_stream lib cfg nonce st d) = Inr (Some st)"
  by (simp add: get_first_stream_def list_streams_def ordered_streams_def save_stream_def row_to_stream_stored)

lemma check_streams_unchanged_ok:
  "check_streams_unchanged lib cfg ds d = Inr () \<longleftrightarrow>
     (\<forall>(st, p) \<in> set ds. status st = ''enabled'' \<and>
        (\<exists>row. find_row (stream_id st) d = Some row \<and> row_to_stream lib cfg row = Inr st))"
proof (induction ds)
  case (Cons x ds)
  obtain st p where x: "x = (st, p)" by (cases x)
  show ?case
  proof (cases "find_row (stream_id st) d")
    case (Some row)
    with Cons x show ?thesis by (cases "row_to_stream lib cfg row") auto
  qed (use x in simp)
qed simp

definition readable_as :: "crypto_lib \<Rightarrow> settings \<Rightarrow> stream \<times> pydict \<Rightarrow> outbox_row \<Rightarrow> bool" where
  "readable_as lib cfg x r \<longleftrightarrow> o_stream_id r = stream_id (fst x) \<and> pending r
     \<and> decrypt_outbox_payload lib cfg (row_to_item r) = Inr (snd x)"

lemma decrypt_outbox_payload_stored:
  "fernet_laws lib \<Longrightarrow> plain (JObj payload) \<Longrightarrow>
     item_payload item = encrypt_sensitive_data lib cfg nonce (json_dumps (JObj payload)) \<Longrightarrow>
     decrypt_outbox_payload lib cfg item = Inr payload"
  by (simp add: decrypt_outbox_payload_def decrypt_encrypt_sensitive compact_json.dec_enc del: plain.simps)

lemma new_rows_readable:
  "fernet_laws lib \<Longrightarrow> \<forall>(st, p) \<in> set ds. plain (JObj p) \<Longrightarrow>
     list_all2 (readable_as lib cfg) ds (new_rows lib cfg now nonce n ds)"
proof (induction ds arbitrary: nonce n)
  case (Cons x ds)
  then show ?case
    by (cases x)
       (auto simp: readable_as_def row_to_item_def pending_def
         intro!: decrypt_outbox_payload_stored simp del: plain.simps)
qed simp

lemma enqueue_outbox_durable_lemma:
  assumes "fernet_laws lib" "\<forall>(st, p) \<in> set ds. plain (JObj p)"
    and "enqueue_outbox lib cfg now nonce ds d = Inr (k, d')"
  shows "k = length ds \<and> streams d' = streams d
    \<and> (\<forall>(st, p) \<in> set ds. status st = ''enabled'' \<and> get_stream_by_id lib cfg (stream_id st) d = Inr (Some st))
    \<and> (\<exists>rows. outbox d' = outbox d @ rows \<and> list_all2 (readable_as lib cfg) ds rows)
    \<and> (ds \<noteq> [] \<longrightarrow> length (outbox d') \<le> MAX_OUTBOX_ITEMS)"
  using assms(3)
proof (cases rule: enqueue_outbox_cases)
  case 2
  have "\<forall>(st, p) \<in> set ds. status st = ''enabled'' \<and> get_stream_by_id lib cfg (stream_id st) d = Inr (Some st)"
    using 2(2) by (fastforce simp: check_streams_unchanged_ok get_stream_by_id_def)
  then show ?thesis using 2 new_rows_readable [OF assms(1,2)] by simp
qed simp

section \<open>Due deliveries\<close>

definition item_key :: "outbox_item \<Rightarrow> int \<times> nat" where
  "item_key x = (item_created_at x, item_id x)"

lemma db_ok_distinct: "db_ok d \<Longrightarrow> distinct (map o_id (outbox d))"
  by (simp add: db_ok_def strict_sorted_iff)

lemma sort_key_strict:
  assumes "distinct (map g xs)" "\<And>x y. f x = f y \<Longrightarrow> g x = g y"
  shows "sorted_wrt (\<lambda>x y. f x < f y) (sort_key f xs)"
proof -
  have "distinct (map f xs)"
    unfolding distinct_map using assms(1) by (auto simp: distinct_map intro!: inj_onI dest: assms(2) inj_onD)
  then have "distinct (map f (sort_key f xs))"
    by (metis distinct_map distinct_sort inj_on_def set_sort)
  then have "sorted_wrt (<) (map f (sort_key f xs))"
    by (simp add: strict_sorted_iff)
  then show ?thesis by (simp add: sorted_wrt_map)
qed

lemma due_in_order:
  assumes "db_ok d"
  shows "sorted_wrt (\<lambda>x y. item_key x < item_key y) (get_due_outbox now limit d)"
proof -
  have "distinct (map o_id (filter (due now) (outbox d)))"
    using db_ok_distinct [OF assms] by (rule distinct_map_filter)
  then have "sorted_wrt (\<lambda>x y. (o_created_at x, o_id x) < (o_created_at y, o_id y))
      (sort_key (\<lambda>r. (o_created_at r, o_id r)) (filter (due now) (outbox d)))"
    by (rule sort_key_strict) simp
  then show ?thesis
    by (simp add: get_due_outbox_def sorted_wrt_map sorted_wrt_take item_key_def row_to_item_def)
qed

lemma due_left_out:
  assumes "r \<in> set (outbox d)" "due now r" "row_to_item r \<notin> set (get_due_outbox now limit d)"
  shows "length (get_due_outbox now limit d) = limit
    \<and> (\<forall>x \<in> set (get_due_outbox now limit d). item_key x \<le> item_key (row_to_item r))"
proof -
  let ?s = "sort_key (\<lambda>r. (o_created_at r, o_id r)) (filter (due now) (outbox d))"
  have "r \<in> set (take limit ?s @ drop limit ?s)" using assms by simp
  moreover have "r \<notin> set (take limit ?s)" using assms(3) by (auto simp: get_due_outbox_def)
  ultimately have r: "r \<in> set (drop limit ?s)" by (auto simp only: set_append)
  have "sorted (map (\<lambda>r. (o_created_at r, o_id r)) (take limit ?s @ drop limit ?s))"
    by (simp only: append_take_drop_id sorted_sort_key)
  then have "\<forall>x \<in> set (take limit ?s). (o_created_at x, o_id x) \<le> (o_created_at r, o_id r)"
    using r by (simp only: map_append sorted_append) auto
  moreover have "limit < length ?s" using r by (metis drop_all empty_iff leI list.set(1))
  ultimately show ?thesis by (auto simp: get_due_outbox_def item_key_def row_to_item_def)
qed

section \<open>Patching the stream\<close>

lemma update_stream_single:
  assumes "db_ok d" "update_stream lib cfg nonce p d = Inr (Some new, d')"
  obtains row st where "streams d = [row]" "row_to_stream lib cfg row = Inr st"
    "patched_events p st = JArr (events_requested new)" "new = patched_stream p st (events_requested new)"
    "\<not> enables_without_token p row new st"
    "d' = d\<lparr>outbox := patched_outbox new st (outbox d), streams := [patched_row lib cfg nonce p row new]\<rparr>"
  using assms(2)
proof (cases rule: update_stream_cases)
  case (2 row st evs)
  have "streams d = [row]"
    using db_ok_streams [OF assms(1)] 2(1) by (cases "streams d") auto
  moreover have "events_requested (patched_stream p st evs) = evs" by (simp add: patched_stream_def)
  moreover have "r_stream_id (patched_row lib cfg nonce p row new) = r_stream_id row"
    by (simp add: patched_row_def)
  ultimately show ?thesis using 2 by (intro that [of row st]) (simp_all add: write_row_def)
qed simp

lemma row_to_stream_Inr:
  "row_to_stream lib cfg row = Inr st \<Longrightarrow>
     (case decrypt_token lib cfg (r_endpoint_token row) of
        Inr t \<Rightarrow> endpoint_token st = t | Inl e \<Rightarrow> e = TokenDecryptionError \<and> endpoint_token st = [])
     \<and> stream_id st = r_stream_id row \<and> created_at st = r_created_at row"
  by (auto simp: row_to_stream_def ebind_Inr_iff split: sum.splits crypto_error.splits option.splits json.splits)

lemma patched_row_reads_back:
  assumes "fernet_laws lib" "row_to_stream lib cfg row = Inr st" "new = patched_stream p st evs" "storable new"
  shows "row_to_stream lib cfg (patched_row lib cfg nonce p row new) = Inr new"
proof -
  have "(case decrypt_token lib cfg (r_endpoint_token (patched_row lib cfg nonce p row new)) of
      Inr t \<Rightarrow> Inr t | Inl TokenDecryptionError \<Rightarrow> Inr [] | Inl e \<Rightarrow> Inl (RowToken e)) = Inr (endpoint_token new)"
    using row_to_stream_Inr [OF assms(2)] assms(1,3)
    by (auto simp: patched_row_def patched_stream_def decrypt_encrypt_token split: option.splits sum.splits)
  then show ?thesis
    using assms(3,4) row_to_stream_Inr [OF assms(2)]
    by (simp add: row_to_stream_def patched_row_def storable_def json_loads_dumps_spaced del: plain.simps)
       (simp add: patched_stream_def)
qed

lemma patched_outbox_kept:
  "\<not> delivery_configuration_changed new old \<Longrightarrow>
     map row_to_item (patched_outbox new old rs) = map row_to_item rs
     \<and> map o_status (patched_outbox new old rs) = map o_status rs"
  by (auto simp: patched_outbox_def wake_pending_of_def row_to_item_def)

lemma patched_outbox_resumed:
  "\<not> delivery_configuration_changed new old \<Longrightarrow> status new = ''enabled'' \<Longrightarrow> status old \<noteq> ''enabled'' \<Longrightarrow>
     r \<in> set (patched_outbox new old rs) \<Longrightarrow> o_stream_id r = stream_id old \<Longrightarrow> pending r \<Longrightarrow> o_next_attempt_at r = 0"
  by (auto simp: patched_outbox_def wake_pending_of_def)

lemma patched_outbox_cancelled:
  "delivery_configuration_changed new old \<Longrightarrow>
     patched_outbox new old rs = filter (\<lambda>r. \<not> (o_stream_id r = stream_id old \<and> pending r)) rs"
  by (simp add: patched_outbox_def cancel_pending_of_def)

lemma encrypt_token_Nil: "encrypt_token lib cfg n t = [] \<longleftrightarrow> t = []"
  by (simp add: encrypt_token_def FERNET_PREFIX_def)

lemma enabled_patch_has_token:
  assumes "\<not> enables_without_token p row new st" "status new = ''enabled''" "new = patched_stream p st evs"
  shows "\<not> stored_token_is_undecryptable (r_endpoint_token (patched_row lib cfg nonce p row new)) (endpoint_token new)"
proof (cases "replacement_endpoint_token p")
  case None
  then show ?thesis using assms
    by (simp add: enables_without_token_def stored_token_is_undecryptable_def patched_row_def
        patched_stream_def receiver_replacement_is_missing_def)
next
  case (Some t)
  then show ?thesis using assms
    by (simp add: stored_token_is_undecryptable_def patched_row_def patched_stream_def encrypt_token_Nil)
qed

section \<open>Properties\<close>

definition example_stream :: stream where
  "example_stream = \<lparr>stream_id = ''s1'', aud = ''https://receiver.example.com'',
     endpoint_url = ''https://a.example.com/events'', endpoint_token = ''tok'',
     events_requested = [JStr ''https://schemas.openid.net/secevent/caep/event-type/session-revoked''],
     status = ''enabled'', created_at = 100\<rparr>"

definition example_payload :: pydict where
  "example_payload = [(''aud'', JStr ''https://receiver.example.com''), (''token'', JStr ''jwt'')]"

definition saved_db :: db where
  "saved_db = save_stream toy_lib example_settings 0 example_stream empty_db"

definition queued_db :: db where
  "queued_db = saved_db\<lparr>outbox := new_rows toy_lib example_settings 200 1 0
     [(example_stream, example_payload), (example_stream, example_payload)], outbox_seq := 2\<rparr>"

lemma storable_example: "storable example_stream"
  by (simp add: storable_def example_stream_def)

lemma find_saved: "find_row ''s1'' saved_db = Some (stream_to_row toy_lib example_settings 0 example_stream)"
  by (simp add: find_row_def saved_db_def save_stream_def stream_to_row_def example_stream_def)

lemma example_enqueue:
  "enqueue_outbox toy_lib example_settings 200 1 [(example_stream, example_payload), (example_stream, example_payload)]
     saved_db = Inr (2, queued_db)"
proof -
  have "check_streams_unchanged toy_lib example_settings
      [(example_stream, example_payload), (example_stream, example_payload)] saved_db = Inr ()"
    using find_saved row_to_stream_stored [OF toy_lib_laws storable_example]
    by (auto simp: check_streams_unchanged_ok example_stream_def)
  moreover have "outbox saved_db = []" "outbox_seq saved_db = 0"
    by (simp_all add: saved_db_def save_stream_def empty_db_def)
  ultimately show ?thesis
    by (simp add: enqueue_outbox_def MAX_OUTBOX_ITEMS_def queued_db_def)
qed

lemma queued_db_reachable: "(db_step toy_lib example_settings)\<^sup>*\<^sup>* empty_db queued_db"
  unfolding saved_db_def [symmetric]
  by (rule rtranclp.rtrancl_into_rtrancl [OF r_into_rtranclp])
     (auto simp: saved_db_def intro: db_step.save db_step.enqueue [OF example_enqueue, unfolded saved_db_def])

lemma queued_db_ok: "db_ok queued_db"
  using tables.reachable_inv [OF refl queued_db_reachable] .

text \<open>
  C2. Whatever operations run on the tables, in whatever order, there is at most one stream, queue
  identifiers are strictly increasing and never above the counter, every queued row is pending
  or blocked, and the queue never exceeds its capacity of 10000 rows.
\<close>

theorem reachable_db_ok:
  assumes "(db_step lib cfg)\<^sup>*\<^sup>* empty_db d"
  shows "length (streams d) \<le> 1 \<and> sorted_wrt (<) (map o_id (outbox d))
    \<and> (\<forall>r \<in> set (outbox d). o_id r \<le> outbox_seq d \<and> (pending r \<or> blocked r))
    \<and> length (outbox d) \<le> 10000"
  using tables.reachable_inv [OF refl assms]
  by (simp add: db_ok_def known_status_def MAX_OUTBOX_ITEMS_def)

theorem reachable_db_ok_witness: "outbox queued_db \<noteq> [] \<and> length (outbox queued_db) \<le> 10000"
  using reachable_db_ok [OF queued_db_reachable] by (simp add: queued_db_def)

text \<open>
  Queueing is all or nothing and durable: when it succeeds every delivery's stream is stored
  unchanged and enabled, exactly one row per delivery is appended in order, each row decrypts to
  its payload, the stored rows are untouched and the capacity is respected.
\<close>

theorem enqueue_outbox_durable:
  assumes "fernet_laws lib" "\<forall>(st, p) \<in> set ds. plain (JObj p)"
    and "enqueue_outbox lib cfg now nonce ds d = Inr (k, d')"
  shows "k = length ds \<and> streams d' = streams d
    \<and> (\<forall>(st, p) \<in> set ds. status st = ''enabled'' \<and> get_stream_by_id lib cfg (stream_id st) d = Inr (Some st))
    \<and> (\<exists>rows. outbox d' = outbox d @ rows \<and> list_all2 (readable_as lib cfg) ds rows)
    \<and> (ds \<noteq> [] \<longrightarrow> length (outbox d') \<le> MAX_OUTBOX_ITEMS)"
  using assms by (rule enqueue_outbox_durable_lemma)

theorem enqueue_outbox_durable_witness:
  "enqueue_outbox toy_lib example_settings 200 1 [(example_stream, example_payload), (example_stream, example_payload)]
     saved_db = Inr (2, queued_db)
   \<and> (\<exists>rows. outbox queued_db = outbox saved_db @ rows \<and> list_all2 (readable_as toy_lib example_settings)
         [(example_stream, example_payload), (example_stream, example_payload)] rows)"
  using enqueue_outbox_durable [OF toy_lib_laws _ example_enqueue] example_enqueue
  by (simp add: example_payload_def)

text \<open>
  C24. The queue is served first in, first out: the due deliveries come in strictly increasing order
  of creation time and identifier, and a due delivery is left out only when the batch is full of
  earlier ones.
\<close>

theorem due_outbox_fifo:
  assumes "db_ok d"
  shows "sorted_wrt (\<lambda>x y. item_key x < item_key y) (get_due_outbox now limit d)
    \<and> (\<forall>r \<in> set (outbox d). due now r \<longrightarrow> row_to_item r \<in> set (get_due_outbox now limit d)
         \<or> (length (get_due_outbox now limit d) = limit
            \<and> (\<forall>x \<in> set (get_due_outbox now limit d). item_key x \<le> item_key (row_to_item r))))"
  using due_in_order [OF assms] due_left_out by blast

theorem due_outbox_fifo_witness:
  "sorted_wrt (\<lambda>x y. item_key x < item_key y) (get_due_outbox 300 25 queued_db)"
  using due_outbox_fifo [OF queued_db_ok] by blast

text \<open>
  C26. A registered stream is read back as it was registered, replacing whatever stream was there,
  and none of the earlier pending deliveries survives, while blocked ones do.
\<close>

theorem save_stream_roundtrip:
  assumes "fernet_laws lib" "storable st"
  shows "get_first_stream lib cfg (save_stream lib cfg nonce st d) = Inr (Some st)
    \<and> list_streams lib cfg (save_stream lib cfg nonce st d) = Inr [st]
    \<and> outbox (save_stream lib cfg nonce st d) = filter (\<lambda>r. \<not> pending r) (outbox d)"
  using get_first_saved [OF assms] row_to_stream_stored [OF assms]
  by (simp add: save_stream_def list_streams_def ordered_streams_def)

theorem save_stream_roundtrip_witness:
  "get_first_stream toy_lib example_settings (save_stream toy_lib example_settings 3 example_stream queued_db)
     = Inr (Some example_stream)"
  using save_stream_roundtrip [OF toy_lib_laws storable_example] by blast

text \<open>
  C19. A patch is read back as it was answered, and it treats queued deliveries by what it changes:
  a new audience, endpoint, receiver token or event selection discards the stream's pending
  deliveries and nothing else; any other patch keeps every row, and resuming a paused stream
  makes its pending rows due at once.
\<close>

theorem update_stream_effect:
  assumes "db_ok d" "fernet_laws lib" "update_stream lib cfg nonce p d = Inr (Some new, d')" "storable new"
  shows "\<exists>old. get_first_stream lib cfg d = Inr (Some old) \<and> get_first_stream lib cfg d' = Inr (Some new)
    \<and> (if delivery_configuration_changed new old
       then outbox d' = filter (\<lambda>r. \<not> (o_stream_id r = stream_id old \<and> pending r)) (outbox d)
       else map row_to_item (outbox d') = map row_to_item (outbox d)
          \<and> map o_status (outbox d') = map o_status (outbox d)
          \<and> (status new = ''enabled'' \<and> status old \<noteq> ''enabled'' \<longrightarrow>
             (\<forall>r \<in> set (outbox d'). o_stream_id r = stream_id old \<and> pending r \<longrightarrow> o_next_attempt_at r = 0)))"
proof -
  from update_stream_single [OF assms(1,3)] obtain row st where u: "streams d = [row]"
    "row_to_stream lib cfg row = Inr st" "new = patched_stream p st (events_requested new)"
    "d' = d\<lparr>outbox := patched_outbox new st (outbox d), streams := [patched_row lib cfg nonce p row new]\<rparr>"
    by metis
  have "get_first_stream lib cfg d = Inr (Some st)" "get_first_stream lib cfg d' = Inr (Some new)"
    using u patched_row_reads_back [OF assms(2) u(2,3) assms(4)]
    by (simp_all add: get_first_stream_def list_streams_def ordered_streams_def)
  then show ?thesis
    using u(4) patched_outbox_cancelled patched_outbox_kept patched_outbox_resumed by fastforce
qed

definition pause_patch :: stream_payload where
  "pause_patch = \<lparr>p_stream_id = None, p_aud = None, p_delivery = None, p_endpoint_url = None,
     p_endpoint_token = None, p_events_requested = None, p_status = Some ''paused''\<rparr>"

definition paused_db :: db where
  "paused_db = queued_db\<lparr>streams := [patched_row toy_lib example_settings 0 pause_patch
     (stream_to_row toy_lib example_settings 0 example_stream) (example_stream\<lparr>status := ''paused''\<rparr>)]\<rparr>"

lemma example_pause:
  "update_stream toy_lib example_settings 0 pause_patch queued_db
     = Inr (Some (example_stream\<lparr>status := ''paused''\<rparr>), paused_db)"
proof -
  have s: "streams queued_db = [stream_to_row toy_lib example_settings 0 example_stream]"
    by (simp add: queued_db_def saved_db_def save_stream_def)
  have "patched_stream pause_patch example_stream (events_requested example_stream)
      = example_stream\<lparr>status := ''paused''\<rparr>"
    by (simp add: patched_stream_def pause_patch_def example_stream_def replacement_endpoint_token_def
        delivery_of_def no_delivery_def or_str_def nonempty_def opt_str_def)
  then show ?thesis
    using s row_to_stream_stored [OF toy_lib_laws storable_example]
    by (simp add: update_stream_def ordered_streams_def patched_events_def pause_patch_def
        enables_without_token_def patched_outbox_def delivery_configuration_changed_def write_row_def
        paused_db_def patched_row_def stream_to_row_def)
qed

theorem update_stream_effect_witness:
  "get_first_stream toy_lib example_settings paused_db = Inr (Some (example_stream\<lparr>status := ''paused''\<rparr>))"
proof -
  have "storable (example_stream\<lparr>status := ''paused''\<rparr>)" by (simp add: storable_def example_stream_def)
  from update_stream_effect [OF queued_db_ok toy_lib_laws example_pause this] show ?thesis by blast
qed

text \<open>
  C20. A stream is never left enabled with a receiver token that cannot be decrypted: after a
  successful patch that leaves the stream enabled, either no token is stored or the token is
  available at run time.
\<close>

theorem enabled_stream_has_usable_token:
  assumes "db_ok d" "fernet_laws lib" "update_stream lib cfg nonce p d = Inr (Some new, d')"
    and "storable new" "status new = ''enabled''"
  shows "\<exists>row. streams d' = [row] \<and> row_to_stream lib cfg row = Inr new
    \<and> (r_endpoint_token row = [] \<or> endpoint_token new \<noteq> [])"
proof -
  from update_stream_single [OF assms(1,3)] obtain row st where u: "streams d = [row]"
    "row_to_stream lib cfg row = Inr st" "new = patched_stream p st (events_requested new)"
    "\<not> enables_without_token p row new st"
    "d' = d\<lparr>outbox := patched_outbox new st (outbox d), streams := [patched_row lib cfg nonce p row new]\<rparr>"
    by metis
  then show ?thesis
    using patched_row_reads_back [OF assms(2) u(2,3) assms(4)] enabled_patch_has_token [OF u(4) assms(5) u(3)]
    by (simp add: stored_token_is_undecryptable_def)
qed

lemma example_resume:
  "\<exists>d'. update_stream toy_lib example_settings 0 (pause_patch\<lparr>p_status := Some ''enabled''\<rparr>) queued_db
     = Inr (Some example_stream, d')"
proof -
  have s: "streams queued_db = [stream_to_row toy_lib example_settings 0 example_stream]"
    by (simp add: queued_db_def saved_db_def save_stream_def)
  have "patched_stream (pause_patch\<lparr>p_status := Some ''enabled''\<rparr>) example_stream (events_requested example_stream)
      = example_stream"
    by (simp add: patched_stream_def pause_patch_def example_stream_def replacement_endpoint_token_def
        delivery_of_def no_delivery_def or_str_def nonempty_def opt_str_def)
  moreover have "endpoint_token example_stream \<noteq> []" by (simp add: example_stream_def)
  ultimately show ?thesis
    using s row_to_stream_stored [OF toy_lib_laws storable_example]
    by (simp add: update_stream_def ordered_streams_def patched_events_def pause_patch_def
        enables_without_token_def stored_token_is_undecryptable_def)
qed

theorem enabled_stream_has_usable_token_witness:
  "\<exists>d' row. update_stream toy_lib example_settings 0 (pause_patch\<lparr>p_status := Some ''enabled''\<rparr>) queued_db
     = Inr (Some example_stream, d') \<and> streams d' = [row]"
proof -
  obtain d' where d': "update_stream toy_lib example_settings 0 (pause_patch\<lparr>p_status := Some ''enabled''\<rparr>) queued_db
     = Inr (Some example_stream, d')" using example_resume by blast
  then show ?thesis
    using enabled_stream_has_usable_token [OF queued_db_ok toy_lib_laws d' storable_example]
    by (auto simp: example_stream_def)
qed

lemma filter_split_length: "\<forall>x \<in> set xs. p x \<noteq> q x \<Longrightarrow> length (filter p xs) + length (filter q xs) = length xs"
  by (induction xs) auto

text \<open>
  The queue counters add up: pending and blocked rows make up the stored rows, and the stored
  rows never exceed the reported capacity.
\<close>

theorem outbox_status_adds_up:
  assumes "db_ok d"
  shows "s_pending (get_outbox_status d) + s_blocked (get_outbox_status d) = s_stored (get_outbox_status d)
    \<and> s_stored (get_outbox_status d) \<le> s_capacity (get_outbox_status d)"
proof -
  have "\<forall>r \<in> set (outbox d). pending r \<noteq> blocked r"
    using assms by (auto simp: db_ok_def known_status_def pending_def blocked_def)
  then show ?thesis
    using assms filter_split_length [of "outbox d" pending blocked]
    by (simp add: get_outbox_status_def Let_def db_ok_def)
qed

theorem outbox_status_adds_up_witness:
  "s_pending (get_outbox_status queued_db) + s_blocked (get_outbox_status queued_db) = s_stored (get_outbox_status queued_db)"
  using outbox_status_adds_up [OF queued_db_ok] by blast

end
