(* ===== verification/Mapper.thy ===== *)
theory Mapper
  imports Config
begin

text \<open>
  \<^verbatim>\<open>app/events/mapper.py\<close> and the supported values of \<^verbatim>\<open>app/models.py\<close>: translation of an
  Authentik webhook body into security events. The clock is an argument.
\<close>

definition SESSION_REVOKED :: pystr where
  "SESSION_REVOKED = ''https://schemas.openid.net/secevent/caep/event-type/session-revoked''"

definition CREDENTIAL_CHANGE :: pystr where
  "CREDENTIAL_CHANGE = ''https://schemas.openid.net/secevent/caep/event-type/credential-change''"

definition SUPPORTED_EVENT_URIS :: "pystr list" where
  "SUPPORTED_EVENT_URIS =
     [''https://schemas.openid.net/secevent/ssf/event-type/verification'',
      ''https://schemas.openid.net/secevent/caep/event-type/session-revoked'',
      ''https://schemas.openid.net/secevent/caep/event-type/credential-change'']"

record mapped_event =
  uri :: pystr
  event_payload :: pydict
  txn :: "pystr option"

definition extract_body :: "pydict \<Rightarrow> pydict" where
  "extract_body payload = (case dget payload ''body'' of JObj b \<Rightarrow> b | _ \<Rightarrow> payload)"

definition nested_dict :: "pydict \<Rightarrow> pystr \<Rightarrow> pydict" where
  "nested_dict container key = (case dget container key of JObj d \<Rightarrow> d | _ \<Rightarrow> [])"

definition first_present :: "pydict \<Rightarrow> pystr list \<Rightarrow> json option" where
  "first_present d keys = map_option (dget d) (find (\<lambda>k. dget d k \<noteq> JNull) keys)"

definition extract_source_txn :: "pydict \<Rightarrow> pystr option" where
  "extract_source_txn payload =
     map_option py_str (first_present (extract_body payload) [''pk'', ''event_uuid'', ''request_id''])"

definition extract_action :: "pydict \<Rightarrow> json" where
  "extract_action payload = dget (extract_body payload) ''action''"

definition extract_email :: "pydict \<Rightarrow> pystr option" where
  "extract_email payload =
     (case dget (nested_dict (extract_body payload) ''user'') ''email'' of
        JStr raw \<Rightarrow> nonempty (Some (strip raw))
      | _ \<Rightarrow> None)"

definition session_revoked_event :: "int \<Rightarrow> pystr option \<Rightarrow> mapped_event" where
  "session_revoked_event now t =
     \<lparr>uri = SESSION_REVOKED,
      event_payload = [(''event_timestamp'', JInt now), (''initiating_entity'', JStr ''policy''),
        (''reason_admin'', JObj [(''en'', JStr ''Session revoked in Authentik'')])],
      txn = t\<rparr>"

definition password_event :: "int \<Rightarrow> pystr option \<Rightarrow> mapped_event" where
  "password_event now t =
     \<lparr>uri = CREDENTIAL_CHANGE,
      event_payload = [(''event_timestamp'', JInt now), (''initiating_entity'', JStr ''user''),
        (''credential_type'', JStr ''password''), (''change_type'', JStr ''update''),
        (''reason_admin'', JObj [(''en'', JStr ''Password changed in Authentik'')])],
      txn = t\<rparr>"

definition map_authentik_event :: "int \<Rightarrow> pydict \<Rightarrow> mapped_event list" where
  "map_authentik_event now payload =
     (let body = extract_body payload;
          action = dget body ''action'';
          context' = nested_dict body ''context'';
          t = extract_source_txn payload
      in if action = JStr ''authentik.core.auth.login_failed'' then []
         else if action = JStr ''authentik.core.auth.logout'' then [session_revoked_event now t]
         else if action = JStr ''authentik.core.user.delete'' then []
         else if action \<noteq> JStr ''authentik.core.user.write'' then []
         else (let changed_fields = (case dget context' ''changed_fields'' of JArr xs \<Rightarrow> xs | _ \<Rightarrow> [])
               in if JStr ''password'' \<in> set changed_fields then [password_event now t] else []))"

section \<open>Lemmas\<close>

lemma map_authentik_event_cases:
  "e \<in> set (map_authentik_event now payload) \<Longrightarrow>
     e = session_revoked_event now (extract_source_txn payload) \<and> extract_action payload = JStr ''authentik.core.auth.logout''
     \<or> e = password_event now (extract_source_txn payload) \<and> extract_action payload = JStr ''authentik.core.user.write''"
  by (auto simp: map_authentik_event_def extract_action_def Let_def split: if_splits)

lemma length_map_authentik_event: "length (map_authentik_event now payload) \<le> 1"
  by (simp add: map_authentik_event_def Let_def)

lemma event_uri_supported: "e \<in> set (map_authentik_event now payload) \<Longrightarrow> uri e \<in> set SUPPORTED_EVENT_URIS"
  by (auto dest!: map_authentik_event_cases
      simp: session_revoked_event_def password_event_def SESSION_REVOKED_def CREDENTIAL_CHANGE_def SUPPORTED_EVENT_URIS_def)

lemma first_present_not_null: "first_present d ks = Some v \<Longrightarrow> v \<noteq> JNull"
  by (auto simp: first_present_def find_Some_iff)

text \<open>The transaction is the first identifier present, whatever its JSON type.\<close>

lemma source_txn_first:
  "extract_source_txn payload =
     (case filter (\<lambda>v. v \<noteq> JNull) (map (dget (extract_body payload)) [''pk'', ''event_uuid'', ''request_id'']) of
        [] \<Rightarrow> None | v # _ \<Rightarrow> Some (py_str v))"
  by (simp add: extract_source_txn_def first_present_def)


text \<open>
  The subject of an event is a non-empty address without surrounding white space, or there is
  none; the reader tolerates bodies whose reserved keys hold values of another type.
\<close>

theorem extract_email_normal:
  "(\<forall>email. extract_email payload = Some email \<longrightarrow> email \<noteq> [] \<and> strip email = email)
   \<and> (extract_email payload = None \<longleftrightarrow>
      (\<forall>raw. dget (nested_dict (extract_body payload) ''user'') ''email'' = JStr raw \<longrightarrow> strip raw = []))"
  by (auto simp: extract_email_def nonempty_Some split: json.splits)
     (auto simp: nonempty_def split: list.splits)

theorem extract_email_normal_witness:
  "extract_email [(''user'', JObj [(''email'', JStr '' a@b.c '')])] = Some ''a@b.c''
   \<and> strip ''a@b.c'' = ''a@b.c''"
proof -
  have "extract_email [(''user'', JObj [(''email'', JStr '' a@b.c '')])] = Some ''a@b.c''" by code_simp
  then show ?thesis using extract_email_normal [of "[(''user'', JObj [(''email'', JStr '' a@b.c '')])]"] by simp
qed

end
