(* ===== verification/Url_Validation.thy ===== *)
theory Url_Validation
  imports Net_Address
begin

text \<open>
  \<^verbatim>\<open>app/security/url_validation.py\<close>: the checks that keep the transmitter from being pointed at
  internal hosts. Name resolution (\<^verbatim>\<open>socket.getaddrinfo\<close>) is a parameter; it answers with
  address texts, fails with an \<^verbatim>\<open>OSError\<close>, or refuses the name with a \<^verbatim>\<open>UnicodeError\<close> (a
  \<^verbatim>\<open>ValueError\<close>). The lemmas show which addresses are blocked, that an IPv4 address stays
  blocked in every IPv6 form that carries it, and what an accepted URL satisfies.
\<close>

section \<open>Blocked networks\<close>

datatype net = Net4 ipv4 nat | Net6 ipv6 nat

definition quad :: "int \<Rightarrow> int \<Rightarrow> int \<Rightarrow> int \<Rightarrow> ipv4" where
  "quad a b c d = word_of_int (a * 16777216 + b * 65536 + c * 256 + d)"

text \<open>\<^verbatim>\<open>addr in net\<close>: false when the versions differ.\<close>

fun in_net :: "ip \<Rightarrow> net \<Rightarrow> bool" where
  "in_net (IPv4 a) (Net4 b n) \<longleftrightarrow> drop_bit (32 - n) a = drop_bit (32 - n) b"
| "in_net (IPv6 a _) (Net6 b n) \<longleftrightarrow> drop_bit (128 - n) a = drop_bit (128 - n) b"
| "in_net _ _ \<longleftrightarrow> False"

definition BLOCKED_HOSTNAMES :: "pystr list" where
  "BLOCKED_HOSTNAMES = [''localhost'', ''metadata.google.internal'', ''169.254.169.254'']"

definition BLOCKED_NETWORKS :: "net list" where
  "BLOCKED_NETWORKS =
    [Net4 (quad 0 0 0 0) 8, Net4 (quad 10 0 0 0) 8, Net4 (quad 100 64 0 0) 10, Net4 (quad 127 0 0 0) 8,
     Net4 (quad 169 254 0 0) 16, Net4 (quad 172 16 0 0) 12, Net4 (quad 192 0 0 0) 24,
     Net4 (quad 192 0 2 0) 24, Net4 (quad 192 168 0 0) 16, Net4 (quad 198 18 0 0) 15,
     Net4 (quad 198 51 100 0) 24, Net4 (quad 203 0 113 0) 24, Net4 (quad 224 0 0 0) 4,
     Net4 (quad 240 0 0 0) 4, Net4 (quad 255 255 255 255) 32,
     Net6 1 128, Net6 (0xfc00 * 2 ^ 112) 7, Net6 (0xfe80 * 2 ^ 112) 10, Net6 (0xff00 * 2 ^ 112) 8]"

definition IPV4_EMBEDDING_NETWORKS :: "net list" where
  "IPV4_EMBEDDING_NETWORKS = [Net6 0 96, Net6 (0x64ff9b * 2 ^ 96) 96]"

text \<open>The IPv4 address the check looks at instead of an IPv6 address that carries one.\<close>

definition embedded_ipv4 :: "ipv6 \<Rightarrow> ipv4 option" where
  "embedded_ipv4 a =
     (case ipv4_mapped a of
        Some w \<Rightarrow> Some w
      | None \<Rightarrow> (case sixtofour a of
          Some w \<Rightarrow> Some w
        | None \<Rightarrow> (case teredo_client a of
            Some w \<Rightarrow> Some w
          | None \<Rightarrow> if list_ex (in_net (IPv6 a None)) IPV4_EMBEDDING_NETWORKS
                    then Some (low32 a) else None)))"

definition unwrap_ip :: "ip \<Rightarrow> ip" where
  "unwrap_ip addr =
     (case addr of
        IPv6 a _ \<Rightarrow> (case embedded_ipv4 a of Some w \<Rightarrow> IPv4 w | None \<Rightarrow> addr)
      | IPv4 _ \<Rightarrow> addr)"

definition blocked_addr :: "ip \<Rightarrow> bool" where
  "blocked_addr addr \<longleftrightarrow> list_ex (in_net (unwrap_ip addr)) BLOCKED_NETWORKS"

definition is_blocked_ip :: "pystr \<Rightarrow> bool" where
  "is_blocked_ip s = (case ip_address s of None \<Rightarrow> True | Some addr \<Rightarrow> blocked_addr addr)"

section \<open>Host names and the allowlist\<close>

datatype dns = Addresses "pystr list" | DnsOSError | DnsUnicodeError

type_synonym resolver = "pystr \<Rightarrow> dns"

datatype url_error =
    EmptyUrl | InvalidUrl | BadScheme pystr | HasCredentials | HasFragment | NoHost
  | BlockedName pystr | BlockedLiteral pystr | NotAllowlisted pystr | Unresolvable pystr
  | BlockedResolved pystr pystr | UnicodeHost pystr

definition resolve_host :: "resolver \<Rightarrow> pystr \<Rightarrow> url_error + pystr list" where
  "resolve_host dns host =
     (case dns host of
        Addresses xs \<Rightarrow> Inr xs
      | DnsOSError \<Rightarrow> Inr []
      | DnsUnicodeError \<Rightarrow> Inl (UnicodeHost host))"

definition safe_hostname :: "pystr \<Rightarrow> pystr" where
  "safe_hostname url = (case urlparse url of None \<Rightarrow> [] | Some p \<Rightarrow> lower (url_hostname p))"

definition receiver_host_allowed :: "pystr \<Rightarrow> pystr list \<Rightarrow> bool" where
  "receiver_host_allowed url allowed_hosts \<longleftrightarrow>
     allowed_hosts = [] \<or> safe_hostname url \<in> set allowed_hosts"

definition reject_unsafe_scheme_or_parts :: "parsed_url \<Rightarrow> url_error + unit" where
  "reject_unsafe_scheme_or_parts p =
     (if url_scheme p \<noteq> ''https'' then Inl (BadScheme (url_scheme p))
      else if url_username p \<noteq> [] \<or> url_password p \<noteq> [] then Inl HasCredentials
      else if url_fragment p \<noteq> [] then Inl HasFragment
      else Inr ())"

definition reject_blocked_host_literal :: "pystr \<Rightarrow> url_error + unit" where
  "reject_blocked_host_literal host =
     (if lower host \<in> set BLOCKED_HOSTNAMES then Inl (BlockedName host)
      else case ip_address host of
        None \<Rightarrow> Inr ()
      | Some ip_literal \<Rightarrow>
          if is_blocked_ip (ip_str ip_literal) then Inl (BlockedLiteral host) else Inr ())"

definition reject_blocked_resolved_ips :: "resolver \<Rightarrow> pystr \<Rightarrow> url_error + pystr list" where
  "reject_blocked_resolved_ips dns host =
     (case resolve_host dns host of
        Inl e \<Rightarrow> Inl e
      | Inr [] \<Rightarrow> Inl (Unresolvable host)
      | Inr ips \<Rightarrow> (case find is_blocked_ip ips of
                       Some ip \<Rightarrow> Inl (BlockedResolved host ip)
                     | None \<Rightarrow> Inr ips))"

definition validate_receiver_endpoint_url ::
  "resolver \<Rightarrow> pystr \<Rightarrow> pystr list \<Rightarrow> url_error + pystr" where
  "validate_receiver_endpoint_url dns url allowed_hosts =
     (if url = [] then Inl EmptyUrl
      else case urlparse url of
        None \<Rightarrow> Inl InvalidUrl
      | Some parsed \<Rightarrow>
         (case reject_unsafe_scheme_or_parts parsed of
            Inl e \<Rightarrow> Inl e
          | Inr _ \<Rightarrow>
             (let host = url_hostname parsed in
              if host = [] then Inl NoHost
              else case reject_blocked_host_literal host of
                Inl e \<Rightarrow> Inl e
              | Inr _ \<Rightarrow>
                 if allowed_hosts \<noteq> [] \<and> \<not> receiver_host_allowed url allowed_hosts
                 then Inl (NotAllowlisted host)
                 else (case reject_blocked_resolved_ips dns host of
                         Inl e \<Rightarrow> Inl e
                       | Inr _ \<Rightarrow> Inr url))))"

section \<open>Which IPv4 addresses are blocked\<close>

text \<open>The list of networks as ranges of octets, the form in which the registries give them.\<close>

definition special_ipv4 :: "int \<Rightarrow> int \<Rightarrow> int \<Rightarrow> int \<Rightarrow> bool" where
  "special_ipv4 a b c d \<longleftrightarrow>
     a \<in> {0, 10, 127} \<or> a \<ge> 224 \<or> (a = 100 \<and> 64 \<le> b \<and> b \<le> 127) \<or> (a = 169 \<and> b = 254)
     \<or> (a = 172 \<and> 16 \<le> b \<and> b \<le> 31) \<or> (a = 192 \<and> b = 168) \<or> (a = 192 \<and> b = 0 \<and> c \<in> {0, 2})
     \<or> (a = 198 \<and> b \<in> {18, 19}) \<or> (a = 198 \<and> b = 51 \<and> c = 100) \<or> (a = 203 \<and> b = 0 \<and> c = 113)"

definition octet :: "int \<Rightarrow> bool" where
  "octet a \<longleftrightarrow> 0 \<le> a \<and> a < 256"

definition quad_val :: "int \<Rightarrow> int \<Rightarrow> int \<Rightarrow> int \<Rightarrow> int" where
  "quad_val a b c d = a * 16777216 + b * 65536 + c * 256 + d"

lemma uint_quad:
  assumes "octet a" "octet b" "octet c" "octet d"
  shows "uint (quad a b c d) = quad_val a b c d"
proof -
  have "0 \<le> quad_val a b c d" "quad_val a b c d < 2 ^ 32"
    using assms by (simp_all add: octet_def quad_val_def)
  then show ?thesis
    unfolding quad_def quad_val_def by (simp only: uint_word_of_int) (simp add: mod_pos_pos_trivial)
qed

lemma uint_drop_bit: "uint (drop_bit k (z :: 'a::len word)) = uint z div 2 ^ k"
  by (subst unsigned_drop_bit_eq) (simp add: drop_bit_eq_div take_bit_int_eq_self)

lemma drop_bit_eq_iff_uint:
  "drop_bit k (x :: 'a::len word) = drop_bit k y \<longleftrightarrow> uint x div 2 ^ k = uint y div 2 ^ k"
  by (simp only: word_uint_eq_iff uint_drop_bit)

lemma in_net4_uint:
  "in_net (IPv4 w) (Net4 v n) \<longleftrightarrow> uint w div 2 ^ (32 - n) = uint v div 2 ^ (32 - n)"
  by (simp only: in_net.simps drop_bit_eq_iff_uint)

lemma place_div: "0 \<le> r \<Longrightarrow> r < m \<Longrightarrow> n = q * m + r \<Longrightarrow> n div m = (q :: int)"
  using int_div_pos_eq [of n m q r] by (simp add: mult.commute)

lemma place_eq:
  assumes "0 \<le> r" "r < k" "0 \<le> r'" "r' < (k :: int)"
  shows "x * k + r = x' * k + r' \<longleftrightarrow> x = x' \<and> r = r'"
  using place_div [OF assms(1,2) refl, of x] place_div [OF assms(3,4) refl, of x'] by auto

lemma split_bits:
  "(b :: int) = b div 64 * 64 + b mod 64" "b = b div 16 * 16 + b mod 16" "b = b div 2 * 2 + b mod 2"
  by simp_all

lemma octet_range: "octet a \<Longrightarrow> 0 \<le> a" "octet a \<Longrightarrow> a < 256"
  by (simp_all add: octet_def)

lemma quad_div:
  assumes "octet a" "octet b" "octet c" "octet d"
  shows "quad_val a b c d div 16777216 = a"
    "quad_val a b c d div 65536 = a * 256 + b"
    "quad_val a b c d div 256 = (a * 256 + b) * 256 + c"
    "quad_val a b c d div 4194304 = a * 4 + b div 64"
    "quad_val a b c d div 1048576 = a * 16 + b div 16"
    "quad_val a b c d div 131072 = a * 128 + b div 2"
    "quad_val a b c d div 268435456 = a div 16"
proof -
  have "0 \<le> b mod 64" "b mod 64 < 64" "0 \<le> b mod 16" "b mod 16 < 16" "0 \<le> b mod 2" "b mod 2 < 2"
    "0 \<le> a mod 16" "a mod 16 < 16" by simp_all
  note range = this assms [THEN octet_range(1)] assms [THEN octet_range(2)]
  note places = place_div [where n = "quad_val a b c d"]
  note unfolds = quad_val_def distrib_right mult.assoc
  show "quad_val a b c d div 16777216 = a"
    by (rule places [where r = "b * 65536 + c * 256 + d"]; (unfold unfolds)?; use range in linarith)
  show "quad_val a b c d div 65536 = a * 256 + b"
    by (rule places [where r = "c * 256 + d"]; (unfold unfolds)?; use range in linarith)
  show "quad_val a b c d div 256 = (a * 256 + b) * 256 + c"
    by (rule places [where r = d]; (unfold unfolds)?; use range in linarith)
  show "quad_val a b c d div 4194304 = a * 4 + b div 64"
    by (rule places [where r = "b mod 64 * 65536 + c * 256 + d"]; (unfold unfolds)?;
        use range split_bits(1) [of b] in linarith)
  show "quad_val a b c d div 1048576 = a * 16 + b div 16"
    by (rule places [where r = "b mod 16 * 65536 + c * 256 + d"]; (unfold unfolds)?;
        use range split_bits(2) [of b] in linarith)
  show "quad_val a b c d div 131072 = a * 128 + b div 2"
    by (rule places [where r = "b mod 2 * 65536 + c * 256 + d"]; (unfold unfolds)?;
        use range split_bits(3) [of b] in linarith)
  show "quad_val a b c d div 268435456 = a div 16"
    by (rule places [where r = "a mod 16 * 16777216 + b * 65536 + c * 256 + d"]; (unfold unfolds)?;
        use range split_bits(2) [of a] in linarith)
qed

lemma octet_div:
  assumes "octet b"
  shows "0 \<le> b" "b < 256" "0 \<le> b div 64" "b div 64 < 4" "0 \<le> b div 16" "b div 16 < 16"
    "0 \<le> b div 2" "b div 2 < 128"
  using assms by (auto simp: octet_def pos_imp_zdiv_nonneg_iff)

text \<open>Membership in one network of the list, by the length of its prefix.\<close>

lemma in_net4_quad:
  assumes "octet a" "octet b" "octet c" "octet d" "octet a'" "octet b'" "octet c'" "octet d'"
  shows "in_net (IPv4 (quad a b c d)) (Net4 (quad a' b' c' d') 8) \<longleftrightarrow> a = a'"
    "in_net (IPv4 (quad a b c d)) (Net4 (quad a' b' c' d') 16) \<longleftrightarrow> a = a' \<and> b = b'"
    "in_net (IPv4 (quad a b c d)) (Net4 (quad a' b' c' d') 24) \<longleftrightarrow> a = a' \<and> b = b' \<and> c = c'"
    "in_net (IPv4 (quad a b c d)) (Net4 (quad a' b' c' d') 10) \<longleftrightarrow> a = a' \<and> b div 64 = b' div 64"
    "in_net (IPv4 (quad a b c d)) (Net4 (quad a' b' c' d') 12) \<longleftrightarrow> a = a' \<and> b div 16 = b' div 16"
    "in_net (IPv4 (quad a b c d)) (Net4 (quad a' b' c' d') 15) \<longleftrightarrow> a = a' \<and> b div 2 = b' div 2"
    "in_net (IPv4 (quad a b c d)) (Net4 (quad a' b' c' d') 4) \<longleftrightarrow> a div 16 = a' div 16"
  unfolding in_net4_uint uint_quad [OF assms(1-4)] uint_quad [OF assms(5-8)]
  by (simp_all add: quad_div [OF assms(1-4)] quad_div [OF assms(5-8)] place_eq
      octet_div [OF assms(2)] octet_div [OF assms(3)] octet_div [OF assms(6)] octet_div [OF assms(7)]
      del: distrib_right_numeral)

lemma blocked_quad:
  assumes "octet a" "octet b" "octet c" "octet d"
  shows "blocked_addr (IPv4 (quad a b c d)) \<longleftrightarrow> special_ipv4 a b c d"
proof -
  let ?bcast = "in_net (IPv4 (quad a b c d)) (Net4 (quad 255 255 255 255) 32)"
  have "?bcast \<Longrightarrow> a = 255"
    using assms unfolding in_net4_uint by (simp add: uint_quad octet_def quad_val_def)
  moreover have "a div 16 = 14 \<or> a div 16 = 15 \<longleftrightarrow> a \<ge> 224"
    using assms unfolding octet_def by presburger
  ultimately have top: "a div 16 = 14 \<or> a div 16 = 15 \<or> ?bcast \<longleftrightarrow> a \<ge> 224"
    by auto
  have d: "b div 64 = 1 \<longleftrightarrow> 64 \<le> b \<and> b \<le> 127" "b div 16 = 1 \<longleftrightarrow> 16 \<le> b \<and> b \<le> 31"
    "b div 2 = 9 \<longleftrightarrow> b = 18 \<or> b = 19"
    using assms unfolding octet_def by presburger+
  have o: "octet k"
    if "k \<in> {0, 2, 10, 16, 18, 51, 64, 100, 113, 127, 168, 169, 172, 192, 198, 203, 224, 240, 254}" for k
    using that by (auto simp: octet_def)
  show ?thesis
    unfolding blocked_addr_def BLOCKED_NETWORKS_def unwrap_ip_def special_ipv4_def
    by (simp add: in_net4_quad assms o d top del: in_net.simps(1)) argo
qed

lemma quad_exhaust:
  obtains a b c d where "w = quad a b c d" "octet a" "octet b" "octet c" "octet d"
proof
  let ?n = "uint w"
  have n: "0 \<le> ?n" "?n < 2 ^ 32" using uint_lt2p [of w] by simp_all
  show "octet (?n div 16777216)" "octet (?n div 65536 mod 256)" "octet (?n div 256 mod 256)" "octet (?n mod 256)"
    using n by (auto simp: octet_def pos_imp_zdiv_nonneg_iff)
  have "?n = ?n div 16777216 * 16777216 + ?n div 65536 mod 256 * 65536 + ?n div 256 mod 256 * 256 + ?n mod 256"
    using div_mult_mod_eq [of ?n 256]
      div_mult_mod_eq [of "?n div 256" 256, unfolded zdiv_zmult2_eq [symmetric, of 256 ?n 256, simplified]]
      div_mult_mod_eq [of "?n div 65536" 256, unfolded zdiv_zmult2_eq [symmetric, of 256 ?n 65536, simplified]]
    by linarith
  then show "w = quad (?n div 16777216) (?n div 65536 mod 256) (?n div 256 mod 256) (?n mod 256)"
    unfolding quad_def by (metis word_of_int_uint)
qed

section \<open>IPv4 addresses carried by IPv6 addresses\<close>

text \<open>The five forms in which an IPv6 address carries an IPv4 address, built from their parts.\<close>

definition mapped_form :: "ipv4 \<Rightarrow> ipv6" where
  "mapped_form w = word_of_int (0xFFFF * 2 ^ 32 + uint w)"

definition compatible_form :: "ipv4 \<Rightarrow> ipv6" where
  "compatible_form w = word_of_int (uint w)"

definition nat64_form :: "ipv4 \<Rightarrow> ipv6" where
  "nat64_form w = word_of_int (0x64ff9b * 2 ^ 96 + uint w)"

definition sixtofour_form :: "ipv4 \<Rightarrow> 80 word \<Rightarrow> ipv6" where
  "sixtofour_form w x = word_of_int (0x2002 * 2 ^ 112 + uint w * 2 ^ 80 + uint x)"

definition teredo_form :: "ipv4 \<Rightarrow> 64 word \<Rightarrow> ipv6" where
  "teredo_form w x = word_of_int (0x20010000 * 2 ^ 96 + uint x * 2 ^ 32 + (2 ^ 32 - 1 - uint w))"

lemma uint_word_of_int_small: "0 \<le> n \<Longrightarrow> n < 2 ^ LENGTH('a) \<Longrightarrow> uint (word_of_int n :: 'a::len word) = n"
  by (simp add: uint_word_of_int mod_pos_pos_trivial)

lemma uint_bounds: "0 \<le> uint (w :: ipv4)" "uint (w :: ipv4) < 4294967296"
  using uint_lt2p [of w] by simp_all

lemma uint_forms:
  "uint (mapped_form w) = 0xFFFF * 2 ^ 32 + uint w"
  "uint (compatible_form w) = uint w"
  "uint (nat64_form w) = 0x64ff9b * 2 ^ 96 + uint w"
  "uint (sixtofour_form w x) = 0x2002 * 2 ^ 112 + (uint w * 2 ^ 80 + uint x)"
  "uint (teredo_form w y) = 0x20010000 * 2 ^ 96 + (uint y * 2 ^ 32 + (2 ^ 32 - 1 - uint w))"
proof -
  note bounds = uint_bounds [of w] uint_lt2p [of x, simplified] uint_lt2p [of y, simplified]
    unsigned_greater_eq [of x, where ?'a = int] unsigned_greater_eq [of y, where ?'a = int]
  show "uint (mapped_form w) = 0xFFFF * 2 ^ 32 + uint w"
    "uint (compatible_form w) = uint w"
    "uint (nat64_form w) = 0x64ff9b * 2 ^ 96 + uint w"
    "uint (sixtofour_form w x) = 0x2002 * 2 ^ 112 + (uint w * 2 ^ 80 + uint x)"
    "uint (teredo_form w y) = 0x20010000 * 2 ^ 96 + (uint y * 2 ^ 32 + (2 ^ 32 - 1 - uint w))"
    unfolding mapped_form_def compatible_form_def nat64_form_def sixtofour_form_def teredo_form_def
    by (subst uint_word_of_int_small; use bounds in \<open>simp; linarith?\<close>)+
qed

lemma drop_bit_eq_num:
  "drop_bit k (a :: 'a::len word) = b \<longleftrightarrow> uint a div 2 ^ k = uint b"
  by (simp only: word_uint_eq_iff uint_drop_bit)

lemma low32_word_of_int: "low32 a = word_of_int (uint a mod 2 ^ 32)"
  by (simp add: low32_def word_uint_eq_iff unsigned_ucast_eq take_bit_eq_mod uint_word_of_int)

lemma word_of_int_eqI: "n = uint w \<Longrightarrow> word_of_int n = w"
  by simp

lemma place_mod: "0 \<le> r \<Longrightarrow> r < m \<Longrightarrow> (q * m + r) mod m = (r :: int)"
  by simp

text \<open>The leading bits of each form.\<close>

lemma form_prefixes:
  "uint (mapped_form w) div 2 ^ 32 = 0xFFFF"
  "uint (compatible_form w) div 2 ^ 32 = 0"
  "uint (nat64_form w) div 2 ^ 32 = 0x64ff9b * 2 ^ 64"
  "uint (sixtofour_form w x) div 2 ^ 112 = 0x2002"
  "uint (sixtofour_form w x) div 2 ^ 80 = 0x2002 * 2 ^ 32 + uint w"
  "uint (teredo_form w y) div 2 ^ 96 = 0x20010000"
  "uint (teredo_form w y) mod 2 ^ 32 = 2 ^ 32 - 1 - uint w"
proof -
  note bounds = uint_bounds [of w] uint_lt2p [of x, simplified] uint_lt2p [of y, simplified]
    unsigned_greater_eq [of x, where ?'a = int] unsigned_greater_eq [of y, where ?'a = int]
  show "uint (mapped_form w) div 2 ^ 32 = 0xFFFF"
    by (rule place_div [where r = "uint w"]) (use bounds in \<open>simp_all add: uint_forms\<close>)
  show "uint (compatible_form w) div 2 ^ 32 = 0"
    by (rule place_div [where r = "uint w"]) (use bounds in \<open>simp_all add: uint_forms\<close>)
  show "uint (nat64_form w) div 2 ^ 32 = 0x64ff9b * 2 ^ 64"
    by (rule place_div [where r = "uint w"]) (use bounds in \<open>simp_all add: uint_forms\<close>)
  show "uint (sixtofour_form w x) div 2 ^ 112 = 0x2002"
    by (rule place_div [where r = "uint w * 2 ^ 80 + uint x"]) (use bounds in \<open>simp_all add: uint_forms\<close>)
  show "uint (sixtofour_form w x) div 2 ^ 80 = 0x2002 * 2 ^ 32 + uint w"
    by (rule place_div [where r = "uint x"]) (use bounds in \<open>simp_all add: uint_forms\<close>)
  show "uint (teredo_form w y) div 2 ^ 96 = 0x20010000"
    by (rule place_div [where r = "uint y * 2 ^ 32 + (2 ^ 32 - 1 - uint w)"])
       (use bounds in \<open>simp add: uint_forms; linarith?\<close>)+
  show "uint (teredo_form w y) mod 2 ^ 32 = 2 ^ 32 - 1 - uint w"
    using place_mod [of "2 ^ 32 - 1 - uint w" "2 ^ 32" "0x20010000 * 2 ^ 64 + uint y"] bounds
    by (simp add: uint_forms algebra_simps)
qed

lemma form_bits:
  "drop_bit 32 (mapped_form w) = 0xFFFF" "low32 (mapped_form w) = w"
  "drop_bit 32 (compatible_form w) = 0" "low32 (compatible_form w) = w"
  "drop_bit 32 (nat64_form w) = 0x64ff9b * 2 ^ 64" "low32 (nat64_form w) = w"
  "drop_bit 112 (sixtofour_form w x) = 0x2002" "low32 (drop_bit 80 (sixtofour_form w x)) = w"
  "drop_bit 96 (teredo_form w y) = 0x20010000" "not (low32 (teredo_form w y)) = w"
proof -
  have m: "(q * 2 ^ 32 + uint w) mod 2 ^ 32 = uint w" for q
    using uint_bounds [of w] by (intro place_mod) simp_all
  show "drop_bit 32 (mapped_form w) = 0xFFFF" "drop_bit 32 (compatible_form w) = 0"
    "drop_bit 32 (nat64_form w) = 0x64ff9b * 2 ^ 64" "drop_bit 112 (sixtofour_form w x) = 0x2002"
    "drop_bit 96 (teredo_form w y) = 0x20010000"
    unfolding drop_bit_eq_num form_prefixes by simp_all
  show "low32 (mapped_form w) = w" "low32 (compatible_form w) = w"
    unfolding low32_word_of_int uint_forms using m [of 65535] m [of 0] by simp_all
  show "low32 (nat64_form w) = w"
    unfolding low32_word_of_int uint_forms using m [of "0x64ff9b * 2 ^ 64"] by simp
  show "low32 (drop_bit 80 (sixtofour_form w x)) = w"
    unfolding low32_word_of_int uint_drop_bit form_prefixes m by simp
  show "not (low32 (teredo_form w y)) = w"
    unfolding low32_word_of_int form_prefixes by (simp add: not_eq_complement)
qed

lemma drop_further: "m \<le> n \<Longrightarrow> drop_bit n (a :: ipv6) = drop_bit (n - m) (drop_bit m a)"
  by simp

text \<open>Every form is unwrapped to the address it carries.\<close>

lemma embedded_forms:
  "embedded_ipv4 (mapped_form w) = Some w"
  "embedded_ipv4 (compatible_form w) = Some w"
  "embedded_ipv4 (nat64_form w) = Some w"
  "embedded_ipv4 (sixtofour_form w x) = Some w"
  "embedded_ipv4 (teredo_form w y) = Some w"
proof -
  note unwrap = embedded_ipv4_def ipv4_mapped_def sixtofour_def teredo_client_def
    IPV4_EMBEDDING_NETWORKS_def
  have drop_small: "drop_bit 80 (0xFFFF :: ipv6) = 0" "drop_bit 64 (0xFFFF :: ipv6) = 0"
    and num_distinct: "(0x2002 :: ipv6) \<noteq> 0" "(0x20010000 :: ipv6) \<noteq> 0" by simp_all
  show "embedded_ipv4 (mapped_form w) = Some w"
    by (simp add: unwrap form_bits)
  show "embedded_ipv4 (compatible_form w) = Some w"
    using drop_further [of 32 112 "compatible_form w"] drop_further [of 32 96 "compatible_form w"]
    by (simp add: unwrap form_bits)
  show "embedded_ipv4 (nat64_form w) = Some w"
    using drop_further [of 32 112 "nat64_form w"] drop_further [of 32 96 "nat64_form w"]
    by (simp add: unwrap form_bits)
  have "drop_bit 32 (sixtofour_form w x) \<noteq> 0xFFFF"
    using drop_further [of 32 112 "sixtofour_form w x"] drop_small(1) form_bits(7) num_distinct(1) by force
  then show "embedded_ipv4 (sixtofour_form w x) = Some w"
    by (simp add: unwrap form_bits)
  have "drop_bit 32 (teredo_form w y) \<noteq> 0xFFFF"
    using drop_further [of 32 96 "teredo_form w y"] drop_small(2) form_bits(9) num_distinct(2) by force
  moreover have "drop_bit 112 (teredo_form w y) \<noteq> 0x2002"
    using drop_further [of 96 112 "teredo_form w y"] by (simp add: form_bits)
  ultimately show "embedded_ipv4 (teredo_form w y) = Some w"
    by (simp add: unwrap form_bits)
qed

text \<open>
  C9. The deny list cannot be evaded by writing an IPv4 address as an IPv6 address: in each of the
  five forms that carry an IPv4 address (mapped, compatible, NAT64, 6to4 with any interface part,
  Teredo with any server part), with any scope identifier, the address is blocked exactly when the
  IPv4 address itself is.
\<close>

theorem embedded_ipv4_blocked_alike:
  "(blocked_addr (IPv6 (mapped_form w) z) \<longleftrightarrow> blocked_addr (IPv4 w)) \<and>
   (blocked_addr (IPv6 (compatible_form w) z) \<longleftrightarrow> blocked_addr (IPv4 w)) \<and>
   (blocked_addr (IPv6 (nat64_form w) z) \<longleftrightarrow> blocked_addr (IPv4 w)) \<and>
   (blocked_addr (IPv6 (sixtofour_form w x) z) \<longleftrightarrow> blocked_addr (IPv4 w)) \<and>
   (blocked_addr (IPv6 (teredo_form w y) z) \<longleftrightarrow> blocked_addr (IPv4 w))"
  by (simp add: blocked_addr_def unwrap_ip_def embedded_forms)

text \<open>
  C27. The blocked IPv4 addresses are exactly those of the special-purpose ranges, written as
  ranges of the four octets: this network, private, shared, loopback, link-local, protocol
  assignments, documentation, benchmarking, multicast, reserved and broadcast.
\<close>

theorem blocked_ipv4_ranges:
  assumes "octet a" "octet b" "octet c" "octet d"
  shows "blocked_addr (IPv4 (quad a b c d)) \<longleftrightarrow> special_ipv4 a b c d"
  using assms by (rule blocked_quad)

theorem blocked_ipv4_ranges_witness:
  "blocked_addr (IPv4 (quad 169 254 169 254)) \<longleftrightarrow> special_ipv4 169 254 169 254"
  by (rule blocked_ipv4_ranges) (simp_all add: octet_def)

section \<open>What an accepted URL satisfies\<close>

text \<open>
  The contract of the validation: an HTTPS URL without credentials and fragment, whose host is
  named, not on the deny list, on the allowlist if there is one, and resolves to at least one
  address, all of them public.
\<close>

definition public_ip :: "pystr \<Rightarrow> bool" where
  "public_ip s \<longleftrightarrow> (\<exists>addr. ip_address s = Some addr \<and> \<not> blocked_addr addr)"

definition safe_parts :: "parsed_url \<Rightarrow> bool" where
  "safe_parts p \<longleftrightarrow> url_scheme p = ''https'' \<and> url_username p = [] \<and> url_password p = []
     \<and> url_fragment p = [] \<and> url_hostname p \<noteq> []"

definition safe_literal :: "pystr \<Rightarrow> bool" where
  "safe_literal host \<longleftrightarrow> lower host \<notin> set BLOCKED_HOSTNAMES
     \<and> (\<forall>addr. ip_address host = Some addr \<longrightarrow> public_ip (ip_str addr))"

definition safe_receiver :: "resolver \<Rightarrow> pystr \<Rightarrow> pystr list \<Rightarrow> bool" where
  "safe_receiver dns url allowed_hosts \<longleftrightarrow>
     (\<exists>p ips. urlparse url = Some p \<and> safe_parts p \<and> safe_literal (url_hostname p)
       \<and> (allowed_hosts = [] \<or> lower (url_hostname p) \<in> set allowed_hosts)
       \<and> dns (url_hostname p) = Addresses ips \<and> ips \<noteq> [] \<and> (\<forall>ip \<in> set ips. public_ip ip))"

lemma not_is_blocked_ip: "\<not> is_blocked_ip s \<longleftrightarrow> public_ip s"
  by (auto simp: is_blocked_ip_def public_ip_def split: option.splits)

lemma reject_unsafe_parts_ok:
  "reject_unsafe_scheme_or_parts p = Inr u \<and> url_hostname p \<noteq> [] \<longleftrightarrow> safe_parts p"
  by (auto simp: reject_unsafe_scheme_or_parts_def safe_parts_def)

lemma reject_literal_ok: "reject_blocked_host_literal host = Inr u \<longleftrightarrow> safe_literal host"
  by (auto simp: reject_blocked_host_literal_def safe_literal_def not_is_blocked_ip [symmetric]
      split: option.splits)

lemma reject_resolved_ok:
  "reject_blocked_resolved_ips dns host = Inr ips \<longleftrightarrow>
     dns host = Addresses ips \<and> ips \<noteq> [] \<and> (\<forall>ip \<in> set ips. public_ip ip)"
  by (auto simp: reject_blocked_resolved_ips_def resolve_host_def not_is_blocked_ip [symmetric]
      find_None_iff find_Some_iff split: dns.splits list.splits option.splits)

lemma urlparse_Nil: "urlparse [] = Some \<lparr>url_scheme = [], url_netloc = [], url_fragment = []\<rparr>"
  by code_simp

lemma safe_receiver_nonempty: "safe_receiver dns url hosts \<Longrightarrow> url \<noteq> []"
  by (auto simp: safe_receiver_def safe_parts_def urlparse_Nil)

lemma validate_iff_safe:
  "validate_receiver_endpoint_url dns url hosts = Inr u \<longleftrightarrow> u = url \<and> safe_receiver dns url hosts"
proof (cases "url = [] \<or> urlparse url = None")
  case True
  then show ?thesis
    using safe_receiver_nonempty [of dns url hosts]
    by (auto simp: validate_receiver_endpoint_url_def safe_receiver_def)
next
  case False
  then obtain p where p: "url \<noteq> []" "urlparse url = Some p" by auto
  have unsafe: "\<not> safe_parts p" if "reject_unsafe_scheme_or_parts p = Inl e" for e
    using that reject_unsafe_parts_ok [of p "()"] by simp
  have lit: "\<not> safe_literal host" if "reject_blocked_host_literal host = Inl e" for host e
    using that reject_literal_ok [of host "()"] by simp
  have res: "\<not> (dns host = Addresses ips \<and> ips \<noteq> [] \<and> (\<forall>ip \<in> set ips. public_ip ip))"
    if "reject_blocked_resolved_ips dns host = Inl e" for host e ips
    using that reject_resolved_ok [of dns host ips] by simp
  show ?thesis
    using p reject_unsafe_parts_ok [of p] reject_literal_ok [of "url_hostname p"]
      reject_resolved_ok [of dns "url_hostname p"] unsafe lit res
    by (auto simp: validate_receiver_endpoint_url_def safe_receiver_def receiver_host_allowed_def
        safe_hostname_def Let_def safe_parts_def split: sum.splits)
qed

text \<open>
  C6. An endpoint URL is accepted exactly when it meets the contract, and then it is returned
  unchanged: validation neither lets an unsafe URL through nor refuses a safe one.
\<close>

theorem validate_receiver_endpoint_url_spec:
  "validate_receiver_endpoint_url dns url hosts = Inr u \<longleftrightarrow> u = url \<and> safe_receiver dns url hosts"
  by (rule validate_iff_safe)

end
