(* ===== verification/Pusher.thy ===== *)
theory Pusher
  imports Database Mapper Url_Validation
begin

text \<open>
  \<^verbatim>\<open>app/events/pusher.py\<close>: revalidation of the receiver endpoint and the HTTP POST of a signed
  token. The network is a parameter: \<open>reply\<close> answers a request given the requests sent before it,
  and an operation returns the extended list of sent requests, so that what was sent, and in
  which order, is part of every result.
\<close>

section \<open>Network\<close>

record http_request =
  req_url :: pystr
  req_headers :: "(pystr \<times> pystr) list"
  req_content :: pystr

datatype http_result = Response int | HttpxError | OtherException

type_synonym network = "http_request list \<Rightarrow> http_request \<Rightarrow> http_result"

text \<open>Outcome of a push: the returned flag, or an exception that is not handled in this file.\<close>

datatype push_result = Returned bool | Raised

definition safe_host :: "pystr \<Rightarrow> pystr" where
  "safe_host url =
     (case urlparse url of
        None \<Rightarrow> ''unknown-host''
      | Some p \<Rightarrow> if url_netloc p \<noteq> [] then url_netloc p else ''unknown-host'')"

text \<open>\<^verbatim>\<open>_revalidate_endpoint\<close>; \<open>None\<close> is the \<^verbatim>\<open>UnicodeError\<close> of the resolver.\<close>

definition revalidate_endpoint :: "settings \<Rightarrow> resolver \<Rightarrow> pystr \<Rightarrow> bool option" where
  "revalidate_endpoint cfg dns url =
     (let allowed_hosts = ssf_allowed_receiver_hosts cfg in
      if allowed_hosts \<noteq> [] \<and> \<not> receiver_host_allowed url allowed_hosts then Some False
      else let host = safe_hostname url in
        if host = [] then Some False
        else case resolve_host dns host of
          Inl _ \<Rightarrow> None
        | Inr ips \<Rightarrow> if ips = [] then Some False else Some (\<not> list_ex is_blocked_ip ips))"

definition set_request_headers :: "pystr \<Rightarrow> (pystr \<times> pystr) list" where
  "set_request_headers tok =
     [(''Content-Type'', ''application/secevent+jwt''), (''Accept'', ''application/json'')]
     @ (if tok \<noteq> [] then [(''Authorization'', ''Bearer '' @ tok)] else [])"

definition set_request :: "stream \<Rightarrow> pystr \<Rightarrow> http_request" where
  "set_request st tok =
     \<lparr>req_url = endpoint_url st, req_headers = set_request_headers (endpoint_token st), req_content = tok\<rparr>"

text \<open>The POST and the interpretation of its answer, common to both kinds of token.\<close>

definition post_set :: "network \<Rightarrow> stream \<Rightarrow> pystr \<Rightarrow> http_request list \<Rightarrow> push_result \<times> http_request list" where
  "post_set reply st tok sent =
     ((case reply sent (set_request st tok) of
         HttpxError \<Rightarrow> Returned False
       | OtherException \<Rightarrow> Raised
       | Response code \<Rightarrow> Returned (200 \<le> code \<and> code < 300)),
      sent @ [set_request st tok])"

definition push_signed_set ::
  "settings \<Rightarrow> resolver \<Rightarrow> network \<Rightarrow> stream \<Rightarrow> pystr \<Rightarrow> pystr \<Rightarrow> http_request list \<Rightarrow> push_result \<times> http_request list" where
  "push_signed_set cfg dns reply st tok event_uri sent =
     (case revalidate_endpoint cfg dns (endpoint_url st) of
        None \<Rightarrow> (Raised, sent)
      | Some False \<Rightarrow> (Returned False, sent)
      | Some True \<Rightarrow> post_set reply st tok sent)"

text \<open>Whether a stream asks for an event: an empty selection asks for all.\<close>

definition wants_event :: "stream \<Rightarrow> mapped_event \<Rightarrow> bool" where
  "wants_event st e \<longleftrightarrow> events_requested st = [] \<or> JStr (uri e) \<in> set (events_requested st)"

definition sign_mapped ::
  "crypto_lib \<Rightarrow> settings \<Rightarrow> key_files \<Rightarrow> fresh \<Rightarrow> stream \<Rightarrow> mapped_event \<Rightarrow> pystr \<Rightarrow> crypto_error + pystr" where
  "sign_mapped lib cfg kf fr st e email =
     sign_set lib cfg kf fr (uri e) (aud st) email (Some (event_payload e)) (txn e)"

definition push_set ::
  "crypto_lib \<Rightarrow> settings \<Rightarrow> key_files \<Rightarrow> fresh \<Rightarrow> resolver \<Rightarrow> network \<Rightarrow> stream \<Rightarrow> mapped_event \<Rightarrow> pystr
     \<Rightarrow> http_request list \<Rightarrow> push_result option \<times> http_request list" where
  "push_set lib cfg kf fr dns reply st e email sent =
     (if status st \<noteq> ''enabled'' then (None, sent)
      else if \<not> wants_event st e then (None, sent)
      else case sign_mapped lib cfg kf fr st e email of
        Inl _ \<Rightarrow> (Some (Returned False), sent)
      | Inr tok \<Rightarrow> (let (r, s) = push_signed_set cfg dns reply st tok (uri e) sent in (Some r, s)))"

definition push_verification_set ::
  "crypto_lib \<Rightarrow> settings \<Rightarrow> key_files \<Rightarrow> fresh \<Rightarrow> resolver \<Rightarrow> network \<Rightarrow> stream \<Rightarrow> pystr option
     \<Rightarrow> http_request list \<Rightarrow> push_result \<times> http_request list" where
  "push_verification_set lib cfg kf fr dns reply st state sent =
     (case revalidate_endpoint cfg dns (endpoint_url st) of
        None \<Rightarrow> (Raised, sent)
      | Some False \<Rightarrow> (Returned False, sent)
      | Some True \<Rightarrow>
         (case sign_verification_set lib cfg kf fr (aud st) (stream_id st) state of
            Inl _ \<Rightarrow> (Returned False, sent)
          | Inr tok \<Rightarrow> post_set reply st tok sent))"

section \<open>Lemmas\<close>

text \<open>What revalidation has established when a request goes out.\<close>

definition safe_target :: "settings \<Rightarrow> resolver \<Rightarrow> pystr \<Rightarrow> bool" where
  "safe_target cfg dns url \<longleftrightarrow>
     (ssf_allowed_receiver_hosts cfg = [] \<or> safe_hostname url \<in> set (ssf_allowed_receiver_hosts cfg))
     \<and> safe_hostname url \<noteq> []
     \<and> (\<exists>ips. dns (safe_hostname url) = Addresses ips \<and> ips \<noteq> [] \<and> (\<forall>ip \<in> set ips. public_ip ip))"

lemma revalidate_True: "revalidate_endpoint cfg dns url = Some True \<longleftrightarrow> safe_target cfg dns url"
  by (auto simp: revalidate_endpoint_def safe_target_def receiver_host_allowed_def resolve_host_def Let_def
      not_is_blocked_ip [symmetric] list_ex_iff split: dns.splits)

lemma post_set_simps [simp]: "snd (post_set reply st tok sent) = sent @ [set_request st tok]"
  by (simp add: post_set_def)

lemma push_signed_set_sent:
  "snd (push_signed_set cfg dns reply st tok u sent) =
     (if safe_target cfg dns (endpoint_url st) then sent @ [set_request st tok] else sent)"
  by (auto simp: push_signed_set_def revalidate_True [symmetric] split: option.splits bool.splits)

lemma push_signed_set_delivered:
  "fst (push_signed_set cfg dns reply st tok u sent) = Returned True \<longleftrightarrow>
     safe_target cfg dns (endpoint_url st) \<and>
     (\<exists>code. reply sent (set_request st tok) = Response code \<and> 200 \<le> code \<and> code < 300)"
  by (auto simp: push_signed_set_def post_set_def revalidate_True [symmetric] split: option.splits bool.splits http_result.splits)

lemma push_verification_set_sent:
  "snd (push_verification_set lib cfg kf fr dns reply st state sent) =
     (case sign_verification_set lib cfg kf fr (aud st) (stream_id st) state of
        Inr tok \<Rightarrow> if safe_target cfg dns (endpoint_url st) then sent @ [set_request st tok] else sent
      | Inl _ \<Rightarrow> sent)"
  by (auto simp: push_verification_set_def revalidate_True [symmetric] split: option.splits bool.splits sum.splits)

text \<open>What the verification push sends, and when it counts as accepted.\<close>

lemma verification_push:
  "push_verification_set lib cfg kf fr dns reply st state sent = (q, sent') \<Longrightarrow>
     (case sign_verification_set lib cfg kf fr (aud st) (stream_id st) state of
        Inl _ \<Rightarrow> sent' = sent \<and> q \<noteq> Returned True
      | Inr tok \<Rightarrow> sent' = (if safe_target cfg dns (endpoint_url st) then sent @ [set_request st tok] else sent)
          \<and> (q = Returned True \<longleftrightarrow> safe_target cfg dns (endpoint_url st)
               \<and> (\<exists>code. reply sent (set_request st tok) = Response code \<and> 200 \<le> code \<and> code < 300)))"
  by (auto simp: push_verification_set_def post_set_def revalidate_True [symmetric]
      split: option.splits bool.splits sum.splits http_result.splits)

text \<open>
  C21. Nothing is sent to an endpoint that has not just been revalidated: a push sends either
  nothing, or exactly one request, to the stream's own endpoint with the stream's own token, and
  then the host is allowlisted and every address it resolved to is public.
\<close>

theorem push_only_to_safe_targets:
  "snd (push_signed_set cfg dns reply st tok u sent) =
     (if safe_target cfg dns (endpoint_url st) then sent @ [set_request st tok] else sent)
   \<and> (snd (push_verification_set lib cfg kf fr dns reply st state sent) = sent
      \<or> (\<exists>t. snd (push_verification_set lib cfg kf fr dns reply st state sent) = sent @ [set_request st t]
            \<and> safe_target cfg dns (endpoint_url st)))"
  using push_signed_set_sent [of cfg dns reply st tok u sent]
    push_verification_set_sent [of lib cfg kf fr dns reply st state sent]
  by (auto split: sum.splits)

text \<open>
  A push reports success exactly when the endpoint passed revalidation and the receiver
  answered with a status from 200 to 299.
\<close>

theorem push_success_iff:
  "fst (push_signed_set cfg dns reply st tok u sent) = Returned True \<longleftrightarrow>
     safe_target cfg dns (endpoint_url st) \<and>
     (\<exists>code. reply sent (set_request st tok) = Response code \<and> 200 \<le> code \<and> code < 300)"
  by (rule push_signed_set_delivered)

end
