(* ===== verification/Outbox.thy ===== *)
theory Outbox
  imports Pusher
begin

text \<open>
  \<^verbatim>\<open>app/events/outbox.py\<close>: signing and queueing of the events of one webhook, delivery of one
  queued item, one pass over the due items, and the delivery loop. A \<open>tick\<close> carries what the
  environment decides while one item is processed: the clock when the item is read and when it is
  written back, the resolver, whether the deadline of \<^verbatim>\<open>asyncio.wait_for\<close> strikes before or after
  the request left, the state of the stop event at its two tests, and what other tasks did to the
  tables since the previous item.
\<close>

definition RETRY_BASE_SECONDS :: int where "RETRY_BASE_SECONDS = 5"
definition RETRY_MAX_SECONDS :: int where "RETRY_MAX_SECONDS = 60 * 60"
definition PAUSED_RECHECK_SECONDS :: int where "PAUSED_RECHECK_SECONDS = 30"

section \<open>Queueing\<close>

definition delivery_payload_of :: "stream \<Rightarrow> mapped_event \<Rightarrow> pystr \<Rightarrow> pydict" where
  "delivery_payload_of st e tok =
     [(''aud'', JStr (aud st)), (''endpoint_url'', JStr (endpoint_url st)),
      (''endpoint_token'', JStr (endpoint_token st)), (''events_requested'', JArr (events_requested st)),
      (''event_uri'', JStr (uri e)), (''token'', JStr tok)]"

text \<open>The pairs of the nested loops that are signed, in order; signing number \<open>n\<close> uses \<open>fr n\<close>.\<close>

definition wanted_pairs :: "stream list \<Rightarrow> mapped_event list \<Rightarrow> (stream \<times> mapped_event) list" where
  "wanted_pairs sts es =
     [(st, e). st \<leftarrow> filter (\<lambda>st. status st = ''enabled'') sts, e \<leftarrow> filter (wants_event st) es]"

fun sign_pairs ::
  "crypto_lib \<Rightarrow> settings \<Rightarrow> key_files \<Rightarrow> (nat \<Rightarrow> fresh) \<Rightarrow> nat \<Rightarrow> pystr \<Rightarrow> (stream \<times> mapped_event) list
     \<Rightarrow> crypto_error + (stream \<times> pydict) list" where
  "sign_pairs lib cfg kf fr n email [] = Inr []"
| "sign_pairs lib cfg kf fr n email ((st, e) # ps) =
     ebind (sign_mapped lib cfg kf (fr n) st e email) (\<lambda>tok.
     ebind (sign_pairs lib cfg kf fr (Suc n) email ps) (\<lambda>ds.
     Inr ((st, delivery_payload_of st e tok) # ds)))"

datatype enqueue_error = SignError crypto_error | QueueError db_error

definition enqueue_events ::
  "crypto_lib \<Rightarrow> settings \<Rightarrow> key_files \<Rightarrow> (nat \<Rightarrow> fresh) \<Rightarrow> int \<Rightarrow> nat \<Rightarrow> stream list \<Rightarrow> mapped_event list \<Rightarrow> pystr
     \<Rightarrow> db \<Rightarrow> enqueue_error + (nat \<times> db)" where
  "enqueue_events lib cfg kf fr now nonce sts es email d =
     (case sign_pairs lib cfg kf fr 0 email (wanted_pairs sts es) of
        Inl e \<Rightarrow> Inl (SignError e)
      | Inr ds \<Rightarrow> (case enqueue_outbox lib cfg now nonce ds d of
          Inl e \<Rightarrow> Inl (QueueError e)
        | Inr r \<Rightarrow> Inr r))"

section \<open>Delivery\<close>

definition payload_matches_stream :: "pydict \<Rightarrow> stream \<Rightarrow> bool" where
  "payload_matches_stream p st \<longleftrightarrow>
     dget p ''aud'' = JStr (aud st) \<and> dget p ''endpoint_url'' = JStr (endpoint_url st)
     \<and> dget p ''endpoint_token'' = JStr (endpoint_token st)
     \<and> dget p ''events_requested'' = JArr (events_requested st)"

definition is_str :: "json \<Rightarrow> bool" where
  "is_str v = (case v of JStr _ \<Rightarrow> True | _ \<Rightarrow> False)"

definition valid_payload :: "pydict \<Rightarrow> bool" where
  "valid_payload p \<longleftrightarrow>
     is_str (dget p ''aud'') \<and> is_str (dget p ''endpoint_url'') \<and> is_str (dget p ''endpoint_token'')
     \<and> (case dget p ''events_requested'' of JArr xs \<Rightarrow> list_all is_str xs | _ \<Rightarrow> False)
     \<and> is_str (dget p ''event_uri'') \<and> is_str (dget p ''token'')"

definition retry_delay :: "nat \<Rightarrow> int" where
  "retry_delay attempts = min RETRY_MAX_SECONDS (RETRY_BASE_SECONDS * 2 ^ min (attempts - 1) 10)"

definition retry_item :: "int \<Rightarrow> outbox_item \<Rightarrow> pystr \<Rightarrow> db \<Rightarrow> db" where
  "retry_item now item reason d =
     (let attempts = item_attempts item + 1 in
      retry_outbox_item (item_id item) attempts (now + retry_delay attempts) reason d)"

datatype deadline = InTime | BeforeSend | AfterSend

record tick =
  t_now :: int
  t_end :: int
  t_dns :: resolver
  t_deadline :: deadline
  t_stop_outer :: bool
  t_stop_inner :: bool
  t_others :: "db \<Rightarrow> db"

datatype outcome =
    Unreadable | Malformed | Cancelled | Paused | TimedOut | PushError | Delivered | Refused

text \<open>
  The push under its deadline: \<open>None\<close> is \<^verbatim>\<open>TimeoutError\<close>. A deadline after the request left only
  exists when one was sent.
\<close>

definition timed_push ::
  "settings \<Rightarrow> network \<Rightarrow> tick \<Rightarrow> stream \<Rightarrow> pystr \<Rightarrow> pystr \<Rightarrow> http_request list \<Rightarrow> push_result option \<times> http_request list" where
  "timed_push cfg reply tk st tok event_uri sent =
     (let (r, sent') = push_signed_set cfg (t_dns tk) reply st tok event_uri sent in
      case t_deadline tk of
        InTime \<Rightarrow> (Some r, sent')
      | BeforeSend \<Rightarrow> (None, sent)
      | AfterSend \<Rightarrow> (if sent' = sent then Some r else None, sent'))"

definition deliver_item ::
  "crypto_lib \<Rightarrow> settings \<Rightarrow> network \<Rightarrow> tick \<Rightarrow> outbox_item \<Rightarrow> db \<Rightarrow> http_request list
     \<Rightarrow> db_error + (outcome \<times> db \<times> http_request list)" where
  "deliver_item lib cfg reply tk item d sent =
     (case decrypt_outbox_payload lib cfg item of
        Inl _ \<Rightarrow> Inr (Unreadable, block_outbox_item (item_id item) ''payload_decryption_failed'' d, sent)
      | Inr payload \<Rightarrow>
         if \<not> valid_payload payload then
           Inr (Malformed, block_outbox_item (item_id item) ''payload_invalid'' d, sent)
         else ebind (get_stream_by_id lib cfg (item_stream_id item) d) (\<lambda>found.
           case found of
             None \<Rightarrow> Inr (Cancelled, cancel_outbox_item (item_id item) d, sent)
           | Some st \<Rightarrow>
               if \<not> payload_matches_stream payload st then
                 Inr (Cancelled, cancel_outbox_item (item_id item) d, sent)
               else if status st \<noteq> ''enabled'' then
                 Inr (Paused, retry_outbox_item (item_id item) (item_attempts item)
                        (t_end tk + PAUSED_RECHECK_SECONDS) ''stream_paused'' d, sent)
               else (case timed_push cfg reply tk st (str_val (dget payload ''token''))
                            (str_val (dget payload ''event_uri'')) sent of
                  (None, s) \<Rightarrow> Inr (TimedOut, retry_item (t_end tk) item ''delivery_timeout'' d, s)
                | (Some Raised, s) \<Rightarrow> Inr (PushError, retry_item (t_end tk) item ''delivery_error'' d, s)
                | (Some (Returned True), s) \<Rightarrow> Inr (Delivered, complete_outbox_item (item_id item) d, s)
                | (Some (Returned False), s) \<Rightarrow> Inr (Refused, retry_item (t_end tk) item ''delivery_failed'' d, s))))"

text \<open>One pass; \<open>attempted\<close> counts the items that were tried.\<close>

fun deliver_items ::
  "crypto_lib \<Rightarrow> settings \<Rightarrow> network \<Rightarrow> (nat \<Rightarrow> tick) \<Rightarrow> nat \<Rightarrow> outbox_item list \<Rightarrow> nat \<Rightarrow> db \<Rightarrow> http_request list
     \<Rightarrow> db_error option \<times> nat \<times> db \<times> http_request list" where
  "deliver_items lib cfg reply tk n [] attempted d sent = (None, attempted, d, sent)"
| "deliver_items lib cfg reply tk n (item # items) attempted d0 sent =
     (if t_stop_outer (tk n) then (None, attempted, d0, sent)
      else let d = t_others (tk n) d0 in
        if t_stop_inner (tk n) then (None, attempted, d, sent)
        else case get_due_outbox_item (t_now (tk n)) (item_id item) d of
          None \<Rightarrow> deliver_items lib cfg reply tk (Suc n) items attempted d sent
        | Some current \<Rightarrow>
            (case deliver_item lib cfg reply (tk n) current d sent of
               Inl e \<Rightarrow> (Some e, attempted, d, sent)
             | Inr (_, d', sent') \<Rightarrow> deliver_items lib cfg reply tk (Suc n) items (Suc attempted) d' sent'))"

definition deliver_pending ::
  "crypto_lib \<Rightarrow> settings \<Rightarrow> network \<Rightarrow> (nat \<Rightarrow> tick) \<Rightarrow> int \<Rightarrow> db \<Rightarrow> http_request list
     \<Rightarrow> db_error option \<times> nat \<times> db \<times> http_request list" where
  "deliver_pending lib cfg reply tk now d sent =
     deliver_items lib cfg reply tk 0 (get_due_outbox now 25 d) 0 d sent"

text \<open>
  The loop, for the passes made before the stop event is set; an exception of a pass is logged and
  the next pass runs. Each pass has its ticks, its clock and what others did while it waited.
\<close>

record pass =
  pass_ticks :: "nat \<Rightarrow> tick"
  pass_now :: int
  pass_others :: "db \<Rightarrow> db"

fun delivery_loop ::
  "crypto_lib \<Rightarrow> settings \<Rightarrow> network \<Rightarrow> pass list \<Rightarrow> db \<Rightarrow> http_request list \<Rightarrow> db \<times> http_request list" where
  "delivery_loop lib cfg reply [] d sent = (d, sent)"
| "delivery_loop lib cfg reply (p # ps) d sent =
     (let (_, _, d', sent') = deliver_pending lib cfg reply (pass_ticks p) (pass_now p) d sent in
      delivery_loop lib cfg reply ps (pass_others p d') sent')"

section \<open>Back-off\<close>

lemma retry_delay_bounds: "5 \<le> retry_delay k \<and> retry_delay k \<le> 3600"
proof -
  have "(1 :: int) \<le> 2 ^ min (k - 1) 10" by simp
  then have "5 \<le> 5 * (2 :: int) ^ min (k - 1) 10" by linarith
  then show ?thesis by (simp add: retry_delay_def RETRY_BASE_SECONDS_def RETRY_MAX_SECONDS_def)
qed

lemma retry_delay_mono: "j \<le> k \<Longrightarrow> retry_delay j \<le> retry_delay k"
proof -
  assume "j \<le> k"
  then have "(2 :: int) ^ min (j - 1) 10 \<le> 2 ^ min (k - 1) 10" by (intro power_increasing) auto
  then show ?thesis by (simp add: retry_delay_def RETRY_BASE_SECONDS_def min.coboundedI2)
qed

section \<open>One item\<close>

text \<open>What the row of the processed item becomes.\<close>

definition row_after :: "tick \<Rightarrow> outbox_item \<Rightarrow> outcome \<Rightarrow> outbox_row \<Rightarrow> outbox_row option" where
  "row_after tk item oc r =
     (let retried = (\<lambda>reason. Some (r\<lparr>o_attempts := item_attempts item + 1,
            o_next_attempt_at := t_end tk + retry_delay (item_attempts item + 1), o_last_error := Some reason\<rparr>))
      in case oc of
        Unreadable \<Rightarrow> Some (r\<lparr>o_status := ''blocked'', o_last_error := Some ''payload_decryption_failed''\<rparr>)
      | Malformed \<Rightarrow> Some (r\<lparr>o_status := ''blocked'', o_last_error := Some ''payload_invalid''\<rparr>)
      | Cancelled \<Rightarrow> None
      | Paused \<Rightarrow> Some (r\<lparr>o_attempts := item_attempts item, o_next_attempt_at := t_end tk + PAUSED_RECHECK_SECONDS,
                           o_last_error := Some ''stream_paused''\<rparr>)
      | TimedOut \<Rightarrow> retried ''delivery_timeout''
      | PushError \<Rightarrow> retried ''delivery_error''
      | Delivered \<Rightarrow> None
      | Refused \<Rightarrow> retried ''delivery_failed'')"

definition outbox_after :: "tick \<Rightarrow> outbox_item \<Rightarrow> outcome \<Rightarrow> outbox_row list \<Rightarrow> outbox_row list" where
  "outbox_after tk item oc rs =
     List.map_filter (\<lambda>r. if o_id r = item_id item \<and> pending r then row_after tk item oc r else Some r) rs"

lemma map_filter_Some: "List.map_filter (\<lambda>r. if p r then Some (f r) else Some r) rs = map (\<lambda>r. if p r then f r else r) rs"
  and map_filter_None: "List.map_filter (\<lambda>r. if p r then None else Some r) rs = filter (\<lambda>r. \<not> p r) rs"
  by (induction rs) (simp_all add: List.map_filter_simps)

text \<open>The operations of the tables produce these rows.\<close>

lemma outbox_after_ops:
  "outbox (block_outbox_item (item_id item) ''payload_decryption_failed'' d) = outbox_after tk item Unreadable (outbox d)"
  "outbox (block_outbox_item (item_id item) ''payload_invalid'' d) = outbox_after tk item Malformed (outbox d)"
  "outbox (cancel_outbox_item (item_id item) d) = outbox_after tk item Cancelled (outbox d)"
  "outbox (retry_outbox_item (item_id item) (item_attempts item) (t_end tk + PAUSED_RECHECK_SECONDS) ''stream_paused'' d)
     = outbox_after tk item Paused (outbox d)"
  "outbox (retry_item (t_end tk) item ''delivery_timeout'' d) = outbox_after tk item TimedOut (outbox d)"
  "outbox (retry_item (t_end tk) item ''delivery_error'' d) = outbox_after tk item PushError (outbox d)"
  "outbox (complete_outbox_item (item_id item) d) = outbox_after tk item Delivered (outbox d)"
  "outbox (retry_item (t_end tk) item ''delivery_failed'' d) = outbox_after tk item Refused (outbox d)"
  unfolding outbox_after_def row_after_def Let_def outcome.case map_filter_Some map_filter_None
    complete_outbox_item_def cancel_outbox_item_def remove_pending_item_def
    block_outbox_item_def retry_item_def retry_outbox_item_def update_pending_item_def
  by simp_all

lemma table_ops_streams [simp]:
  "streams (block_outbox_item i reason d) = streams d" "outbox_seq (block_outbox_item i reason d) = outbox_seq d"
  "streams (cancel_outbox_item i d) = streams d" "outbox_seq (cancel_outbox_item i d) = outbox_seq d"
  "streams (complete_outbox_item i d) = streams d" "outbox_seq (complete_outbox_item i d) = outbox_seq d"
  "streams (retry_outbox_item i a t reason d) = streams d" "outbox_seq (retry_outbox_item i a t reason d) = outbox_seq d"
  "streams (retry_item now item reason d) = streams d" "outbox_seq (retry_item now item reason d) = outbox_seq d"
  by (simp_all add: complete_outbox_item_def cancel_outbox_item_def remove_pending_item_def
    block_outbox_item_def retry_item_def retry_outbox_item_def update_pending_item_def)

text \<open>Why an item had its outcome, in terms of its payload, the stored stream and the receiver.\<close>

definition outcome_reason ::
  "crypto_lib \<Rightarrow> settings \<Rightarrow> network \<Rightarrow> tick \<Rightarrow> outbox_item \<Rightarrow> db \<Rightarrow> http_request list \<Rightarrow> outcome \<Rightarrow> http_request list \<Rightarrow> bool" where
  "outcome_reason lib cfg reply tk item d sent oc sent' \<longleftrightarrow>
     (case oc of
        Unreadable \<Rightarrow> \<not> is_ok (decrypt_outbox_payload lib cfg item) \<and> sent' = sent
      | Malformed \<Rightarrow> (\<exists>p. decrypt_outbox_payload lib cfg item = Inr p \<and> \<not> valid_payload p) \<and> sent' = sent
      | Cancelled \<Rightarrow> (\<exists>p. decrypt_outbox_payload lib cfg item = Inr p \<and>
          (\<forall>st. get_stream_by_id lib cfg (item_stream_id item) d = Inr (Some st) \<longrightarrow> \<not> payload_matches_stream p st))
          \<and> sent' = sent
      | _ \<Rightarrow> (\<exists>p st. decrypt_outbox_payload lib cfg item = Inr p \<and> valid_payload p
          \<and> get_stream_by_id lib cfg (item_stream_id item) d = Inr (Some st) \<and> payload_matches_stream p st
          \<and> (if oc = Paused then status st \<noteq> ''enabled'' \<and> sent' = sent
             else status st = ''enabled'' \<and>
               (sent' = sent \<and> oc \<noteq> Delivered
                \<or> sent' = sent @ [set_request st (str_val (dget p ''token''))]
                  \<and> safe_target cfg (t_dns tk) (endpoint_url st)
                  \<and> (oc = Delivered \<longrightarrow> (\<exists>code. reply sent (set_request st (str_val (dget p ''token''))) = Response code
                        \<and> 200 \<le> code \<and> code < 300))))))"

lemma timed_push_cases:
  assumes "timed_push cfg reply tk st tok u sent = (r, sent')"
  shows "sent' = sent \<and> r \<noteq> Some (Returned True)
    \<or> sent' = sent @ [set_request st tok] \<and> safe_target cfg (t_dns tk) (endpoint_url st)
      \<and> (r = Some (Returned True) \<longrightarrow>
           (\<exists>code. reply sent (set_request st tok) = Response code \<and> 200 \<le> code \<and> code < 300))"
proof -
  obtain q s where q: "push_signed_set cfg (t_dns tk) reply st tok u sent = (q, s)" by (cases "push_signed_set cfg (t_dns tk) reply st tok u sent")
  then have s: "s = (if safe_target cfg (t_dns tk) (endpoint_url st) then sent @ [set_request st tok] else sent)"
    using push_signed_set_sent [of cfg "t_dns tk" reply st tok u sent] by simp
  have d: "q = Returned True \<longleftrightarrow> safe_target cfg (t_dns tk) (endpoint_url st) \<and>
     (\<exists>code. reply sent (set_request st tok) = Response code \<and> 200 \<le> code \<and> code < 300)"
    using push_signed_set_delivered [of cfg "t_dns tk" reply st tok u sent] q by simp
  show ?thesis
    using assms q s d by (auto simp: timed_push_def split: deadline.splits if_splits)
qed

lemma deliver_item_result:
  assumes "deliver_item lib cfg reply tk item d sent = Inr (oc, d', sent')"
  shows "streams d' = streams d \<and> outbox_seq d' = outbox_seq d
    \<and> outbox d' = outbox_after tk item oc (outbox d)
    \<and> outcome_reason lib cfg reply tk item d sent oc sent'"
proof (cases "decrypt_outbox_payload lib cfg item")
  case (Inl e)
  with assms show ?thesis
    by (auto simp: deliver_item_def outcome_reason_def outbox_after_ops)
next
  case (Inr p)
  show ?thesis
  proof (cases "valid_payload p")
    case False
    with assms Inr show ?thesis
      by (auto simp: deliver_item_def outcome_reason_def outbox_after_ops)
  next
    case True
    with assms Inr obtain found where found: "get_stream_by_id lib cfg (item_stream_id item) d = Inr found"
      by (auto simp: deliver_item_def ebind_Inr_iff)
    show ?thesis
    proof (cases "\<exists>st. found = Some st \<and> payload_matches_stream p st")
      case False
      with assms Inr True found show ?thesis
        by (auto simp: deliver_item_def outcome_reason_def outbox_after_ops split: option.splits)
    next
      case True': True
      then obtain st where st: "found = Some st" "payload_matches_stream p st" by blast
      obtain r s where push: "timed_push cfg reply tk st (str_val (dget p ''token'')) (str_val (dget p ''event_uri'')) sent = (r, s)"
        by fastforce
      note reason = timed_push_cases [OF push]
      from assms Inr True found st push show ?thesis
        using reason
        by (cases "status st = ''enabled''"; cases r; (cases "the r")?)
           (auto simp: deliver_item_def outcome_reason_def outbox_after_ops split: bool.splits)
    qed
  qed
qed

lemma outbox_after_in:
  "r' \<in> set (outbox_after tk item oc rs) \<longleftrightarrow>
     (\<exists>r \<in> set rs. (if o_id r = item_id item \<and> pending r then row_after tk item oc r = Some r' else r' = r))"
  unfolding outbox_after_def by (induction rs) (auto simp: List.map_filter_simps split: option.splits)

lemma row_after_keeps:
  "row_after tk item oc r = Some r' \<Longrightarrow>
     o_id r' = o_id r \<and> o_payload r' = o_payload r \<and> o_stream_id r' = o_stream_id r \<and> o_created_at r' = o_created_at r
     \<and> (pending r \<longrightarrow> known_status r')"
  by (cases oc) (auto simp: row_after_def Let_def known_status_def pending_def blocked_def)

lemma row_after_None: "row_after tk item oc r = None \<longleftrightarrow> oc = Delivered \<or> oc = Cancelled"
  by (cases oc) (simp_all add: row_after_def Let_def)

lemma outbox_after_keeps_row:
  assumes "r \<in> set rs" "\<not> (o_id r = item_id item \<and> pending r \<and> oc \<in> {Delivered, Cancelled})"
  shows "\<exists>r' \<in> set (outbox_after tk item oc rs). o_id r' = o_id r \<and> o_payload r' = o_payload r \<and> o_stream_id r' = o_stream_id r"
proof (cases "o_id r = item_id item \<and> pending r")
  case True
  with assms(2) obtain r' where "row_after tk item oc r = Some r'" using row_after_None by fastforce
  with True assms(1) have "r' \<in> set (outbox_after tk item oc rs)" unfolding outbox_after_in by (intro bexI [of _ r]) simp_all
  then show ?thesis using row_after_keeps [OF \<open>row_after tk item oc r = Some r'\<close>] by blast
next
  case False
  with assms(1) have "r \<in> set (outbox_after tk item oc rs)" unfolding outbox_after_in by (intro bexI [of _ r]) auto
  then show ?thesis by blast
qed

lemma outbox_after_db:
  assumes "db_ok d"
  shows "\<exists>e. db_ok e \<and> streams e = streams d \<and> outbox_seq e = outbox_seq d \<and> outbox e = outbox_after tk item oc (outbox d)"
proof -
  note ops = item_ops_ok [OF assms]
  have r: "db_ok (retry_item (t_end tk) item reason d)" for reason
    by (simp add: retry_item_def Let_def ops)
  show ?thesis
    by (cases oc) (use r ops outbox_after_ops [where tk = tk and item = item and d = d, symmetric] in \<open>metis table_ops_streams\<close>)+
qed

lemma deliver_item_ok [keeps]:
  assumes "db_ok d" "deliver_item lib cfg reply tk item d sent = Inr (oc, d', sent')"
  shows "db_ok d'"
proof -
  from deliver_item_result [OF assms(2)] outbox_after_db [OF assms(1), of tk item oc]
  obtain e where "db_ok e" "streams e = streams d'" "outbox_seq e = outbox_seq d'" "outbox e = outbox d'" by auto
  then show ?thesis by (simp add: db_ok_def)
qed

section \<open>One pass\<close>

lemma deliver_items_ok:
  assumes "\<And>n d. db_ok d \<Longrightarrow> db_ok (t_others (tk n) d)" "db_ok d"
    and "deliver_items lib cfg reply tk n items k d sent = (e, k', d', sent')"
  shows "db_ok d' \<and> k' \<le> k + length items \<and> (\<exists>new. sent' = sent @ new \<and> length new \<le> k' - k) \<and> k \<le> k'"
  using assms(2,3)
proof (induction items arbitrary: n k d sent)
  case (Cons item items)
  show ?case
  proof (cases "t_stop_outer (tk n) \<or> t_stop_inner (tk n)")
    case True
    with Cons.prems assms(1) show ?thesis by (auto simp: Let_def split: if_splits)
  next
    case False
    let ?d = "t_others (tk n) d"
    have d: "db_ok ?d" using assms(1) Cons.prems by blast
    show ?thesis
    proof (cases "get_due_outbox_item (t_now (tk n)) (item_id item) ?d")
      case None
      with False Cons.prems(2) have "deliver_items lib cfg reply tk (Suc n) items k ?d sent = (e, k', d', sent')"
        by simp
      from Cons.IH [OF d this] show ?thesis by auto
    next
      case (Some current)
      show ?thesis
      proof (cases "deliver_item lib cfg reply (tk n) current ?d sent")
        case (Inl e')
        with Some False Cons.prems(2) d show ?thesis by auto
      next
        case (Inr r)
        then obtain oc d1 s1 where r: "deliver_item lib cfg reply (tk n) current ?d sent = Inr (oc, d1, s1)"
          by (cases r) auto
        with Some False Cons.prems(2)
        have rest: "deliver_items lib cfg reply tk (Suc n) items (Suc k) d1 s1 = (e, k', d', sent')" by simp
        have "\<exists>new. s1 = sent @ new \<and> length new \<le> 1"
          using deliver_item_result [OF r] by (auto simp: outcome_reason_def split: outcome.splits if_splits)
        with Cons.IH [OF deliver_item_ok [OF d r] rest] show ?thesis by auto
      qed
    qed
  qed
qed simp

section \<open>From queueing to delivery\<close>

lemma sign_pairs_ok:
  "sign_pairs lib cfg kf fr n email ps = Inr ds \<Longrightarrow>
     list_all2 (\<lambda>(st, e) (st', p). st' = st \<and>
       (\<exists>m tok. sign_mapped lib cfg kf (fr m) st e email = Inr tok \<and> p = delivery_payload_of st e tok)) ps ds"
proof (induction ps arbitrary: n ds)
  case (Cons x ps)
  obtain st e where "x = (st, e)" by (cases x)
  with Cons show ?case by (auto simp: ebind_Inr_iff)
qed simp

lemma is_str_plain: "is_str v \<Longrightarrow> plain v"
  by (cases v) (simp_all add: is_str_def)

lemma delivery_payload_plain:
  "list_all is_str (events_requested st) \<Longrightarrow> plain (JObj (delivery_payload_of st e tok))"
  by (auto simp: delivery_payload_of_def plain_items_iff list_all_iff intro: is_str_plain)

lemma delivery_payload_valid:
  "list_all is_str (events_requested st) \<Longrightarrow>
     valid_payload (delivery_payload_of st e tok) \<and> payload_matches_stream (delivery_payload_of st e tok) st"
  by (simp add: valid_payload_def payload_matches_stream_def delivery_payload_of_def is_str_def)

text \<open>
  The promise of a queued row: at any later time, whatever happened to the tables and to the number of
  its attempts, as long as the stream is stored as it was, processing the row is pushing its token.
  One request goes out, with the token and to the stream's own endpoint, if the endpoint passes
  revalidation and the deadline does not strike before. The row is removed exactly when that request is
  answered with success in time; after anything else (a refusal, an exception, a deadline, an endpoint
  that is no longer safe) it stays with its payload, with one attempt more and a delay that doubles from
  five seconds up to an hour. No other row changes.
\<close>

definition rescheduled :: "int \<Rightarrow> nat \<Rightarrow> pystr \<Rightarrow> outbox_row \<Rightarrow> outbox_row" where
  "rescheduled now attempts reason r =
     r\<lparr>o_attempts := attempts + 1, o_next_attempt_at := now + min 3600 (5 * 2 ^ min attempts 10), o_last_error := Some reason\<rparr>"

definition deliverable :: "crypto_lib \<Rightarrow> settings \<Rightarrow> stream \<Rightarrow> pystr \<Rightarrow> outbox_row \<Rightarrow> bool" where
  "deliverable lib cfg st tok r \<longleftrightarrow>
     (\<forall>r' e reply tk sent.
        o_id r' = o_id r \<and> o_payload r' = o_payload r \<and> o_stream_id r' = o_stream_id r
        \<and> get_stream_by_id lib cfg (o_stream_id r) e = Inr (Some st) \<longrightarrow>
        (let target = safe_target cfg (t_dns tk) (endpoint_url st);
             acknowledged = (target \<and> t_deadline tk = InTime
               \<and> (\<exists>code. reply sent (set_request st tok) = Response code \<and> 200 \<le> code \<and> code < 300))
         in \<exists>oc e' reason.
              deliver_item lib cfg reply tk (row_to_item r') e sent =
                Inr (oc, e', if target \<and> t_deadline tk \<noteq> BeforeSend then sent @ [set_request st tok] else sent)
              \<and> (oc = Delivered \<longleftrightarrow> acknowledged) \<and> streams e' = streams e
              \<and> outbox e' =
                  (if acknowledged then filter (\<lambda>x. \<not> (o_id x = o_id r \<and> pending x)) (outbox e)
                   else map (\<lambda>x. if o_id x = o_id r \<and> pending x then rescheduled (t_end tk) (o_attempts r') reason x else x) (outbox e))))"

lemma retry_item_outbox:
  "outbox (retry_item now item reason d) =
     map (\<lambda>x. if o_id x = item_id item \<and> pending x then rescheduled now (item_attempts item) reason x else x) (outbox d)"
  by (simp add: retry_item_def retry_outbox_item_def update_pending_item_def Let_def rescheduled_def retry_delay_def
      RETRY_BASE_SECONDS_def RETRY_MAX_SECONDS_def)

lemma complete_item_outbox: "outbox (complete_outbox_item i d) = filter (\<lambda>x. \<not> (o_id x = i \<and> pending x)) (outbox d)"
  by (simp add: complete_outbox_item_def remove_pending_item_def)

text \<open>What a push under its deadline sends, and when it counts as delivered.\<close>

lemma timed_push_spec:
  defines "target cfg tk st \<equiv> safe_target cfg (t_dns tk) (endpoint_url st)"
  shows "snd (timed_push cfg reply tk st tok u sent)
      = (if target cfg tk st \<and> t_deadline tk \<noteq> BeforeSend then sent @ [set_request st tok] else sent)"
    and "fst (timed_push cfg reply tk st tok u sent) = Some (Returned True) \<longleftrightarrow>
      target cfg tk st \<and> t_deadline tk = InTime
      \<and> (\<exists>code. reply sent (set_request st tok) = Response code \<and> 200 \<le> code \<and> code < 300)"
proof -
  obtain q s where q: "push_signed_set cfg (t_dns tk) reply st tok u sent = (q, s)" by fastforce
  have s: "s = (if target cfg tk st then sent @ [set_request st tok] else sent)"
    using push_signed_set_sent [of cfg "t_dns tk" reply st tok u sent] q by (simp add: target_def)
  have d: "q = Returned True \<longleftrightarrow> target cfg tk st \<and> (\<exists>code. reply sent (set_request st tok) = Response code \<and> 200 \<le> code \<and> code < 300)"
    using push_signed_set_delivered [of cfg "t_dns tk" reply st tok u sent] q by (simp add: target_def)
  show "snd (timed_push cfg reply tk st tok u sent) = (if target cfg tk st \<and> t_deadline tk \<noteq> BeforeSend then sent @ [set_request st tok] else sent)"
    "fst (timed_push cfg reply tk st tok u sent) = Some (Returned True) \<longleftrightarrow> target cfg tk st \<and> t_deadline tk = InTime
      \<and> (\<exists>code. reply sent (set_request st tok) = Response code \<and> 200 \<le> code \<and> code < 300)"
    using q s d by (auto simp: timed_push_def split: deadline.splits)
qed

lemma deliver_item_ready:
  assumes "decrypt_outbox_payload lib cfg item = Inr (delivery_payload_of st e tok)" "list_all is_str (events_requested st)"
    and "get_stream_by_id lib cfg (item_stream_id item) d = Inr (Some st)" "status st = ''enabled''"
  shows "deliver_item lib cfg reply tk item d sent =
    (case timed_push cfg reply tk st tok (uri e) sent of
       (None, s) \<Rightarrow> Inr (TimedOut, retry_item (t_end tk) item ''delivery_timeout'' d, s)
     | (Some Raised, s) \<Rightarrow> Inr (PushError, retry_item (t_end tk) item ''delivery_error'' d, s)
     | (Some (Returned True), s) \<Rightarrow> Inr (Delivered, complete_outbox_item (item_id item) d, s)
     | (Some (Returned False), s) \<Rightarrow> Inr (Refused, retry_item (t_end tk) item ''delivery_failed'' d, s))"
proof -
  have "str_val (dget (delivery_payload_of st e tok) ''token'') = tok"
    "str_val (dget (delivery_payload_of st e tok) ''event_uri'') = uri e" by (simp_all add: delivery_payload_of_def)
  then show ?thesis using assms delivery_payload_valid [OF assms(2), of e tok] by (simp add: deliver_item_def)
qed

lemma deliverableI:
  assumes "decrypt_outbox_payload lib cfg (row_to_item r) = Inr (delivery_payload_of st e tok)"
    and "list_all is_str (events_requested st)" "status st = ''enabled''"
  shows "deliverable lib cfg st tok r"
  unfolding deliverable_def
proof (intro allI impI)
  fix r' :: outbox_row and d and reply :: network and tk sent
  assume r': "o_id r' = o_id r \<and> o_payload r' = o_payload r \<and> o_stream_id r' = o_stream_id r
    \<and> get_stream_by_id lib cfg (o_stream_id r) d = Inr (Some st)"
  let ?item = "row_to_item r'"
  have item: "item_id ?item = o_id r" "item_attempts ?item = o_attempts r'" "item_stream_id ?item = o_stream_id r"
    using r' by (simp_all add: row_to_item_def)
  have "decrypt_outbox_payload lib cfg ?item = Inr (delivery_payload_of st e tok)"
    using assms(1) r' by (simp add: row_to_item_def decrypt_outbox_payload_def)
  from deliver_item_ready [OF this assms(2) _ assms(3), of d reply tk sent] r' item
  have go: "deliver_item lib cfg reply tk ?item d sent =
    (case timed_push cfg reply tk st tok (uri e) sent of
       (None, s) \<Rightarrow> Inr (TimedOut, retry_item (t_end tk) ?item ''delivery_timeout'' d, s)
     | (Some Raised, s) \<Rightarrow> Inr (PushError, retry_item (t_end tk) ?item ''delivery_error'' d, s)
     | (Some (Returned True), s) \<Rightarrow> Inr (Delivered, complete_outbox_item (item_id ?item) d, s)
     | (Some (Returned False), s) \<Rightarrow> Inr (Refused, retry_item (t_end tk) ?item ''delivery_failed'' d, s))" by simp
  note push = timed_push_spec [of cfg reply tk st tok "uri e" sent]
  obtain q s where q: "timed_push cfg reply tk st tok (uri e) sent = (q, s)" by fastforce
  consider "q = None" | "q = Some Raised" | "q = Some (Returned True)" | "q = Some (Returned False)"
    by (metis (full_types) not_None_eq push_result.exhaust)
  then show "let target = safe_target cfg (t_dns tk) (endpoint_url st);
         acknowledged = (target \<and> t_deadline tk = InTime
           \<and> (\<exists>code. reply sent (set_request st tok) = Response code \<and> 200 \<le> code \<and> code < 300))
     in \<exists>oc e' reason.
          deliver_item lib cfg reply tk ?item d sent =
            Inr (oc, e', if target \<and> t_deadline tk \<noteq> BeforeSend then sent @ [set_request st tok] else sent)
          \<and> (oc = Delivered \<longleftrightarrow> acknowledged) \<and> streams e' = streams d
          \<and> outbox e' =
              (if acknowledged then filter (\<lambda>x. \<not> (o_id x = o_id r \<and> pending x)) (outbox d)
               else map (\<lambda>x. if o_id x = o_id r \<and> pending x then rescheduled (t_end tk) (o_attempts r') reason x else x) (outbox d))"
    unfolding Let_def push(2) [symmetric] push(1) [symmetric] go
    by cases (auto simp: q retry_item_outbox complete_item_outbox item)
qed

lemma rows_deliverable:
  assumes "\<forall>(st, e) \<in> set ps. list_all is_str (events_requested st)"
    and "list_all2 (\<lambda>(st, e) (st', p). st' = st \<and>
       (\<exists>m tok. sign_mapped lib cfg kf (fr m) st e email = Inr tok \<and> p = delivery_payload_of st e tok)) ps ds"
    and "list_all2 (readable_as lib cfg) ds rows"
    and "\<forall>(st, p) \<in> set ds. status st = ''enabled'' \<and> get_stream_by_id lib cfg (stream_id st) d = Inr (Some st)"
    and "\<forall>r \<in> set rows. due now r \<and> o_attempts r = 0"
  shows "list_all2 (\<lambda>(st, e) r. \<exists>m tok. sign_mapped lib cfg kf (fr m) st e email = Inr tok
           \<and> get_stream_by_id lib cfg (o_stream_id r) d = Inr (Some st) \<and> due now r \<and> o_attempts r = 0
           \<and> deliverable lib cfg st tok r) ps rows"
  using assms(2,3,1,4,5)
proof (induction ps ds arbitrary: rows rule: list_all2_induct)
  case (Cons x ps y ds)
  obtain st e where x: "x = (st, e)" by (cases x)
  from Cons.hyps(1) x obtain m tok where y: "y = (st, delivery_payload_of st e tok)"
    "sign_mapped lib cfg kf (fr m) st e email = Inr tok" by (cases y) auto
  from Cons.prems(1) obtain r rs where rows: "rows = r # rs" "readable_as lib cfg y r"
    "list_all2 (readable_as lib cfg) ds rs" by (auto simp: list_all2_Cons1)
  have "deliverable lib cfg st tok r"
    using rows(2) Cons.prems(2,3) x y(1) by (intro deliverableI [of _ _ _ _ e]) (auto simp: readable_as_def)
  moreover have "get_stream_by_id lib cfg (o_stream_id r) d = Inr (Some st)"
    using rows(2) Cons.prems(3) y(1) by (auto simp: readable_as_def)
  ultimately show ?case using Cons.IH [OF rows(3)] Cons.prems(2-4) x y rows(1) by auto
qed simp

lemma new_rows_due: "r \<in> set (new_rows lib cfg now nonce n ds) \<Longrightarrow> due now r \<and> o_attempts r = 0"
  by (induction ds arbitrary: nonce n) (auto simp: due_def pending_def)

lemma enqueued_due:
  assumes "enqueue_outbox lib cfg now nonce ds d = Inr (k, d')" "outbox d' = outbox d @ rows" "r \<in> set rows"
  shows "due now r \<and> o_attempts r = 0"
  using assms(1) by (cases rule: enqueue_outbox_cases) (use assms(2,3) new_rows_due in auto)

lemma get_stream_by_id_cong: "streams d' = streams d \<Longrightarrow> get_stream_by_id lib cfg sid d' = get_stream_by_id lib cfg sid d"
  by (simp add: get_stream_by_id_def find_row_def)

lemma wanted_pairs_streams: "(st, e) \<in> set (wanted_pairs sts es) \<Longrightarrow> st \<in> set sts \<and> e \<in> set es \<and> wants_event st e"
  by (auto simp: wanted_pairs_def)

lemma signed_payloads_plain:
  assumes "list_all2 (\<lambda>(st, e) (st', p). st' = st \<and>
       (\<exists>m tok. sign_mapped lib cfg kf (fr m) st e email = Inr tok \<and> p = delivery_payload_of st e tok)) ps ds"
    and "\<forall>(st, e) \<in> set ps. list_all is_str (events_requested st)"
  shows "\<forall>(st, p) \<in> set ds. plain (JObj p)"
  using assms
proof (induction ps ds rule: list_all2_induct)
  case (Cons x ps y ds)
  then show ?case
    by (cases x; cases y) (auto simp del: plain.simps intro: delivery_payload_plain)
qed simp

lemma enqueue_events_rows:
  assumes "fernet_laws lib" "\<forall>st \<in> set sts. list_all is_str (events_requested st)"
    and "enqueue_events lib cfg kf fr now nonce sts es email d = Inr (k, d')"
  shows "k = length (wanted_pairs sts es) \<and>
    (\<exists>rows. outbox d' = outbox d @ rows \<and>
      list_all2 (\<lambda>(st, e) r. \<exists>m tok. sign_mapped lib cfg kf (fr m) st e email = Inr tok
         \<and> get_stream_by_id lib cfg (o_stream_id r) d' = Inr (Some st) \<and> due now r \<and> o_attempts r = 0
         \<and> deliverable lib cfg st tok r) (wanted_pairs sts es) rows)"
proof -
  from assms(3) obtain ds where ds: "sign_pairs lib cfg kf fr 0 email (wanted_pairs sts es) = Inr ds"
    "enqueue_outbox lib cfg now nonce ds d = Inr (k, d')"
    by (auto simp: enqueue_events_def split: sum.splits)
  note signed = sign_pairs_ok [OF ds(1)]
  have str: "\<forall>(st, e) \<in> set (wanted_pairs sts es). list_all is_str (events_requested st)"
    using assms(2) by (auto dest: wanted_pairs_streams)
  have "\<forall>(st, p) \<in> set ds. plain (JObj p)"
    by (rule signed_payloads_plain [OF signed str])
  from enqueue_outbox_durable_lemma [OF assms(1) this ds(2)] obtain rows where rows: "k = length ds" "streams d' = streams d"
    "\<forall>(st, p) \<in> set ds. status st = ''enabled'' \<and> get_stream_by_id lib cfg (stream_id st) d = Inr (Some st)"
    "outbox d' = outbox d @ rows" "list_all2 (readable_as lib cfg) ds rows" by blast
  have "\<forall>(st, p) \<in> set ds. status st = ''enabled'' \<and> get_stream_by_id lib cfg (stream_id st) d' = Inr (Some st)"
    using rows(3) by (simp add: get_stream_by_id_cong [OF rows(2)])
  from rows_deliverable [OF str signed rows(5) this, of now] enqueued_due [OF ds(2) rows(4)] rows(1,4) list_all2_lengthD [OF signed]
  show ?thesis by auto
qed

section \<open>Properties\<close>

text \<open>
  No queued token is lost: processing one item leaves every row in the queue with its payload,
  except the item's own row when the receiver answered its request with a success status, or when
  the stored stream is gone or no longer the one the payload was made for.
\<close>

theorem deliver_item_at_least_once:
  assumes "deliver_item lib cfg reply tk item d sent = Inr (oc, d', sent')" "r \<in> set (outbox d)"
  shows "(\<exists>r' \<in> set (outbox d'). o_id r' = o_id r \<and> o_payload r' = o_payload r \<and> o_stream_id r' = o_stream_id r)
    \<or> (o_id r = item_id item \<and> (\<exists>p. decrypt_outbox_payload lib cfg item = Inr p \<and>
         ((\<exists>st code. get_stream_by_id lib cfg (item_stream_id item) d = Inr (Some st)
             \<and> reply sent (set_request st (str_val (dget p ''token''))) = Response code \<and> 200 \<le> code \<and> code < 300
             \<and> sent' = sent @ [set_request st (str_val (dget p ''token''))])
          \<or> (\<forall>st. get_stream_by_id lib cfg (item_stream_id item) d = Inr (Some st) \<longrightarrow> \<not> payload_matches_stream p st))))"
proof (cases "o_id r = item_id item \<and> pending r \<and> oc \<in> {Delivered, Cancelled}")
  case False
  then show ?thesis
    using outbox_after_keeps_row [OF assms(2)] deliver_item_result [OF assms(1)] by auto
next
  case True
  then show ?thesis
    using deliver_item_result [OF assms(1)] by (fastforce simp: outcome_reason_def)
qed

definition example_event :: mapped_event where
  "example_event = session_revoked_event 200 (Some ''txn-1'')"

definition example_keys :: key_files where
  "example_keys = ensure_keys example_key \<lparr>private_pem = None, jwks_file = None\<rparr>"

definition example_fresh :: "nat \<Rightarrow> fresh" where
  "example_fresh n = \<lparr>f_now = 200, f_jti = nat_str n, f_txn = ''t''\<rparr>"

definition public_dns :: resolver where
  "public_dns host = Addresses [''93.184.216.34'']"

definition ok_network :: network where
  "ok_network sent req = Response 202"

definition example_tick :: tick where
  "example_tick = \<lparr>t_now = 300, t_end = 301, t_dns = public_dns, t_deadline = InTime,
     t_stop_outer = False, t_stop_inner = False, t_others = (\<lambda>d. d)\<rparr>"

lemma example_signed: "sign_mapped toy_lib example_settings example_keys (example_fresh n) example_stream example_event ''a@b.c''
    = Inr (json_dumps (JArr [set_claims example_settings 200 (nat_str n) ''t'' SESSION_REVOKED (aud example_stream) ''a@b.c''
        (Some (event_payload example_event)) (Some ''txn-1''), set_headers (JStr ''01234567'')]))"
proof -
  have "load_signing_material example_keys = Inr (''PEM'', JStr ''01234567'')"
    using ensure_keys_material [of "\<lparr>private_pem = None, jwks_file = None\<rparr>" example_key]
    by (simp add: example_keys_def example_key_def)
  then show ?thesis
    by (simp add: sign_mapped_def sign_set_def jwt_sign_def toy_lib_def example_event_def session_revoked_event_def
        example_fresh_def)
qed

definition example_token :: pystr where
  "example_token = projr (sign_mapped toy_lib example_settings example_keys (example_fresh 0) example_stream example_event ''a@b.c'')"

definition example_delivery :: "stream \<times> pydict" where
  "example_delivery = (example_stream, delivery_payload_of example_stream example_event example_token)"

definition example_row :: outbox_row where
  "example_row = hd (new_rows toy_lib example_settings 200 1 0 [example_delivery])"

definition pushed_db :: db where
  "pushed_db = saved_db\<lparr>outbox := [example_row], outbox_seq := 1\<rparr>"

lemma example_stream_strings: "list_all is_str (events_requested example_stream)"
  by (simp add: example_stream_def is_str_def)

lemma example_enqueue_events:
  "enqueue_events toy_lib example_settings example_keys example_fresh 200 1 [example_stream] [example_event] ''a@b.c'' saved_db
     = Inr (1, pushed_db)"
proof -
  have w: "wanted_pairs [example_stream] [example_event] = [(example_stream, example_event)]"
    by (simp add: wanted_pairs_def wants_event_def example_stream_def example_event_def session_revoked_event_def
        SESSION_REVOKED_def)
  have "sign_mapped toy_lib example_settings example_keys (example_fresh 0) example_stream example_event ''a@b.c'' = Inr example_token"
    by (simp add: example_token_def example_signed)
  then have s: "sign_pairs toy_lib example_settings example_keys example_fresh 0 ''a@b.c''
      (wanted_pairs [example_stream] [example_event]) = Inr [example_delivery]"
    by (simp add: w example_delivery_def)
  have c: "check_streams_unchanged toy_lib example_settings [example_delivery] saved_db = Inr ()"
    using find_saved row_to_stream_stored [OF toy_lib_laws storable_example]
    by (auto simp: check_streams_unchanged_ok example_delivery_def example_stream_def)
  have o: "outbox saved_db = []" "outbox_seq saved_db = 0"
    by (simp_all add: saved_db_def save_stream_def empty_db_def)
  have "enqueue_outbox toy_lib example_settings 200 1 [example_delivery] saved_db = Inr (1, pushed_db)"
    using c o by (simp add: enqueue_outbox_def MAX_OUTBOX_ITEMS_def pushed_db_def example_row_def example_delivery_def)
  then show ?thesis by (simp add: enqueue_events_def s)
qed

lemma example_safe_target: "safe_target example_settings public_dns (endpoint_url example_stream)"
proof -
  have "safe_hostname ''https://a.example.com/events'' = ''a.example.com''" by code_simp
  moreover have "\<not> is_blocked_ip ''93.184.216.34''" by code_simp
  ultimately show ?thesis
    by (simp add: safe_target_def example_stream_def example_settings_def public_dns_def not_is_blocked_ip [symmetric])
qed

lemma example_deliver:
  "deliver_item toy_lib example_settings ok_network example_tick (row_to_item example_row) pushed_db []
     = Inr (Delivered, complete_outbox_item 1 pushed_db, [set_request example_stream example_token])"
proof -
  have "decrypt_outbox_payload toy_lib example_settings (row_to_item example_row)
      = Inr (delivery_payload_of example_stream example_event example_token)"
    by (rule decrypt_outbox_payload_stored [OF toy_lib_laws delivery_payload_plain [OF example_stream_strings]])
       (simp add: example_row_def example_delivery_def row_to_item_def)
  moreover have "get_stream_by_id toy_lib example_settings (item_stream_id (row_to_item example_row)) pushed_db = Inr (Some example_stream)"
    using find_saved row_to_stream_stored [OF toy_lib_laws storable_example]
    by (simp add: get_stream_by_id_def find_row_def pushed_db_def example_row_def example_delivery_def example_stream_def row_to_item_def)
  moreover have "status example_stream = ''enabled''" by (simp add: example_stream_def)
  moreover have "item_id (row_to_item example_row) = 1" by (simp add: example_row_def example_delivery_def row_to_item_def)
  moreover have "push_signed_set example_settings public_dns ok_network example_stream example_token u []
      = (Returned True, [set_request example_stream example_token])" for u
    using example_safe_target unfolding revalidate_True [symmetric]
    by (simp add: push_signed_set_def post_set_def ok_network_def)
  ultimately show ?thesis
    by (simp add: deliver_item_ready [OF _ example_stream_strings] timed_push_def example_tick_def)
qed

theorem deliver_item_at_least_once_witness:
  "example_row \<in> set (outbox pushed_db) \<and> outbox (complete_outbox_item 1 pushed_db) = []
   \<and> (\<exists>p st code. get_stream_by_id toy_lib example_settings (item_stream_id (row_to_item example_row)) pushed_db = Inr (Some st)
        \<and> ok_network [] (set_request st (str_val (dget p ''token''))) = Response code \<and> 200 \<le> code)"
proof -
  have r: "example_row \<in> set (outbox pushed_db)" by (simp add: pushed_db_def)
  have e: "outbox (complete_outbox_item 1 pushed_db) = []"
    by (simp add: complete_outbox_item_def remove_pending_item_def pushed_db_def example_row_def example_delivery_def pending_def)
  have "get_stream_by_id toy_lib example_settings (item_stream_id (row_to_item example_row)) pushed_db = Inr (Some example_stream)"
    using find_saved row_to_stream_stored [OF toy_lib_laws storable_example]
    by (simp add: get_stream_by_id_def find_row_def pushed_db_def example_row_def example_delivery_def example_stream_def row_to_item_def)
  then show ?thesis
    using deliver_item_at_least_once [OF example_deliver r] e r by (auto simp: ok_network_def)
qed

text \<open>
  C10. From a webhook to the receiver: when the events of a webhook are queued, one row is appended
  per wanted pair of enabled stream and event, due at once, each holding a token signed for that stream
  and event. From then on, at whatever time and however often it was tried, delivering such a row while
  the stream is stored unchanged is exactly pushing its token: success in time removes the row, anything
  else, a deadline included, reschedules it (\<open>deliverable\<close>).
\<close>

theorem enqueued_events_deliverable:
  assumes "fernet_laws lib" "\<forall>st \<in> set sts. list_all is_str (events_requested st)"
    and "enqueue_events lib cfg kf fr now nonce sts es email d = Inr (k, d')"
  shows "k = length (wanted_pairs sts es) \<and>
    (\<exists>rows. outbox d' = outbox d @ rows \<and>
      list_all2 (\<lambda>(st, e) r. \<exists>m tok. sign_mapped lib cfg kf (fr m) st e email = Inr tok
         \<and> get_stream_by_id lib cfg (o_stream_id r) d' = Inr (Some st) \<and> due now r \<and> o_attempts r = 0
         \<and> deliverable lib cfg st tok r) (wanted_pairs sts es) rows)"
  using assms by (rule enqueue_events_rows)

theorem enqueued_events_deliverable_witness:
  "enqueue_events toy_lib example_settings example_keys example_fresh 200 1 [example_stream] [example_event] ''a@b.c'' saved_db
     = Inr (1, pushed_db) \<and> length (wanted_pairs [example_stream] [example_event]) = 1"
  using enqueued_events_deliverable [OF toy_lib_laws _ example_enqueue_events] example_stream_strings example_enqueue_events
  by simp

text \<open>
  The retry delay starts at 5 seconds, doubles with every failed attempt, never decreases and
  never exceeds one hour.
\<close>

theorem retry_delay_backoff:
  "retry_delay 1 = 5 \<and> (\<forall>k. 5 \<le> retry_delay k \<and> retry_delay k \<le> 3600)
   \<and> (\<forall>k. retry_delay k \<le> retry_delay (Suc k))
   \<and> (\<forall>k. retry_delay (Suc (Suc k)) = min 3600 (2 * retry_delay (Suc k)))"
proof -
  have "retry_delay (Suc (Suc k)) = min 3600 (2 * retry_delay (Suc k))" for k
  proof (cases "k < 10")
    case True
    then show ?thesis
      by (simp add: retry_delay_def RETRY_BASE_SECONDS_def RETRY_MAX_SECONDS_def min_def)
  next
    case False
    then have "min k 10 = 10" "min (Suc k) 10 = 10" by simp_all
    then show ?thesis by (simp add: retry_delay_def RETRY_BASE_SECONDS_def RETRY_MAX_SECONDS_def)
  qed
  moreover have "retry_delay 1 = 5" by (simp add: retry_delay_def RETRY_BASE_SECONDS_def RETRY_MAX_SECONDS_def)
  ultimately show ?thesis using retry_delay_bounds retry_delay_mono [OF le_SucI [OF order_refl]] by blast
qed

text \<open>
  One pass of the worker is bounded and keeps the tables well formed: whatever other tasks do
  between the items, as long as they keep the table invariant, so does the pass; it tries at most
  25 items and sends at most one request per item tried.
\<close>

theorem deliver_pending_bounded:
  assumes "\<forall>n e. db_ok e \<longrightarrow> db_ok (t_others (tk n) e)" "db_ok d"
    and "deliver_pending lib cfg reply tk now d sent = (e, attempted, d', sent')"
  shows "db_ok d' \<and> attempted \<le> 25 \<and> (\<exists>new. sent' = sent @ new \<and> length new \<le> attempted)"
proof -
  have "length (get_due_outbox now 25 d) \<le> 25" by (simp add: get_due_outbox_def)
  then show ?thesis
    using deliver_items_ok [OF _ assms(2) assms(3) [unfolded deliver_pending_def]] assms(1) by fastforce
qed

theorem deliver_pending_bounded_witness:
  "let (e, attempted, d', sent') = deliver_pending toy_lib example_settings ok_network (\<lambda>n. example_tick) 300 pushed_db []
   in db_ok d' \<and> attempted \<le> 25"
proof -
  have "db_ok pushed_db"
    by (simp add: pushed_db_def db_ok_def saved_db_def save_stream_def empty_db_def example_row_def example_delivery_def
        known_status_def pending_def MAX_OUTBOX_ITEMS_def)
  moreover obtain e k d' s where
    eq: "deliver_pending toy_lib example_settings ok_network (\<lambda>n. example_tick) 300 pushed_db [] = (e, k, d', s)"
    by (metis prod_cases4)
  moreover have "t_others example_tick x = x" for x by (simp add: example_tick_def)
  ultimately show ?thesis
    using deliver_pending_bounded [OF _ _ eq] by simp
qed

end
