(* ===== verification/Delivery_Lock.thy ===== *)
theory Delivery_Lock
  imports Outbox
begin

text \<open>
  Interleaving of the delivery worker with the other tasks of the event loop. Every database call
  of \<^verbatim>\<open>deliver_pending\<close> and \<^verbatim>\<open>_deliver_item\<close> is a step of its own and may fail, which ends the pass; the
  tests of the stop event are where the code has them. The stream operations and the discarding of
  pending items wait for the lock of \<^verbatim>\<open>stream_operation_lock()\<close>, which the worker holds from before
  re-reading an item until its row is written back; queueing, requeueing and discarding blocked items
  take no lock and may happen between any two steps. Shown here: no interleaving makes the worker push
  to a stream that is not, at that moment, the stored one, and a token whose delivery was recorded is
  not sent again.
\<close>

section \<open>States and steps\<close>

text \<open>
  \<open>Idle\<close>: at the head of the loop over the items left, or, with none left, between two passes;
  \<open>Fetching\<close>: about to read the due items; \<open>Waiting\<close>: for the lock; \<open>Locked\<close>: lock taken, stop event not
  yet tested; \<open>Reading\<close>: about to read the item again; \<open>Holding\<close>: about to read its stream; then about
  to cancel, to postpone, to push, or to write the receiver's answer back.
\<close>

datatype worker =
    Idle "outbox_item list"
  | Fetching
  | Waiting outbox_item "outbox_item list"
  | Locked outbox_item "outbox_item list"
  | Reading outbox_item "outbox_item list"
  | Holding outbox_item "outbox_item list"
  | Cancelling outbox_item "outbox_item list"
  | Pausing outbox_item "outbox_item list"
  | Ready outbox_item pydict stream "outbox_item list"
  | Answered outbox_item "push_result option" "outbox_item list"

text \<open>A push as it happened: the tables at that moment, the stream, the item and its payload.\<close>

record push_event =
  pe_db :: db
  pe_stream :: stream
  pe_item :: outbox_item
  pe_payload :: pydict
  pe_result :: "push_result option"

record sys =
  sys_db :: db
  sys_worker :: worker
  sys_pushes :: "push_event list"
  sys_stop :: bool

fun lock_held :: "worker \<Rightarrow> bool" where
  "lock_held (Idle _) = False"
| "lock_held Fetching = False"
| "lock_held (Waiting _ _) = False"
| "lock_held _ = True"

text \<open>The states whose next step is a call of the database.\<close>

fun uses_database :: "worker \<Rightarrow> bool" where
  "uses_database (Idle _) = False"
| "uses_database (Waiting _ _) = False"
| "uses_database (Locked _ _) = False"
| "uses_database (Ready _ _ _ _) = False"
| "uses_database _ = True"

text \<open>Operations that hold the lock for their whole transaction, and those that take none.\<close>

inductive locked_op :: "crypto_lib \<Rightarrow> settings \<Rightarrow> db \<Rightarrow> db \<Rightarrow> bool" for lib cfg where
  save: "locked_op lib cfg d (save_stream lib cfg nonce st d)"
| update: "update_stream lib cfg nonce p d = Inr (res, d') \<Longrightarrow> locked_op lib cfg d d'"
| delete: "locked_op lib cfg d (snd (delete_stream_by_id sid d))"
| drop_pending: "locked_op lib cfg d (snd (delete_pending_outbox d))"

inductive free_op :: "crypto_lib \<Rightarrow> settings \<Rightarrow> db \<Rightarrow> db \<Rightarrow> bool" for lib cfg where
  enqueue: "enqueue_outbox lib cfg now nonce ds d = Inr (k, d') \<Longrightarrow> free_op lib cfg d d'"
| requeue: "free_op lib cfg d (snd (requeue_blocked_outbox now d))"
| drop_blocked: "free_op lib cfg d (snd (delete_blocked_outbox d))"

text \<open>The write that follows the receiver's answer.\<close>

definition write_back :: "int \<Rightarrow> outbox_item \<Rightarrow> push_result option \<Rightarrow> db \<Rightarrow> db" where
  "write_back now item r d =
     (case r of
        None \<Rightarrow> retry_item now item ''delivery_timeout'' d
      | Some Raised \<Rightarrow> retry_item now item ''delivery_error'' d
      | Some (Returned True) \<Rightarrow> complete_outbox_item (item_id item) d
      | Some (Returned False) \<Rightarrow> retry_item now item ''delivery_failed'' d)"

inductive worker_step :: "crypto_lib \<Rightarrow> settings \<Rightarrow> sys \<Rightarrow> sys \<Rightarrow> bool" for lib cfg where
  begin_pass: "sys_worker s = Idle [] \<Longrightarrow> \<not> sys_stop s \<Longrightarrow> worker_step lib cfg s (s\<lparr>sys_worker := Fetching\<rparr>)"
| fetch: "sys_worker s = Fetching \<Longrightarrow>
    worker_step lib cfg s (s\<lparr>sys_worker := Idle (get_due_outbox now 25 (sys_db s))\<rparr>)"
| give_up: "sys_worker s = Idle (item # items) \<Longrightarrow> sys_stop s \<Longrightarrow> worker_step lib cfg s (s\<lparr>sys_worker := Idle []\<rparr>)"
| next_item: "sys_worker s = Idle (item # items) \<Longrightarrow> \<not> sys_stop s \<Longrightarrow>
    worker_step lib cfg s (s\<lparr>sys_worker := Waiting item items\<rparr>)"
| acquire: "sys_worker s = Waiting item items \<Longrightarrow> worker_step lib cfg s (s\<lparr>sys_worker := Locked item items\<rparr>)"
| stopped: "sys_worker s = Locked item items \<Longrightarrow> sys_stop s \<Longrightarrow> worker_step lib cfg s (s\<lparr>sys_worker := Idle []\<rparr>)"
| go_on: "sys_worker s = Locked item items \<Longrightarrow> \<not> sys_stop s \<Longrightarrow> worker_step lib cfg s (s\<lparr>sys_worker := Reading item items\<rparr>)"
| gone: "sys_worker s = Reading item items \<Longrightarrow> get_due_outbox_item now (item_id item) (sys_db s) = None \<Longrightarrow>
    worker_step lib cfg s (s\<lparr>sys_worker := Idle items\<rparr>)"
| reread: "sys_worker s = Reading item items \<Longrightarrow> get_due_outbox_item now (item_id item) (sys_db s) = Some current \<Longrightarrow>
    worker_step lib cfg s (s\<lparr>sys_worker := Holding current items\<rparr>)"
| unreadable: "sys_worker s = Holding item items \<Longrightarrow> decrypt_outbox_payload lib cfg item = Inl e \<Longrightarrow>
    worker_step lib cfg s (s\<lparr>sys_db := block_outbox_item (item_id item) ''payload_decryption_failed'' (sys_db s),
                            sys_worker := Idle items\<rparr>)"
| malformed: "sys_worker s = Holding item items \<Longrightarrow> decrypt_outbox_payload lib cfg item = Inr p \<Longrightarrow> \<not> valid_payload p \<Longrightarrow>
    worker_step lib cfg s (s\<lparr>sys_db := block_outbox_item (item_id item) ''payload_invalid'' (sys_db s),
                            sys_worker := Idle items\<rparr>)"
| changed: "sys_worker s = Holding item items \<Longrightarrow> decrypt_outbox_payload lib cfg item = Inr p \<Longrightarrow> valid_payload p \<Longrightarrow>
    get_stream_by_id lib cfg (item_stream_id item) (sys_db s) = Inr found \<Longrightarrow>
    (\<And>st. found = Some st \<Longrightarrow> \<not> payload_matches_stream p st) \<Longrightarrow>
    worker_step lib cfg s (s\<lparr>sys_worker := Cancelling item items\<rparr>)"
| paused: "sys_worker s = Holding item items \<Longrightarrow> decrypt_outbox_payload lib cfg item = Inr p \<Longrightarrow> valid_payload p \<Longrightarrow>
    get_stream_by_id lib cfg (item_stream_id item) (sys_db s) = Inr (Some st) \<Longrightarrow> payload_matches_stream p st \<Longrightarrow>
    status st \<noteq> ''enabled'' \<Longrightarrow> worker_step lib cfg s (s\<lparr>sys_worker := Pausing item items\<rparr>)"
| ready: "sys_worker s = Holding item items \<Longrightarrow> decrypt_outbox_payload lib cfg item = Inr p \<Longrightarrow> valid_payload p \<Longrightarrow>
    get_stream_by_id lib cfg (item_stream_id item) (sys_db s) = Inr (Some st) \<Longrightarrow> payload_matches_stream p st \<Longrightarrow>
    status st = ''enabled'' \<Longrightarrow> worker_step lib cfg s (s\<lparr>sys_worker := Ready item p st items\<rparr>)"
| row_error: "sys_worker s = Holding item items \<Longrightarrow> get_stream_by_id lib cfg (item_stream_id item) (sys_db s) = Inl e \<Longrightarrow>
    worker_step lib cfg s (s\<lparr>sys_worker := Idle []\<rparr>)"
| cancel: "sys_worker s = Cancelling item items \<Longrightarrow>
    worker_step lib cfg s (s\<lparr>sys_db := cancel_outbox_item (item_id item) (sys_db s), sys_worker := Idle items\<rparr>)"
| postpone: "sys_worker s = Pausing item items \<Longrightarrow>
    worker_step lib cfg s (s\<lparr>sys_db := retry_outbox_item (item_id item) (item_attempts item)
                              (now + PAUSED_RECHECK_SECONDS) ''stream_paused'' (sys_db s), sys_worker := Idle items\<rparr>)"
| push: "sys_worker s = Ready item p st items \<Longrightarrow>
    worker_step lib cfg s (s\<lparr>sys_worker := Answered item r items,
      sys_pushes := \<lparr>pe_db = sys_db s, pe_stream = st, pe_item = item, pe_payload = p, pe_result = r\<rparr> # sys_pushes s\<rparr>)"
| written: "sys_worker s = Answered item r items \<Longrightarrow>
    worker_step lib cfg s (s\<lparr>sys_db := write_back now item r (sys_db s), sys_worker := Idle items\<rparr>)"
| failed: "uses_database (sys_worker s) \<Longrightarrow> worker_step lib cfg s (s\<lparr>sys_worker := Idle []\<rparr>)"

text \<open>What happens beside the worker: the other tasks, and the stop event being set.\<close>

inductive env_step :: "crypto_lib \<Rightarrow> settings \<Rightarrow> sys \<Rightarrow> sys \<Rightarrow> bool" for lib cfg where
  manager: "\<not> lock_held (sys_worker s) \<Longrightarrow> locked_op lib cfg (sys_db s) d' \<Longrightarrow> env_step lib cfg s (s\<lparr>sys_db := d'\<rparr>)"
| others: "free_op lib cfg (sys_db s) d' \<Longrightarrow> env_step lib cfg s (s\<lparr>sys_db := d'\<rparr>)"
| stop: "env_step lib cfg s (s\<lparr>sys_stop := True\<rparr>)"

inductive sys_step :: "crypto_lib \<Rightarrow> settings \<Rightarrow> sys \<Rightarrow> sys \<Rightarrow> bool" for lib cfg where
  worker: "worker_step lib cfg s s' \<Longrightarrow> sys_step lib cfg s s'"
| env: "env_step lib cfg s s' \<Longrightarrow> sys_step lib cfg s s'"

inductive_cases locked_opE: "locked_op lib cfg d d'"
inductive_cases free_opE: "free_op lib cfg d d'"
inductive_cases worker_stepE: "worker_step lib cfg s s'"
inductive_cases env_stepE: "env_step lib cfg s s'"
inductive_cases sys_stepE: "sys_step lib cfg s s'"

section \<open>Invariant\<close>

definition row_present :: "outbox_item \<Rightarrow> db \<Rightarrow> bool" where
  "row_present item d \<longleftrightarrow> (\<exists>r \<in> set (outbox d). pending r \<and> row_to_item r = item)"

definition current_stream :: "crypto_lib \<Rightarrow> settings \<Rightarrow> db \<Rightarrow> outbox_item \<Rightarrow> pydict \<Rightarrow> stream \<Rightarrow> bool" where
  "current_stream lib cfg d item p st \<longleftrightarrow>
     decrypt_outbox_payload lib cfg item = Inr p \<and> valid_payload p
     \<and> get_stream_by_id lib cfg (item_stream_id item) d = Inr (Some st)
     \<and> payload_matches_stream p st \<and> status st = ''enabled''"

fun worker_ok :: "crypto_lib \<Rightarrow> settings \<Rightarrow> db \<Rightarrow> worker \<Rightarrow> bool" where
  "worker_ok lib cfg d (Idle _) = True"
| "worker_ok lib cfg d Fetching = True"
| "worker_ok lib cfg d (Waiting _ _) = True"
| "worker_ok lib cfg d (Locked _ _) = True"
| "worker_ok lib cfg d (Reading _ _) = True"
| "worker_ok lib cfg d (Ready item p st _) = (row_present item d \<and> current_stream lib cfg d item p st)"
| "worker_ok lib cfg d (Holding item _) = row_present item d"
| "worker_ok lib cfg d (Cancelling item _) = row_present item d"
| "worker_ok lib cfg d (Pausing item _) = row_present item d"
| "worker_ok lib cfg d (Answered item _ _) = row_present item d"

definition fresh_push :: "crypto_lib \<Rightarrow> settings \<Rightarrow> push_event \<Rightarrow> bool" where
  "fresh_push lib cfg ev \<longleftrightarrow>
     row_present (pe_item ev) (pe_db ev) \<and> current_stream lib cfg (pe_db ev) (pe_item ev) (pe_payload ev) (pe_stream ev)"

definition sys_ok :: "crypto_lib \<Rightarrow> settings \<Rightarrow> sys \<Rightarrow> bool" where
  "sys_ok lib cfg s \<longleftrightarrow>
     db_ok (sys_db s) \<and> worker_ok lib cfg (sys_db s) (sys_worker s) \<and> (\<forall>ev \<in> set (sys_pushes s). fresh_push lib cfg ev)"

lemma free_op_streams: "free_op lib cfg d d' \<Longrightarrow> streams d' = streams d"
  by (auto elim!: free_opE elim: enqueue_outbox_cases simp: requeue_blocked_outbox_def delete_blocked_outbox_def)

lemma free_op_pending: "free_op lib cfg d d' \<Longrightarrow> r \<in> set (outbox d) \<Longrightarrow> pending r \<Longrightarrow> r \<in> set (outbox d')"
  by (auto elim!: free_opE elim: enqueue_outbox_cases
      simp: requeue_blocked_outbox_def delete_blocked_outbox_def pending_def blocked_def image_iff)

lemma free_op_ok [keeps]: "free_op lib cfg d d' \<Longrightarrow> db_ok d \<Longrightarrow> db_ok d'"
  by (auto elim!: free_opE intro: keeps)

lemma locked_op_ok [keeps]: "locked_op lib cfg d d' \<Longrightarrow> db_ok d \<Longrightarrow> db_ok d'"
  by (auto elim!: locked_opE intro: keeps)

lemma free_op_row_present: "free_op lib cfg d d' \<Longrightarrow> row_present item d \<Longrightarrow> row_present item d'"
  unfolding row_present_def by (blast dest: free_op_pending)

lemma free_op_current: "free_op lib cfg d d' \<Longrightarrow> current_stream lib cfg d item p st \<Longrightarrow> current_stream lib cfg d' item p st"
  by (simp add: current_stream_def get_stream_by_id_cong [OF free_op_streams])

lemma free_op_worker_ok: "free_op lib cfg d d' \<Longrightarrow> worker_ok lib cfg d w \<Longrightarrow> worker_ok lib cfg d' w"
  by (cases w) (auto dest: free_op_row_present free_op_current)

lemma due_item_present: "get_due_outbox_item now i d = Some item \<Longrightarrow> row_present item d"
  by (auto simp: get_due_outbox_item_def row_present_def due_def find_Some_iff)

lemma write_back_ok [keeps]: "db_ok d \<Longrightarrow> db_ok (write_back now item r d)"
  by (auto simp: write_back_def retry_item_def Let_def intro: item_ops_ok split: option.splits push_result.splits bool.splits)

lemma worker_step_ok:
  assumes "worker_step lib cfg s s'" "sys_ok lib cfg s"
  shows "sys_ok lib cfg s'"
  using assms
  by (cases rule: worker_step.cases)
     (auto simp: sys_ok_def current_stream_def fresh_push_def intro: item_ops_ok write_back_ok dest: due_item_present)

lemma env_step_ok: "env_step lib cfg s s' \<Longrightarrow> sys_ok lib cfg s \<Longrightarrow> sys_ok lib cfg s'"
proof (induction rule: env_step.induct)
  case (manager s d')
  then show ?case by (cases "sys_worker s") (auto simp: sys_ok_def intro: locked_op_ok)
next
  case (others s d')
  then show ?case by (auto simp: sys_ok_def intro: free_op_ok free_op_worker_ok)
qed (simp add: sys_ok_def)

lemma sys_step_ok: "sys_step lib cfg s s' \<Longrightarrow> sys_ok lib cfg s \<Longrightarrow> sys_ok lib cfg s'"
  by (auto elim!: sys_stepE intro: worker_step_ok env_step_ok)

lemma db_step_of_free: "free_op lib cfg d d' \<Longrightarrow> db_step lib cfg d d'"
  by (auto elim!: free_opE intro: db_step.intros)

lemma db_step_of_locked: "locked_op lib cfg d d' \<Longrightarrow> db_step lib cfg d d'"
  by (auto elim!: locked_opE intro: db_step.intros)

lemma write_back_step: "db_step lib cfg d (write_back now item r d)"
  by (auto simp: write_back_def retry_item_def Let_def intro: db_step.intros split: option.splits push_result.splits bool.splits)

text \<open>Every step leaves the tables alone or is one of their operations.\<close>

lemma sys_step_tables: "sys_step lib cfg s s' \<Longrightarrow> sys_db s' = sys_db s \<or> db_step lib cfg (sys_db s) (sys_db s')"
  by (auto elim!: sys_stepE worker_stepE env_stepE intro: db_step.intros write_back_step db_step_of_free db_step_of_locked)

section \<open>Recorded deliveries\<close>

lemma row_present_id: "db_ok d \<Longrightarrow> row_present item d \<Longrightarrow> item_id item \<in> o_id ` set (outbox d) \<and> item_id item \<le> outbox_seq d"
  by (auto simp: row_present_def row_to_item_def db_ok_def)

lemma complete_removes:
  assumes "db_ok d" "row_present item d"
  shows "item_id item \<notin> o_id ` set (outbox (complete_outbox_item (item_id item) d))"
proof -
  from assms(2) obtain r where r: "r \<in> set (outbox d)" "pending r" "o_id r = item_id item"
    by (auto simp: row_present_def row_to_item_def)
  have inj: "inj_on o_id (set (outbox d))" using db_ok_distinct [OF assms(1)] by (simp add: distinct_map)
  have "x = r" if "x \<in> set (outbox d)" "o_id x = item_id item" for x
    using inj_onD [OF inj _ that(1) r(1)] that(2) r(3) by simp
  with r(2) show ?thesis by (auto simp: complete_outbox_item_def remove_pending_item_def)
qed

text \<open>An identifier that was given out and has no row: it never gets one again.\<close>

definition retired :: "sys \<Rightarrow> nat \<Rightarrow> bool" where
  "retired s i \<longleftrightarrow> i \<le> outbox_seq (sys_db s) \<and> i \<notin> o_id ` set (outbox (sys_db s))"

lemma retired_step:
  assumes "sys_step lib cfg s s'" "sys_ok lib cfg s" "retired s i"
  shows "retired s' i"
  using sys_step_tables [OF assms(1)]
proof
  assume "db_step lib cfg (sys_db s) (sys_db s')"
  with db_step_ids [of "sys_db s" lib cfg "sys_db s'"] assms(2,3) show ?thesis
    by (fastforce simp: retired_def sys_ok_def)
qed (use assms(3) in \<open>simp add: retired_def\<close>)

lemma retired_not_pushed:
  assumes "sys_step lib cfg s s'" "sys_ok lib cfg s" "retired s i"
  shows "\<exists>new. sys_pushes s' = new @ sys_pushes s \<and> (\<forall>ev \<in> set new. item_id (pe_item ev) \<noteq> i)"
proof (cases "sys_pushes s' = sys_pushes s")
  case False
  with assms(1) obtain item p st items r where "sys_worker s = Ready item p st items"
    "sys_pushes s' = \<lparr>pe_db = sys_db s, pe_stream = st, pe_item = item, pe_payload = p, pe_result = r\<rparr> # sys_pushes s"
    by (auto elim!: sys_stepE worker_stepE env_stepE)
  moreover from this(1) assms(2) have "item_id item \<in> o_id ` set (outbox (sys_db s))"
    using row_present_id by (auto simp: sys_ok_def)
  ultimately show ?thesis using assms(3) by (intro exI [of _ "[hd (sys_pushes s')]"]) (auto simp: retired_def)
qed simp

lemma retired_for_good:
  assumes "(sys_step lib cfg)\<^sup>*\<^sup>* s t" "sys_ok lib cfg s" "retired s i"
  shows "retired t i \<and> sys_ok lib cfg t
    \<and> (\<exists>new. sys_pushes t = new @ sys_pushes s \<and> (\<forall>ev \<in> set new. item_id (pe_item ev) \<noteq> i))"
  using assms(1)
proof (induction rule: rtranclp_induct)
  case (step u v)
  then obtain new where new: "sys_pushes u = new @ sys_pushes s" "\<forall>ev \<in> set new. item_id (pe_item ev) \<noteq> i" by blast
  from retired_not_pushed [OF step(2), of i] step.IH obtain new' where
    "sys_pushes v = new' @ sys_pushes u" "\<forall>ev \<in> set new'. item_id (pe_item ev) \<noteq> i" by blast
  with new retired_step [OF step(2)] sys_step_ok [OF step(2)] step.IH show ?case
    by (intro conjI exI [of _ "new' @ new"]) auto
qed (use assms(2,3) in simp)

text \<open>When the worker's answer changes the tables after a success, the row of the item is gone.\<close>

lemma recorded_retired:
  assumes "worker_step lib cfg u v" "sys_ok lib cfg u" "sys_worker u = Answered item (Some (Returned True)) items"
    "sys_db v \<noteq> sys_db u"
  shows "retired v (item_id item) \<and> sys_pushes v = sys_pushes u"
  using assms(1)
proof (cases rule: worker_step.cases)
  case (written item' r items' now)
  with assms(3) have v: "sys_db v = complete_outbox_item (item_id item) (sys_db u)" by (simp add: write_back_def)
  have "db_ok (sys_db u)" "row_present item (sys_db u)" using assms(2,3) by (simp_all add: sys_ok_def)
  from complete_removes [OF this] row_present_id [OF this] have "retired v (item_id item)" by (simp add: retired_def v)
  with written show ?thesis by simp
qed (use assms(3,4) in auto)

definition sys_start :: "sys \<Rightarrow> bool" where
  "sys_start s \<longleftrightarrow> db_ok (sys_db s) \<and> sys_worker s = Idle [] \<and> sys_pushes s = []"

interpretation delivery: machine sys_start "sys_step lib cfg" "sys_ok lib cfg" for lib cfg
  by unfold_locales (simp add: sys_start_def sys_ok_def, rule sys_step_ok)

section \<open>Properties\<close>

text \<open>A concrete run: the queued example row is fetched, locked, re-read, checked and pushed.\<close>

definition example_item :: outbox_item where
  "example_item = row_to_item example_row"

definition example_state :: "worker \<Rightarrow> push_event list \<Rightarrow> sys" where
  "example_state w evs = \<lparr>sys_db = pushed_db, sys_worker = w, sys_pushes = evs, sys_stop = False\<rparr>"

definition example_start :: sys where
  "example_start = example_state (Idle []) []"

definition example_push :: push_event where
  "example_push = \<lparr>pe_db = pushed_db, pe_stream = example_stream, pe_item = example_item,
     pe_payload = delivery_payload_of example_stream example_event example_token, pe_result = Some (Returned True)\<rparr>"

definition example_end :: sys where
  "example_end = example_state (Answered example_item (Some (Returned True)) []) [example_push]"

lemmas example_defs = example_state_def example_start_def example_end_def

lemma example_row_due: "due 300 example_row" "outbox pushed_db = [example_row]"
  by (simp_all add: due_def pending_def example_row_def example_delivery_def pushed_db_def)

lemma example_decrypts:
  "decrypt_outbox_payload toy_lib example_settings example_item = Inr (delivery_payload_of example_stream example_event example_token)"
  unfolding example_item_def
  by (rule decrypt_outbox_payload_stored [OF toy_lib_laws delivery_payload_plain [OF example_stream_strings]])
     (simp add: example_row_def example_delivery_def row_to_item_def)

lemma example_stored:
  "get_stream_by_id toy_lib example_settings (item_stream_id example_item) pushed_db = Inr (Some example_stream)"
  using find_saved row_to_stream_stored [OF toy_lib_laws storable_example]
  by (simp add: get_stream_by_id_def find_row_def pushed_db_def example_item_def example_row_def example_delivery_def
      example_stream_def row_to_item_def)

lemma example_pass:
  "(sys_step toy_lib example_settings)\<^sup>*\<^sup>* (example_state (Idle []) evs)
     (example_state (Answered example_item (Some (Returned True)) []) (example_push # evs))"
proof -
  let ?p = "delivery_payload_of example_stream example_event example_token"
  let ?step = "sys_step toy_lib example_settings"
  let ?st = "\<lambda>w. example_state w evs"
  have "?step (?st (Idle [])) (?st Fetching)"
    using worker_step.begin_pass [of "?st (Idle [])" toy_lib example_settings] by (intro sys_step.worker) (simp add: example_state_def)
  moreover have "?step (?st Fetching) (?st (Idle [example_item]))"
    using worker_step.fetch [of "?st Fetching" toy_lib example_settings 300] example_row_due
    by (intro sys_step.worker) (simp add: get_due_outbox_def example_item_def example_state_def)
  moreover have "?step (?st (Idle [example_item])) (?st (Waiting example_item []))"
    using worker_step.next_item [of "?st (Idle [example_item])" example_item "[]"] by (intro sys_step.worker) (simp add: example_state_def)
  moreover have "?step (?st (Waiting example_item [])) (?st (Locked example_item []))"
    using worker_step.acquire [of "?st (Waiting example_item [])" example_item "[]"] by (intro sys_step.worker) (simp add: example_state_def)
  moreover have "?step (?st (Locked example_item [])) (?st (Reading example_item []))"
    using worker_step.go_on [of "?st (Locked example_item [])" example_item "[]"] by (intro sys_step.worker) (simp add: example_state_def)
  moreover have "?step (?st (Reading example_item [])) (?st (Holding example_item []))"
    using worker_step.reread [of "?st (Reading example_item [])" example_item "[]" 300 example_item] example_row_due
    by (intro sys_step.worker) (simp add: get_due_outbox_item_def example_item_def row_to_item_def example_state_def)
  moreover have "?step (?st (Holding example_item [])) (?st (Ready example_item ?p example_stream []))"
    using worker_step.ready [of "?st (Holding example_item [])" example_item "[]" toy_lib example_settings ?p example_stream]
      example_decrypts example_stored delivery_payload_valid [OF example_stream_strings, of example_event example_token]
    by (intro sys_step.worker) (simp add: example_stream_def example_state_def)
  moreover have "?step (?st (Ready example_item ?p example_stream []))
      (example_state (Answered example_item (Some (Returned True)) []) (example_push # evs))"
    using worker_step.push [of "?st (Ready example_item ?p example_stream [])" example_item ?p example_stream "[]"
        toy_lib example_settings "Some (Returned True)"]
    by (intro sys_step.worker) (simp add: example_state_def example_push_def)
  ultimately show ?thesis by (meson converse_rtranclp_into_rtranclp rtranclp.rtrancl_refl)
qed

lemma example_run: "(sys_step toy_lib example_settings)\<^sup>*\<^sup>* example_start example_end"
  using example_pass [of "[]"] by (simp add: example_start_def example_end_def)

lemma example_starts: "sys_start example_start"
  by (simp add: sys_start_def example_defs pushed_db_def db_ok_def saved_db_def save_stream_def empty_db_def
      example_row_def example_delivery_def known_status_def pending_def MAX_OUTBOX_ITEMS_def)

text \<open>
  C1. No stale delivery, in any interleaving: whenever the worker pushes, the stream it pushes to
  is at that moment the stored one, enabled, with the audience, endpoint, token and event
  selection the payload was queued for, and the item is still pending in the queue.
\<close>

theorem no_stale_push:
  assumes "sys_start s" "(sys_step lib cfg)\<^sup>*\<^sup>* s t" "ev \<in> set (sys_pushes t)"
  shows "get_stream_by_id lib cfg (item_stream_id (pe_item ev)) (pe_db ev) = Inr (Some (pe_stream ev))
    \<and> status (pe_stream ev) = ''enabled'' \<and> payload_matches_stream (pe_payload ev) (pe_stream ev)
    \<and> decrypt_outbox_payload lib cfg (pe_item ev) = Inr (pe_payload ev)
    \<and> (\<exists>r \<in> set (outbox (pe_db ev)). pending r \<and> row_to_item r = pe_item ev)"
  using delivery.reachable_inv [OF assms(1,2)] assms(3)
  by (auto simp: sys_ok_def fresh_push_def current_stream_def row_present_def)

theorem no_stale_push_witness:
  "sys_pushes example_end \<noteq> [] \<and>
   get_stream_by_id toy_lib example_settings (item_stream_id example_item) pushed_db = Inr (Some example_stream)"
  using no_stale_push [OF example_starts example_run, of example_push] by (simp add: example_defs example_push_def)

text \<open>
  C18. A delivery that was recorded is final: once the worker has written the receiver's success back,
  the identifier has no row any more, and in no continuation, whatever the worker and the other tasks
  do, does it get one again or is a push made for it. A success that could not be recorded does not
  count: delivery is at least once (\<open>resent_after_failed_write\<close>).
\<close>

theorem recorded_not_resent:
  assumes "sys_start s" "(sys_step lib cfg)\<^sup>*\<^sup>* s u" "sys_worker u = Answered item (Some (Returned True)) items"
    and "worker_step lib cfg u v" "sys_db v \<noteq> sys_db u" "(sys_step lib cfg)\<^sup>*\<^sup>* v t"
  shows "item_id item \<notin> o_id ` set (outbox (sys_db t))
    \<and> (\<exists>new. sys_pushes t = new @ sys_pushes u \<and> (\<forall>ev \<in> set new. item_id (pe_item ev) \<noteq> item_id item))"
proof -
  have u: "sys_ok lib cfg u" by (rule delivery.reachable_inv [OF assms(1,2)])
  note v = recorded_retired [OF assms(4) u assms(3,5)]
  from retired_for_good [OF assms(6) worker_step_ok [OF assms(4) u] conjunct1 [OF v]] v show ?thesis
    by (auto simp: retired_def)
qed

definition example_written :: sys where
  "example_written = example_end\<lparr>sys_db := complete_outbox_item 1 pushed_db, sys_worker := Idle []\<rparr>"

lemma example_writes: "worker_step toy_lib example_settings example_end example_written"
  using worker_step.written [of example_end example_item "Some (Returned True)" "[]" toy_lib example_settings 300]
  by (simp add: example_defs example_written_def write_back_def example_item_def example_row_def example_delivery_def row_to_item_def)

lemma example_emptied: "outbox (complete_outbox_item 1 pushed_db) = []"
  by (simp add: complete_outbox_item_def remove_pending_item_def pushed_db_def example_row_def example_delivery_def pending_def)

theorem recorded_not_resent_witness:
  "outbox (sys_db example_written) = [] \<and> item_id example_item \<notin> o_id ` set (outbox (sys_db example_written))
   \<and> sys_pushes example_written = [example_push]"
proof -
  have "sys_db example_written \<noteq> sys_db example_end" "outbox (sys_db example_written) = []"
    using example_emptied by (auto simp: example_written_def example_defs pushed_db_def)
  moreover have "sys_worker example_end = Answered example_item (Some (Returned True)) []" by (simp add: example_defs)
  ultimately show ?thesis
    using recorded_not_resent [OF example_starts example_run _ example_writes _ rtranclp.rtrancl_refl]
    by (simp add: example_written_def example_defs)
qed

text \<open>When the database fails to record the success, the same token is pushed and acknowledged again.\<close>

lemma resent_after_failed_write:
  "(sys_step toy_lib example_settings)\<^sup>*\<^sup>* example_start
     (example_state (Answered example_item (Some (Returned True)) []) [example_push, example_push])"
proof -
  have "sys_step toy_lib example_settings example_end (example_state (Idle []) [example_push])"
    using worker_step.failed [of example_end toy_lib example_settings] by (intro sys_step.worker) (simp add: example_defs)
  with example_run have "(sys_step toy_lib example_settings)\<^sup>*\<^sup>* example_start (example_state (Idle []) [example_push])"
    by (rule rtranclp.rtrancl_into_rtrancl)
  with example_pass [of "[example_push]"] show ?thesis by (rule rtranclp_trans [rotated])
qed

end
