(* ===== verification/Queue_Contract.thy ===== *)
theory Queue_Contract
  imports Database
begin

text \<open>
  What the delivery worker relies on of the tables: the interface \<open>durable_queue\<close> of a store of
  numbered payloads, in which some operations keep every entry and one removes a single entry. Its
  client's lemma is about any history of such operations: an entry is still held, with its payload,
  or there was a reason to remove it while it was. The tables of \<^verbatim>\<open>app/database.py\<close> provide the interface.
\<close>

locale durable_queue =
  fixes wf :: "'d \<Rightarrow> bool"
    and held :: "'d \<Rightarrow> nat \<Rightarrow> 'p option"
    and keeps_all :: "'d \<Rightarrow> 'd \<Rightarrow> bool"
    and remove :: "nat \<Rightarrow> 'd \<Rightarrow> 'd"
  assumes keeps_wf: "wf d \<Longrightarrow> keeps_all d d' \<Longrightarrow> wf d'"
    and keeps_held: "wf d \<Longrightarrow> keeps_all d d' \<Longrightarrow> held d i = Some p \<Longrightarrow> held d' i = Some p"
    and remove_wf: "wf d \<Longrightarrow> wf (remove i d)"
    and remove_held: "wf d \<Longrightarrow> i \<noteq> j \<Longrightarrow> held d i = Some p \<Longrightarrow> held (remove j d) i = Some p"
begin

text \<open>A history in which an entry is removed only with a reason.\<close>

inductive history :: "('d \<Rightarrow> nat \<Rightarrow> bool) \<Rightarrow> 'd \<Rightarrow> 'd \<Rightarrow> bool" for reason d where
  start: "history reason d d"
| kept: "history reason d e \<Longrightarrow> keeps_all e e' \<Longrightarrow> history reason d e'"
| removed: "history reason d e \<Longrightarrow> reason e j \<Longrightarrow> history reason d (remove j e)"

lemma history_mono: "history reason d e \<Longrightarrow> (\<And>e j. reason e j \<Longrightarrow> reason' e j) \<Longrightarrow> history reason' d e"
  by (induction rule: history.induct) (auto intro: history.intros)

lemma history_wf: "history reason d e \<Longrightarrow> wf d \<Longrightarrow> wf e"
  by (induction rule: history.induct) (auto intro: keeps_wf remove_wf)

lemma history_accounts:
  "history reason d e \<Longrightarrow> wf d \<Longrightarrow> held d i = Some p \<Longrightarrow>
     held e i = Some p \<or> (\<exists>e'. history reason d e' \<and> held e' i = Some p \<and> reason e' i)"
proof (induction rule: history.induct)
  case (kept e e')
  then show ?case using keeps_held history_wf by blast
next
  case (removed e j)
  then show ?case using remove_held history_wf by (cases "i = j") blast+
qed simp

end

text \<open>The payload and the stream of the row of an identifier.\<close>

definition queued :: "db \<Rightarrow> nat \<Rightarrow> (pystr \<times> pystr) option" where
  "queued d i = map_of (map (\<lambda>r. (o_id r, (o_payload r, o_stream_id r))) (outbox d)) i"

inductive queue_keeps :: "crypto_lib \<Rightarrow> settings \<Rightarrow> db \<Rightarrow> db \<Rightarrow> bool" for lib cfg where
  enqueue: "enqueue_outbox lib cfg now nonce ds d = Inr (k, d') \<Longrightarrow> queue_keeps lib cfg d d'"
| retry: "queue_keeps lib cfg d (retry_outbox_item i a t reason d)"
| block: "queue_keeps lib cfg d (block_outbox_item i reason d)"
| requeue: "queue_keeps lib cfg d (snd (requeue_blocked_outbox now d))"

lemma queued_iff:
  assumes "db_ok d"
  shows "queued d i = Some (p, sid) \<longleftrightarrow> (\<exists>r \<in> set (outbox d). o_id r = i \<and> o_payload r = p \<and> o_stream_id r = sid)"
proof -
  have "distinct (map fst (map (\<lambda>r. (o_id r, (o_payload r, o_stream_id r))) (outbox d)))"
    using db_ok_distinct [OF assms] by (simp add: comp_def)
  from map_of_eq_Some_iff [OF this] show ?thesis by (auto simp: queued_def image_iff)
qed

lemma queued_map:
  "(\<And>r. o_id (f r) = o_id r \<and> o_payload (f r) = o_payload r \<and> o_stream_id (f r) = o_stream_id r) \<Longrightarrow>
     queued (d\<lparr>outbox := map f (outbox d)\<rparr>) = queued d"
  by (simp add: queued_def comp_def fun_eq_iff)

lemma queue_keeps_ok [keeps]: "queue_keeps lib cfg d d' \<Longrightarrow> db_ok d \<Longrightarrow> db_ok d'"
  by (induction rule: queue_keeps.induct) (auto intro: keeps)

lemma queue_keeps_queued: "queue_keeps lib cfg d d' \<Longrightarrow> db_ok d \<Longrightarrow> queued d i = Some p \<Longrightarrow> queued d' i = Some p"
proof (induction rule: queue_keeps.induct)
  case (enqueue now nonce ds d k d')
  from enqueue(1) enqueue(3) show ?case
    by (cases rule: enqueue_outbox_cases) (auto simp: queued_def map_add_Some_iff)
qed (simp_all add: retry_outbox_item_def block_outbox_item_def update_pending_item_def requeue_blocked_outbox_def queued_map)

lemma remove_pending_queued:
  "i \<noteq> j \<Longrightarrow> queued d i = Some p \<Longrightarrow> queued (remove_pending_item j d) i = Some p"
proof -
  have "map_of (map (\<lambda>r. (o_id r, (o_payload r, o_stream_id r))) rs) i = Some p \<Longrightarrow> i \<noteq> j \<Longrightarrow>
      map_of (map (\<lambda>r. (o_id r, (o_payload r, o_stream_id r))) (filter (\<lambda>r. \<not> (o_id r = j \<and> pending r)) rs)) i = Some p" for rs
    by (induction rs) (auto split: if_splits)
  then show "i \<noteq> j \<Longrightarrow> queued d i = Some p \<Longrightarrow> queued (remove_pending_item j d) i = Some p"
    by (simp add: queued_def remove_pending_item_def)
qed

interpretation tables_queue: durable_queue db_ok queued "queue_keeps lib cfg" remove_pending_item for lib cfg
proof unfold_locales
  fix d i
  show "db_ok d \<Longrightarrow> db_ok (remove_pending_item i d)"
    using item_ops_ok(1) [of d i] by (simp add: complete_outbox_item_def)
qed (auto intro: queue_keeps_ok queue_keeps_queued remove_pending_queued)

end
