(* ===== verification/Delivery_Loss.thy ===== *)
theory Delivery_Loss
  imports Delivery_Lock Queue_Contract
begin

text \<open>
  No token is lost: runs of the delivery worker with any queueing and requeueing by the other tasks
  in between, seen through the interface \<open>durable_queue\<close> of the tables. Replacing, changing or
  deleting the stream and discarding the queue are the operator's ways to drop tokens on purpose and
  are not steps of these runs.
\<close>

inductive queueing :: "crypto_lib \<Rightarrow> settings \<Rightarrow> db \<Rightarrow> db \<Rightarrow> bool" for lib cfg where
  enqueue: "enqueue_outbox lib cfg now nonce ds d = Inr (k, d') \<Longrightarrow> queueing lib cfg d d'"
| requeue: "queueing lib cfg d (snd (requeue_blocked_outbox now d))"

inductive serving_step :: "crypto_lib \<Rightarrow> settings \<Rightarrow> sys \<Rightarrow> sys \<Rightarrow> bool" for lib cfg where
  worker: "worker_step lib cfg s s' \<Longrightarrow> serving_step lib cfg s s'"
| queueing: "queueing lib cfg (sys_db s) d' \<Longrightarrow> serving_step lib cfg s (s\<lparr>sys_db := d'\<rparr>)"

inductive_simps queueing_iff: "queueing lib cfg d d'"
inductive_cases serving_stepE: "serving_step lib cfg s s'"

text \<open>The stored stream is gone, or no longer the one an item was queued for.\<close>

definition stale_for :: "crypto_lib \<Rightarrow> settings \<Rightarrow> db \<Rightarrow> outbox_item \<Rightarrow> bool" where
  "stale_for lib cfg d item \<longleftrightarrow> (\<exists>p. decrypt_outbox_payload lib cfg item = Inr p \<and>
     (\<forall>st. get_stream_by_id lib cfg (item_stream_id item) d = Inr (Some st) \<longrightarrow> \<not> payload_matches_stream p st))"

definition acked_id :: "sys \<Rightarrow> nat \<Rightarrow> bool" where
  "acked_id s i \<longleftrightarrow> (\<exists>ev \<in> set (sys_pushes s). item_id (pe_item ev) = i \<and> pe_result ev = Some (Returned True))"

text \<open>What the worker's state says about the item it is about to remove.\<close>

definition removal_ok :: "crypto_lib \<Rightarrow> settings \<Rightarrow> sys \<Rightarrow> bool" where
  "removal_ok lib cfg s \<longleftrightarrow>
     (case sys_worker s of
        Cancelling item _ \<Rightarrow> stale_for lib cfg (sys_db s) item
      | Answered item r _ \<Rightarrow> r = Some (Returned True) \<longrightarrow> acked_id s (item_id item)
      | _ \<Rightarrow> True)"

lemma stale_for_cong: "streams d' = streams d \<Longrightarrow> stale_for lib cfg d' item = stale_for lib cfg d item"
  using get_stream_by_id_cong [of d' d] by (simp add: stale_for_def)

lemma stale_for_same:
  "item_payload a = item_payload b \<Longrightarrow> item_stream_id a = item_stream_id b \<Longrightarrow> stale_for lib cfg d a = stale_for lib cfg d b"
  by (simp add: stale_for_def decrypt_outbox_payload_def)

lemma removal_ok_worker: "worker_step lib cfg s s' \<Longrightarrow> removal_ok lib cfg s'"
  by (cases rule: worker_step.cases) (auto simp: removal_ok_def stale_for_def acked_id_def)

lemma removal_ok_streams:
  "removal_ok lib cfg s \<Longrightarrow> streams d' = streams (sys_db s) \<Longrightarrow> removal_ok lib cfg (s\<lparr>sys_db := d'\<rparr>)"
  using stale_for_cong [of d' "sys_db s" lib cfg] by (simp add: removal_ok_def acked_id_def split: worker.splits)

lemma removal_ok_step: "sys_step lib cfg s s' \<Longrightarrow> removal_ok lib cfg s \<Longrightarrow> removal_ok lib cfg s'"
proof (induction rule: sys_step.induct)
  case (env s s')
  from env(1) show ?case
  proof (cases rule: env_step.cases)
    case (manager d')
    with env(2) show ?thesis by (cases "sys_worker s") (auto simp: removal_ok_def)
  next
    case (others d')
    with env(2) show ?thesis using removal_ok_streams free_op_streams by blast
  next
    case stop
    with env(2) show ?thesis by (simp add: removal_ok_def acked_id_def split: worker.splits)
  qed
qed (rule removal_ok_worker)

interpretation removals: machine sys_start "sys_step lib cfg" "removal_ok lib cfg" for lib cfg
  by unfold_locales (simp add: sys_start_def removal_ok_def, rule removal_ok_step)

lemma queueing_free: "queueing lib cfg d d' \<Longrightarrow> free_op lib cfg d d'"
  by (auto simp: queueing_iff intro: free_op.enqueue free_op.requeue)

lemma serving_is_step: "serving_step lib cfg s s' \<Longrightarrow> sys_step lib cfg s s'"
  by (auto elim!: serving_stepE dest: queueing_free intro: sys_step.intros env_step.others)

lemma queueing_streams: "queueing lib cfg d d' \<Longrightarrow> streams d' = streams d"
  by (auto simp: queueing_iff requeue_blocked_outbox_def elim: enqueue_outbox_cases)

lemma worker_step_streams: "worker_step lib cfg s s' \<Longrightarrow> streams (sys_db s') = streams (sys_db s)"
  by (cases rule: worker_step.cases) (auto simp: write_back_def split: option.splits push_result.splits bool.splits)

lemma worker_step_pushes: "worker_step lib cfg s s' \<Longrightarrow> set (sys_pushes s) \<subseteq> set (sys_pushes s')"
  by (cases rule: worker_step.cases) auto

text \<open>The only reasons to remove an entry.\<close>

definition drop_reason :: "crypto_lib \<Rightarrow> settings \<Rightarrow> stream_row list \<Rightarrow> sys \<Rightarrow> db \<Rightarrow> nat \<Rightarrow> bool" where
  "drop_reason lib cfg rows t d i \<longleftrightarrow> acked_id t i \<or>
     streams d = rows \<and> (\<exists>item. item_id item = i \<and> queued d i = Some (item_payload item, item_stream_id item) \<and> stale_for lib cfg d item)"

lemma row_present_queued: "db_ok d \<Longrightarrow> row_present item d \<Longrightarrow> queued d (item_id item) = Some (item_payload item, item_stream_id item)"
  by (auto simp: queued_iff row_present_def row_to_item_def)

text \<open>A step of the worker leaves the tables alone, keeps every entry, or removes one with a reason.\<close>

lemma worker_step_queue:
  assumes "worker_step lib cfg s s'" "sys_ok lib cfg s" "removal_ok lib cfg s"
  shows "sys_db s' = sys_db s \<or> queue_keeps lib cfg (sys_db s) (sys_db s')
    \<or> (\<exists>i. sys_db s' = remove_pending_item i (sys_db s) \<and> drop_reason lib cfg (streams (sys_db s)) s' (sys_db s) i)"
  using assms(1)
proof (cases rule: worker_step.cases)
  case (cancel item items)
  with assms(2,3) show ?thesis
    by (auto simp: sys_ok_def removal_ok_def cancel_outbox_item_def drop_reason_def intro: row_present_queued)
next
  case (written item r items now)
  then show ?thesis
    using assms(3) worker_step_pushes [OF assms(1)]
    by (auto simp: write_back_def retry_item_def Let_def complete_outbox_item_def drop_reason_def removal_ok_def acked_id_def
        intro: queue_keeps.intros split: option.splits push_result.splits bool.splits)
qed (auto intro: queue_keeps.intros)

lemma serving_history:
  assumes "(serving_step lib cfg)\<^sup>*\<^sup>* s t" "sys_ok lib cfg s" "removal_ok lib cfg s"
  shows "tables_queue.history lib cfg (drop_reason lib cfg (streams (sys_db s)) t) (sys_db s) (sys_db t)
    \<and> streams (sys_db t) = streams (sys_db s) \<and> sys_ok lib cfg t \<and> removal_ok lib cfg t"
  using assms(1)
proof (induction rule: rtranclp_induct)
  case base
  then show ?case using assms(2,3) by (auto intro: tables_queue.history.start)
next
  case (step u v)
  then have ok: "sys_ok lib cfg v" "removal_ok lib cfg v"
    using sys_step_ok removal_ok_step serving_is_step by blast+
  have grows: "set (sys_pushes u) \<subseteq> set (sys_pushes v)"
    using step(2) by (cases rule: serving_step.cases) (auto dest: worker_step_pushes)
  have h: "tables_queue.history lib cfg (drop_reason lib cfg (streams (sys_db s)) v) (sys_db s) (sys_db u)"
    by (rule tables_queue.history_mono [OF conjunct1 [OF step.IH]]) (use grows in \<open>auto simp: drop_reason_def acked_id_def\<close>)
  from step(2) show ?case
  proof (cases rule: serving_step.cases)
    case worker
    with worker_step_queue [OF worker] worker_step_streams [OF worker] step.IH h ok show ?thesis
      by (auto intro: tables_queue.history.kept tables_queue.history.removed)
  next
    case (queueing d')
    then have "queue_keeps lib cfg (sys_db u) d'" by (auto simp: queueing_iff intro: queue_keeps.intros)
    with queueing queueing_streams [OF queueing(2)] step.IH h ok show ?thesis
      by (auto intro: tables_queue.history.kept)
  qed
qed

section \<open>Properties\<close>

text \<open>
  C3. No token is lost, in any interleaving: from any state the service can be in, as long as the
  worker runs and other tasks only queue or requeue, an entry of the queue stays there with its
  payload until a push of its identifier is answered with success, or until its stream is gone or is
  no longer the one it was queued for.
\<close>

theorem no_token_lost:
  assumes "sys_start s0" "(sys_step lib cfg)\<^sup>*\<^sup>* s0 s" "(serving_step lib cfg)\<^sup>*\<^sup>* s t" "r \<in> set (outbox (sys_db s))"
  shows "(\<exists>r' \<in> set (outbox (sys_db t)). o_id r' = o_id r \<and> o_payload r' = o_payload r \<and> o_stream_id r' = o_stream_id r)
    \<or> (\<exists>ev \<in> set (sys_pushes t). item_id (pe_item ev) = o_id r \<and> pe_result ev = Some (Returned True))
    \<or> (\<exists>p. decrypt_outbox_payload lib cfg (row_to_item r) = Inr p \<and>
         (\<forall>st. get_stream_by_id lib cfg (o_stream_id r) (sys_db s) = Inr (Some st) \<longrightarrow> \<not> payload_matches_stream p st))"
proof -
  have ok: "sys_ok lib cfg s" "removal_ok lib cfg s"
    using delivery.reachable_inv [OF assms(1,2)] removals.reachable_inv [OF assms(1,2)] by simp_all
  note h = serving_history [OF assms(3) ok]
  have db: "db_ok (sys_db s)" "db_ok (sys_db t)" using ok h by (auto simp: sys_ok_def)
  have q: "queued (sys_db s) (o_id r) = Some (o_payload r, o_stream_id r)" using assms(4) by (auto simp: queued_iff [OF db(1)])
  from tables_queue.history_accounts [OF conjunct1 [OF h] db(1) q] show ?thesis
  proof
    assume "queued (sys_db t) (o_id r) = Some (o_payload r, o_stream_id r)"
    then show ?thesis unfolding queued_iff [OF db(2)] by blast
  next
    assume "\<exists>e. tables_queue.history lib cfg (drop_reason lib cfg (streams (sys_db s)) t) (sys_db s) e \<and>
      queued e (o_id r) = Some (o_payload r, o_stream_id r) \<and> drop_reason lib cfg (streams (sys_db s)) t e (o_id r)"
    then obtain e where e: "queued e (o_id r) = Some (o_payload r, o_stream_id r)" "drop_reason lib cfg (streams (sys_db s)) t e (o_id r)"
      by blast
    show ?thesis
    proof (cases "acked_id t (o_id r)")
      case False
      with e obtain item where "streams e = streams (sys_db s)" "item_payload item = o_payload r" "item_stream_id item = o_stream_id r"
        "stale_for lib cfg e item" by (auto simp: drop_reason_def)
      then have "stale_for lib cfg (sys_db s) (row_to_item r)"
        using stale_for_cong [of e "sys_db s" lib cfg] stale_for_same [of item "row_to_item r" lib cfg "sys_db s"]
        by (simp add: row_to_item_def)
      then show ?thesis by (auto simp: stale_for_def row_to_item_def)
    qed (auto simp: acked_id_def)
  qed
qed

text \<open>The example run goes on: the acknowledged item is removed.\<close>

theorem no_token_lost_witness:
  "example_row \<in> set (outbox (sys_db example_end)) \<and> outbox (sys_db example_written) = []
   \<and> (\<exists>ev \<in> set (sys_pushes example_written). item_id (pe_item ev) = o_id example_row \<and> pe_result ev = Some (Returned True))"
proof -
  have r: "example_row \<in> set (outbox (sys_db example_end))" by (simp add: example_defs pushed_db_def)
  have e: "outbox (sys_db example_written) = []"
    using example_emptied by (simp add: example_written_def example_defs)
  have "get_stream_by_id toy_lib example_settings (o_stream_id example_row) pushed_db = Inr (Some example_stream)"
    using example_stored by (simp add: example_item_def row_to_item_def)
  moreover have "decrypt_outbox_payload toy_lib example_settings (row_to_item example_row)
      = Inr (delivery_payload_of example_stream example_event example_token)"
    using example_decrypts by (simp add: example_item_def)
  ultimately show ?thesis
    using no_token_lost [OF example_starts example_run r_into_rtranclp [where r = "serving_step toy_lib example_settings", OF serving_step.worker, OF example_writes] r] e r
    by (auto simp: example_defs payload_matches_stream_def delivery_payload_of_def dget_def)
qed

end
