(* ===== verification/Log_Safety.thy ===== *)
theory Log_Safety
  imports Json_Text "HOL-Library.Char_ord" "HOL-Library.List_Lexorder"
begin

text \<open>
  \<^verbatim>\<open>app/security/pii.py\<close>, \<^verbatim>\<open>log_sanitize.py\<close> and \<^verbatim>\<open>http_logging.py\<close>: what the service writes about
  untrusted values, addresses and upstream responses. The hexadecimal digests of \<^verbatim>\<open>hmac\<close> and
  \<^verbatim>\<open>hashlib\<close> are parameters, of which the code relies on one fact: they consist of hexadecimal digits.
  The e-mail pattern is matched as the regular-expression engine does, leftmost and greedy; its
  character classes make every choice but the number of domain groups deterministic.
\<close>

section \<open>Pseudonyms\<close>

type_synonym hmac_fun = "pystr \<Rightarrow> pystr \<Rightarrow> pystr"

definition mask_email :: "hmac_fun \<Rightarrow> pystr option \<Rightarrow> bool \<Rightarrow> pystr \<Rightarrow> pystr" where
  "mask_email hm email log_pii pii_key =
     (case email of
        None \<Rightarrow> ''[pii:none]''
      | Some e \<Rightarrow> if log_pii then e else ''[pii:'' @ take 8 (hm pii_key e) @ '']'')"

section \<open>Control characters\<close>

definition is_control :: "char \<Rightarrow> bool" where
  "is_control c \<longleftrightarrow> (of_char c :: nat) < 32 \<or> (of_char c :: nat) = 127"

definition sanitize_for_log :: "json \<Rightarrow> nat \<Rightarrow> pystr" where
  "sanitize_for_log v max_len =
     (case v of
        JNull \<Rightarrow> ''None''
      | _ \<Rightarrow>
         (let stripped = filter (\<lambda>c. \<not> is_control c) (py_str v) in
          if length stripped > max_len then take max_len stripped @ ''...[truncated]'' else stripped))"

section \<open>E-mail addresses in text\<close>

definition is_letter :: "char \<Rightarrow> bool" where
  "is_letter c = (let n = (of_char c :: nat) in (65 \<le> n \<and> n \<le> 90) \<or> (97 \<le> n \<and> n \<le> 122))"

definition is_label_char :: "char \<Rightarrow> bool" where
  "is_label_char c \<longleftrightarrow> is_letter c \<or> is_digit c \<or> c = CHR ''-''"

definition is_local_char :: "char \<Rightarrow> bool" where
  "is_local_char c \<longleftrightarrow> is_label_char c \<or> c \<in> set ''._%+''"

text \<open>\<open>[class]{1,512}\<close> and a terminator outside the class: the rest after it.\<close>

definition run_then :: "(char \<Rightarrow> bool) \<Rightarrow> char \<Rightarrow> pystr \<Rightarrow> pystr option" where
  "run_then p t s =
     (let n = length (takeWhile p s) in
      case drop n s of
        c # r \<Rightarrow> if 1 \<le> n \<and> n \<le> 512 \<and> c = t then Some r else None
      | [] \<Rightarrow> None)"

text \<open>\<open>[A-Z]{2,512}\<close>.\<close>

definition match_tld :: "pystr \<Rightarrow> pystr option" where
  "match_tld s = (let n = length (takeWhile is_letter s) in if 2 \<le> n then Some (drop (min n 512) s) else None)"

text \<open>At most \<open>Suc k\<close> more groups, as many as possible, then the top-level domain.\<close>

fun match_groups :: "nat \<Rightarrow> pystr \<Rightarrow> pystr option" where
  "match_groups k s =
     (case run_then is_label_char (CHR ''.'') s of
        None \<Rightarrow> None
      | Some r \<Rightarrow>
         (case k of
            0 \<Rightarrow> match_tld r
          | Suc k' \<Rightarrow> (case match_groups k' r of Some r' \<Rightarrow> Some r' | None \<Rightarrow> match_tld r)))"

declare match_groups.simps [simp del]

text \<open>A match at the start of the text: what follows it.\<close>

definition match_email :: "pystr \<Rightarrow> pystr option" where
  "match_email s =
     (case run_then is_local_char (CHR ''@'') s of None \<Rightarrow> None | Some r \<Rightarrow> match_groups 255 r)"

lemma run_then_Some:
  "run_then p t s = Some r \<Longrightarrow> \<exists>a. s = a @ t # r \<and> a \<noteq> [] \<and> length a \<le> 512 \<and> list_all p a"
  unfolding run_then_def Let_def
  by (auto split: list.splits if_splits simp: list_all_iff dest: set_takeWhileD
      intro!: exI [of _ "takeWhile p s"])
     (metis append_take_drop_id length_takeWhile_le takeWhile_eq_take)+

lemma match_tld_length: "match_tld s = Some r \<Longrightarrow> length r < length s"
  using length_takeWhile_le [of is_letter s] by (auto simp: match_tld_def Let_def split: if_splits)

lemma match_groups_length: "match_groups k s = Some r \<Longrightarrow> length r < length s"
proof (induction k s arbitrary: r rule: match_groups.induct)
  case (1 k s)
  then show ?case
    by (subst (asm) match_groups.simps)
       (fastforce split: option.splits nat.splits dest!: run_then_Some match_tld_length)
qed

lemma match_email_length: "match_email s = Some r \<Longrightarrow> length r < length s"
  by (fastforce simp: match_email_def split: option.splits dest!: run_then_Some match_groups_length)

function redact_text :: "hmac_fun \<Rightarrow> bool \<Rightarrow> pystr \<Rightarrow> pystr \<Rightarrow> pystr" where
  "redact_text hm log_pii key s =
     (case match_email s of
        Some r \<Rightarrow> mask_email hm (Some (take (length s - length r) s)) log_pii key @ redact_text hm log_pii key r
      | None \<Rightarrow> (case s of [] \<Rightarrow> [] | c # s' \<Rightarrow> c # redact_text hm log_pii key s'))"
  by pat_completeness auto
termination
  by (relation "measure (\<lambda>(hm, l, k, s). length s)") (auto dest: match_email_length)

declare redact_text.simps [simp del]

lemma redact_text_cases:
  "match_email s = Some r \<Longrightarrow> redact_text hm log_pii key s
     = mask_email hm (Some (take (length s - length r) s)) log_pii key @ redact_text hm log_pii key r"
  "match_email (c # s) = None \<Longrightarrow> redact_text hm log_pii key (c # s) = c # redact_text hm log_pii key s"
  "redact_text hm log_pii key [] = []"
  by (simp_all add: redact_text.simps [of _ _ _ s] redact_text.simps [of _ _ _ "c # s"] redact_text.simps [of _ _ _ "[]"]
      match_email_def run_then_def)

section \<open>Upstream responses\<close>

record http_response =
  rs_status :: int
  rs_content_type :: "pystr option"
  rs_content :: "char list"
  rs_text :: pystr

definition response_metadata :: "(char list \<Rightarrow> pystr) \<Rightarrow> http_response \<Rightarrow> pydict" where
  "response_metadata sha256 rs =
     [(''status_code'', JInt (rs_status rs)),
      (''content_type'', (case rs_content_type rs of Some t \<Rightarrow> JStr t | None \<Rightarrow> JNull)),
      (''body_len'', JInt (int (length (rs_content rs)))),
      (''body_sha256_8'', JStr (take 8 (sha256 (rs_content rs))))]"

definition type_name :: "json \<Rightarrow> pystr" where
  "type_name v =
     (case v of JNull \<Rightarrow> ''NoneType'' | JBool _ \<Rightarrow> ''bool'' | JInt _ \<Rightarrow> ''int'' | JFloat _ \<Rightarrow> ''float''
      | JStr _ \<Rightarrow> ''str'' | JArr _ \<Rightarrow> ''list'' | JObj _ \<Rightarrow> ''dict'')"

definition json_key_summary :: "json \<Rightarrow> pystr" where
  "json_key_summary v =
     (case v of
        JObj d \<Rightarrow> ''object_keys='' @ py_repr (JArr (map JStr (sort (map fst d))))
      | JArr xs \<Rightarrow> ''list_len='' @ nat_str (length xs)
      | _ \<Rightarrow> ''type='' @ type_name v)"

definition SENSITIVE_KEYS :: "pystr list" where
  "SENSITIVE_KEYS = [''access_token'', ''refresh_token'', ''token'', ''client_secret'', ''authorization'', ''secret'', ''id_token'']"

fun sanitize :: "(pystr \<Rightarrow> pystr) \<Rightarrow> json \<Rightarrow> json"
  and sanitize_items :: "(pystr \<Rightarrow> pystr) \<Rightarrow> json list \<Rightarrow> json list"
  and sanitize_pairs :: "(pystr \<Rightarrow> pystr) \<Rightarrow> pydict \<Rightarrow> pydict" where
  "sanitize f (JObj d) = JObj (sanitize_pairs f d)"
| "sanitize f (JArr xs) = JArr (sanitize_items f xs)"
| "sanitize f (JStr s) = JStr (f s)"
| "sanitize f JNull = JNull"
| "sanitize f (JBool b) = JBool b"
| "sanitize f (JInt i) = JInt i"
| "sanitize f (JFloat t) = JFloat t"
| "sanitize_items f [] = []"
| "sanitize_items f (x # xs) = sanitize f x # sanitize_items f xs"
| "sanitize_pairs f [] = []"
| "sanitize_pairs f ((k, v) # d) =
     (k, if lower k \<in> set SENSITIVE_KEYS then JStr ''[redacted]'' else sanitize f v) # sanitize_pairs f d"

text \<open>\<^verbatim>\<open>sort_keys=True\<close>: the items of every object by key.\<close>

fun sort_keys :: "json \<Rightarrow> json"
  and sort_keys_items :: "json list \<Rightarrow> json list"
  and sort_keys_pairs :: "pydict \<Rightarrow> pydict" where
  "sort_keys (JObj d) = JObj (sort_key fst (sort_keys_pairs d))"
| "sort_keys (JArr xs) = JArr (sort_keys_items xs)"
| "sort_keys (JStr s) = JStr s"
| "sort_keys JNull = JNull"
| "sort_keys (JBool b) = JBool b"
| "sort_keys (JInt i) = JInt i"
| "sort_keys (JFloat t) = JFloat t"
| "sort_keys_items [] = []"
| "sort_keys_items (x # xs) = sort_keys x # sort_keys_items xs"
| "sort_keys_pairs [] = []"
| "sort_keys_pairs ((k, v) # d) = (k, sort_keys v) # sort_keys_pairs d"

definition safe_response_body_text :: "hmac_fun \<Rightarrow> http_response \<Rightarrow> bool \<Rightarrow> pystr \<Rightarrow> nat \<Rightarrow> pystr" where
  "safe_response_body_text hm rs log_pii key limit =
     (let raw_text = take limit (rs_text rs) in
      case json_loads raw_text of
        None \<Rightarrow> redact_text hm log_pii key raw_text
      | Some parsed \<Rightarrow> take limit (json_dumps_spaced (sort_keys (sanitize (redact_text hm log_pii key) parsed))))"

section \<open>Redaction leaves no address\<close>

definition no_email :: "pystr \<Rightarrow> bool" where
  "no_email s \<longleftrightarrow> (\<forall>a b. s = a @ b \<longrightarrow> match_email b = None)"

definition hex_digests :: "hmac_fun \<Rightarrow> bool" where
  "hex_digests hm \<longleftrightarrow> (\<forall>k m. list_all (\<lambda>c. c \<in> set ''0123456789abcdef'') (hm k m))"

lemma class_chars [simp]:
  "\<not> is_local_char (CHR ''@'')" "\<not> is_local_char (CHR ''['')" "\<not> is_local_char (CHR '']'')"
  "\<not> is_label_char (CHR ''['')" "\<not> is_label_char (CHR ''.'')" "\<not> is_letter (CHR ''['')"
  by code_simp+

lemma run_then_iff:
  assumes "\<not> p t"
  shows "run_then p t s = Some r \<longleftrightarrow> (\<exists>a. s = a @ t # r \<and> a \<noteq> [] \<and> length a \<le> 512 \<and> list_all p a)"
proof
  assume "\<exists>a. s = a @ t # r \<and> a \<noteq> [] \<and> length a \<le> 512 \<and> list_all p a"
  then obtain a where a: "s = a @ t # r" "a \<noteq> []" "length a \<le> 512" "list_all p a" by blast
  then have "takeWhile p s = a" using assms by (simp add: takeWhile_append2 list_all_iff)
  with a show "run_then p t s = Some r" by (cases a) (simp_all add: run_then_def Let_def)
qed (rule run_then_Some)

text \<open>A run that stays before an opening bracket does not depend on what follows the bracket.\<close>

lemma run_then_bracket:
  assumes "\<not> p t" "\<not> p (CHR ''['')" "t \<noteq> CHR ''[''" "run_then p t (x @ CHR ''['' # z) = Some r"
  obtains x' where "r = x' @ CHR ''['' # z" "\<And>y. run_then p t (x @ y) = Some (x' @ y)"
proof -
  from assms(4) obtain a where a: "x @ CHR ''['' # z = a @ t # r" "a \<noteq> []" "length a \<le> 512" "list_all p a"
    unfolding run_then_iff [of p, OF assms(1)] by blast
  from a(1,4) assms(2,3) have "\<exists>x'. x = a @ t # x' \<and> r = x' @ CHR ''['' # z"
    by (auto simp: append_eq_append_conv2 append_eq_Cons_conv Cons_eq_append_conv)
  then obtain x' where "x = a @ t # x'" "r = x' @ CHR ''['' # z" by blast
  with that a show ?thesis by (metis run_then_iff assms(1) append.assoc append_Cons)
qed

lemma match_tld_bracket:
  assumes "match_tld (x @ CHR ''['' # z) \<noteq> None"
  shows "match_tld (x @ y) \<noteq> None"
proof -
  have "takeWhile is_letter (x @ CHR ''['' # z) = takeWhile is_letter x"
    by (induction x) simp_all
  moreover have "length (takeWhile is_letter x) \<le> length (takeWhile is_letter (x @ y))"
    by (induction x) simp_all
  ultimately show ?thesis using assms by (auto simp: match_tld_def Let_def split: if_splits)
qed

lemma match_groups_bracket:
  "match_groups k (x @ CHR ''['' # z) \<noteq> None \<Longrightarrow> match_groups k (x @ y) \<noteq> None"
proof (induction k arbitrary: x)
  case 0
  then obtain r where r: "run_then is_label_char (CHR ''.'') (x @ CHR ''['' # z) = Some r" "match_tld r \<noteq> None"
    by (auto simp: match_groups.simps [of 0] split: option.splits)
  obtain x' where "r = x' @ CHR ''['' # z" "run_then is_label_char (CHR ''.'') (x @ y) = Some (x' @ y)"
    by (rule run_then_bracket [OF _ _ _ r(1)]) simp_all
  with r match_tld_bracket [of x' z y] show ?case by (simp add: match_groups.simps [of 0])
next
  case (Suc k)
  then obtain r where r: "run_then is_label_char (CHR ''.'') (x @ CHR ''['' # z) = Some r"
    "match_groups k r \<noteq> None \<or> match_tld r \<noteq> None"
    by (auto simp: match_groups.simps [of "Suc k"] split: option.splits)
  obtain x' where "r = x' @ CHR ''['' # z" "run_then is_label_char (CHR ''.'') (x @ y) = Some (x' @ y)"
    by (rule run_then_bracket [OF _ _ _ r(1)]) simp_all
  with r match_tld_bracket [of x' z y] Suc.IH [of x'] show ?case
    by (auto simp: match_groups.simps [of "Suc k"] split: option.splits)
qed

lemma redact_prefix:
  "\<exists>x y z. s = x @ y \<and> redact_text hm False key s = x @ z \<and> (y = [] \<and> z = [] \<or> (\<exists>z'. z = CHR ''['' # z'))"
proof (induction s)
  case (Cons c s)
  show ?case
  proof (cases "match_email (c # s)")
    case (Some r)
    then obtain z' where "redact_text hm False key (c # s) = CHR ''['' # z'"
      unfolding redact_text_cases(1) [OF Some] mask_email_def by simp
    then show ?thesis by (intro exI [of _ "[]"] exI [of _ "c # s"] exI [of _ "CHR ''['' # z'"]) simp
  next
    case None
    from Cons obtain x y z where "s = x @ y" "redact_text hm False key s = x @ z" "y = [] \<and> z = [] \<or> (\<exists>z'. z = CHR ''['' # z')"
      by blast
    then show ?thesis
      unfolding redact_text_cases(2) [OF None] by (intro exI [of _ "c # x"] exI [of _ y] exI [of _ z]) simp
  qed
qed (simp add: redact_text_cases(3))

lemma match_groups_redact: "match_groups k (redact_text hm False key s) \<noteq> None \<Longrightarrow> match_groups k s \<noteq> None"
  using redact_prefix [of s hm key] match_groups_bracket by (metis append_Nil2)

lemma match_email_iff:
  "match_email s \<noteq> None \<longleftrightarrow>
     (\<exists>a r. s = a @ CHR ''@'' # r \<and> a \<noteq> [] \<and> length a \<le> 512 \<and> list_all is_local_char a \<and> match_groups 255 r \<noteq> None)"
proof -
  have "match_email s \<noteq> None \<longleftrightarrow> (\<exists>r. run_then is_local_char (CHR ''@'') s = Some r \<and> match_groups 255 r \<noteq> None)"
    by (cases "run_then is_local_char (CHR ''@'') s") (simp_all add: match_email_def)
  then show ?thesis unfolding run_then_iff [of is_local_char "CHR ''@''", OF class_chars(1)] by blast
qed

lemma match_email_masked:
  assumes "CHR ''@'' \<notin> set x"
  shows "match_email (x @ CHR '']'' # out) = None"
proof (rule ccontr)
  assume "match_email (x @ CHR '']'' # out) \<noteq> None"
  then obtain a r where "x @ CHR '']'' # out = a @ CHR ''@'' # r" "list_all is_local_char a"
    unfolding match_email_iff by blast
  with assms show False
    by (auto simp: append_eq_append_conv2 append_eq_Cons_conv Cons_eq_append_conv)
qed

lemma no_email_Cons: "no_email (c # s) \<longleftrightarrow> match_email (c # s) = None \<and> no_email s"
  by (auto simp: no_email_def Cons_eq_append_conv)

lemma no_email_masked: "CHR ''@'' \<notin> set x \<Longrightarrow> no_email out \<Longrightarrow> no_email (x @ CHR '']'' # out)"
  by (induction x) (use match_email_masked [of "[]" out] match_email_masked [of "_ # _" out] in \<open>auto simp: no_email_Cons\<close>)

lemma mask_shape:
  assumes "hex_digests hm"
  obtains x where "mask_email hm (Some e) False key = x @ '']''" "CHR ''@'' \<notin> set x"
proof
  have "CHR ''@'' \<notin> set (take 8 (hm key e))"
    using assms unfolding hex_digests_def list_all_iff by (fastforce dest: in_set_takeD)
  then show "CHR ''@'' \<notin> set (''[pii:'' @ take 8 (hm key e))" by simp
qed (simp add: mask_email_def)

lemma redact_starts_at:
  assumes "redact_text hm False key s = CHR ''@'' # r"
  shows "\<exists>s'. s = CHR ''@'' # s' \<and> r = redact_text hm False key s'"
  using assms by (subst (asm) redact_text.simps) (auto simp: mask_email_def split: option.splits list.splits)

lemma redact_no_email:
  assumes "hex_digests hm"
  shows "no_email (redact_text hm False key s)"
proof (induction s rule: length_induct)
  case (1 s)
  let ?R = "redact_text hm False key"
  show ?case
  proof (cases "match_email s")
    case (Some r)
    obtain x where "mask_email hm (Some (take (length s - length r) s)) False key = x @ '']''" "CHR ''@'' \<notin> set x"
      using mask_shape [OF assms] by blast
    moreover have "no_email (?R r)" using 1 match_email_length [OF Some] by blast
    ultimately show ?thesis using Some no_email_masked by (simp add: redact_text_cases(1))
  next
    case None
    show ?thesis
    proof (cases s)
      case (Cons c s')
      have "no_email (?R s')" using 1 Cons by simp
      moreover have "match_email (c # ?R s') = None"
      proof (rule ccontr)
        assume "match_email (c # ?R s') \<noteq> None"
        then obtain a r where a: "c # ?R s' = a @ CHR ''@'' # r" "a \<noteq> []" "length a \<le> 512" "list_all is_local_char a"
          "match_groups 255 r \<noteq> None" unfolding match_email_iff by blast
        then obtain a' where a': "a = c # a'" "?R s' = a' @ CHR ''@'' # r" by (cases a) auto
        show False
        proof (cases "a' = []")
          case True
          with a' obtain s'' where "s' = CHR ''@'' # s''" "r = ?R s''" using redact_starts_at by fastforce
          then have "s = [c] @ CHR ''@'' # s''" "list_all is_local_char [c]" "match_groups 255 s'' \<noteq> None"
            using a a' True Cons match_groups_redact [of 255 hm key s''] by auto
          then have "match_email s \<noteq> None" unfolding match_email_iff by (intro exI [of _ "[c]"] exI [of _ s'']) simp
          with None show False by simp
        next
          case False
          then have "match_email (?R s') \<noteq> None"
            unfolding match_email_iff using a a' by (intro exI [of _ a'] exI [of _ r]) simp
          with \<open>no_email (?R s')\<close> show False by (auto simp: no_email_def)
        qed
      qed
      ultimately show ?thesis using None Cons by (simp add: redact_text_cases(2) no_email_Cons)
    qed (use None in \<open>simp add: redact_text_cases(3) no_email_def\<close>)
  qed
qed

section \<open>Sensitive values do not reach the log\<close>

text \<open>Two values that differ only below sensitive keys.\<close>

inductive same_public :: "json \<Rightarrow> json \<Rightarrow> bool"
  and same_public_pair :: "pystr \<times> json \<Rightarrow> pystr \<times> json \<Rightarrow> bool" where
  same: "same_public v v"
| arr: "list_all2 same_public xs ys \<Longrightarrow> same_public (JArr xs) (JArr ys)"
| obj: "list_all2 same_public_pair d e \<Longrightarrow> same_public (JObj d) (JObj e)"
| secret: "lower k \<in> set SENSITIVE_KEYS \<Longrightarrow> same_public_pair (k, v) (k, u)"
| public: "same_public v u \<Longrightarrow> same_public_pair (k, v) (k, u)"
monos list_all2_mono

inductive_cases same_public_pairE: "same_public_pair x y"

lemma sanitize_items_map: "sanitize_items f xs = map (sanitize f) xs"
  by (induction xs) simp_all

lemma sanitize_pairs_map:
  "sanitize_pairs f d = map (\<lambda>(k, v). (k, if lower k \<in> set SENSITIVE_KEYS then JStr ''[redacted]'' else sanitize f v)) d"
  by (induction d) auto

lemma sanitize_same_public:
  "same_public v u \<Longrightarrow> sanitize f v = sanitize f u"
  "same_public_pair x y \<Longrightarrow> sanitize_pairs f [x] = sanitize_pairs f [y]"
proof (induction rule: same_public_same_public_pair.inducts)
  case (arr xs ys)
  then have "map (sanitize f) xs = map (sanitize f) ys"
    by (induction rule: list_all2_induct) simp_all
  then show ?case by (simp add: sanitize_items_map)
next
  case (obj d e)
  then have "sanitize_pairs f d = sanitize_pairs f e"
    by (induction rule: list_all2_induct) (simp_all add: sanitize_pairs_map)
  then show ?case by simp
qed simp_all

section \<open>Properties\<close>

text \<open>
  C36. Redaction is complete: when addresses are not to be logged, the redacted text contains no
  substring the e-mail pattern matches, wherever the addresses stood and however the text goes on
  around the pseudonyms.
\<close>

theorem redact_text_complete:
  assumes "hex_digests hm"
  shows "no_email (redact_text hm False key s)"
  using assms by (rule redact_no_email)

definition toy_hmac :: hmac_fun where
  "toy_hmac k m = map (\<lambda>c. hex_digit (of_char c mod 10)) m"

lemma toy_hex: "hex_digests toy_hmac"
proof -
  have "list_all (\<lambda>n. hex_digit n \<in> set ''0123456789abcdef'') [0..<10]" by code_simp
  then have "hex_digit n \<in> set ''0123456789abcdef''" if "n < 10" for n
    using that unfolding list_all_iff by simp
  then show ?thesis unfolding hex_digests_def toy_hmac_def list_all_iff by auto
qed

theorem redact_text_complete_witness:
  "redact_text toy_hmac False [] ''to a@b.co or x.1@d'' = ''to [pii:748691] or x.1@d''
   \<and> no_email (redact_text toy_hmac False [] ''to a@b.co or x.1@d'')"
proof -
  have "redact_text toy_hmac False [] ''to a@b.co or x.1@d'' = ''to [pii:748691] or x.1@d''" by code_simp
  then show ?thesis using redact_text_complete [OF toy_hex, of "[]" "''to a@b.co or x.1@d''"] by simp
qed

text \<open>
  The log preview of a JSON response does not depend on the values below sensitive keys, at any
  depth: two responses whose parsed bodies agree except there, also in kind or length of those
  values, are logged alike, and the preview is never longer than the limit.
\<close>

theorem response_preview_hides_secrets:
  assumes "json_loads (take limit (rs_text rs)) = Some v" "json_loads (take limit (rs_text rs')) = Some v'"
    and "same_public v v'"
  shows "safe_response_body_text hm rs log_pii key limit = safe_response_body_text hm rs' log_pii key limit
    \<and> length (safe_response_body_text hm rs log_pii key limit) \<le> limit"
  using assms sanitize_same_public(1) [OF assms(3), of "redact_text hm log_pii key"]
  by (simp add: safe_response_body_text_def)

definition body_with :: "json \<Rightarrow> http_response" where
  "body_with v = \<lparr>rs_status = 400, rs_content_type = None, rs_content = [],
     rs_text = json_dumps (JObj [(''error'', JStr ''a@b.co''), (''Access_Token'', v)])\<rparr>"

theorem response_preview_hides_secrets_witness:
  "safe_response_body_text toy_hmac (body_with (JStr ''s3cret'')) False [] 512
     = safe_response_body_text toy_hmac (body_with (JInt 7)) False [] 512"
proof -
  have l: "json_loads (take 512 (rs_text (body_with (JStr ''s3cret'')))) = Some (JObj [(''error'', JStr ''a@b.co''), (''Access_Token'', JStr ''s3cret'')])"
    "json_loads (take 512 (rs_text (body_with (JInt 7)))) = Some (JObj [(''error'', JStr ''a@b.co''), (''Access_Token'', JInt 7)])"
    by code_simp+
  have "lower ''Access_Token'' \<in> set SENSITIVE_KEYS" by code_simp
  then have "same_public (JObj [(''error'', JStr ''a@b.co''), (''Access_Token'', JStr ''s3cret'')])
      (JObj [(''error'', JStr ''a@b.co''), (''Access_Token'', JInt 7)])"
    by (intro obj) (simp add: public [OF same] secret)
  from response_preview_hides_secrets [OF l this] show ?thesis by blast
qed

text \<open>
  A logged value cannot forge log lines: whatever was supplied, the logged text has no control
  character and at most fourteen characters more than the limit, and it is the supplied text itself
  when that is short and has no control character.
\<close>

theorem sanitize_for_log_safe:
  "list_all (\<lambda>c. \<not> is_control c) (sanitize_for_log v n) \<and> length (sanitize_for_log v n) \<le> n + 14
   \<and> (\<forall>s. list_all (\<lambda>c. \<not> is_control c) s \<and> length s \<le> n \<longrightarrow> sanitize_for_log (JStr s) n = s)"
proof -
  have c: "list_all (\<lambda>c. \<not> is_control c) ''...[truncated]''" "list_all (\<lambda>c. \<not> is_control c) ''None''" by code_simp+
  have f: "list_all (\<lambda>c. \<not> is_control c) (filter (\<lambda>c. \<not> is_control c) s)" for s by (simp add: list_all_iff)
  have t: "list_all P s \<Longrightarrow> list_all P (take k s)" for P and s :: pystr and k
    by (auto simp: list_all_iff dest: in_set_takeD)
  have id: "list_all (\<lambda>c. \<not> is_control c) s \<Longrightarrow> filter (\<lambda>c. \<not> is_control c) s = s" for s
    by (simp add: list_all_iff filter_id_conv)
  have "sanitize_for_log v n = ''None'' \<or> (\<exists>s. sanitize_for_log v n =
      (if length (filter (\<lambda>c. \<not> is_control c) s) > n then take n (filter (\<lambda>c. \<not> is_control c) s) @ ''...[truncated]''
       else filter (\<lambda>c. \<not> is_control c) s))"
    by (cases v) (auto simp: sanitize_for_log_def Let_def)
  then have "list_all (\<lambda>c. \<not> is_control c) (sanitize_for_log v n) \<and> length (sanitize_for_log v n) \<le> n + 14"
  proof (elim disjE exE)
    fix s assume "sanitize_for_log v n =
      (if length (filter (\<lambda>c. \<not> is_control c) s) > n then take n (filter (\<lambda>c. \<not> is_control c) s) @ ''...[truncated]''
       else filter (\<lambda>c. \<not> is_control c) s)"
    then show ?thesis
      using c f [of s] t [OF f, of n s] by (cases "length (filter (\<lambda>c. \<not> is_control c) s) > n") simp_all
  qed (use c in simp)
  moreover have "\<forall>s. list_all (\<lambda>c. \<not> is_control c) s \<and> length s \<le> n \<longrightarrow> sanitize_for_log (JStr s) n = s"
    by (simp add: sanitize_for_log_def id)
  ultimately show ?thesis by blast
qed

theorem sanitize_for_log_safe_witness:
  "sanitize_for_log (JStr ''login failed'') 200 = ''login failed''"
proof -
  have "list_all (\<lambda>c. \<not> is_control c) ''login failed'' \<and> length ''login failed'' \<le> 200" by code_simp
  then show ?thesis using sanitize_for_log_safe [of "JStr ''login failed''" 200] by blast
qed

text \<open>
  The preview is cut before it is parsed, so the protection of sensitive keys ends at the limit: a
  JSON body longer than that is logged as text, in which only addresses are masked.
\<close>

lemma long_body_logged_as_text:
  assumes "json_loads (take limit (rs_text rs)) = None" "CHR ''@'' \<notin> set (take limit (rs_text rs))"
  shows "safe_response_body_text hm rs log_pii key limit = take limit (rs_text rs)"
proof -
  have "match_email s = None" if "CHR ''@'' \<notin> set s" for s
    using that match_email_iff [of s] by (cases "match_email s") auto
  then have "CHR ''@'' \<notin> set s \<Longrightarrow> redact_text hm log_pii key s = s" for s
    by (induction s) (simp_all add: redact_text_cases)
  then show ?thesis using assms by (simp add: safe_response_body_text_def)
qed

definition long_body :: http_response where
  "long_body = \<lparr>rs_status = 400, rs_content_type = None, rs_content = [],
     rs_text = json_dumps (JObj [(''access_token'', JStr ''s3cret''), (''detail'', JStr (replicate 512 (CHR ''x'')))])\<rparr>"

lemma long_body_leaks: "contains (safe_response_body_text hm long_body log_pii key 512) ''s3cret''"
proof -
  have "json_loads (take 512 (rs_text long_body)) = None" by code_simp
  moreover have "CHR ''@'' \<notin> set (take 512 (rs_text long_body))" by code_simp
  ultimately have "safe_response_body_text hm long_body log_pii key 512 = take 512 (rs_text long_body)"
    by (rule long_body_logged_as_text)
  moreover have "contains (take 512 (rs_text long_body)) ''s3cret''" by code_simp
  ultimately show ?thesis by simp
qed

end
