(* ===== verification/Scim_Client.thy ===== *)
theory Scim_Client
  imports Config Json_Text
begin

text \<open>
  \<^verbatim>\<open>app/scim/apple.py\<close>, reading: the requests to Apple's SCIM service, paging through the user list,
  the filtered lookups and the indexes built from them. The service is a parameter that answers a
  request from the requests sent before it; a reply has a status and, when its body is JSON, the
  value. The headers are the same for all requests and left out. Listed users live in a list, the
  indexes point into it, so that the update of a user object in place is seen through both indexes.
\<close>

section \<open>Requests\<close>

datatype scim_request = Get pystr | Post pystr json | Put pystr json | Patch pystr json

datatype scim_reply = Reply int "json option" | NetError

type_synonym scim_net = "scim_request list \<Rightarrow> scim_request \<Rightarrow> scim_reply"

text \<open>Users in the order listed, with the positions of the users by externalId and userName.\<close>

record directory =
  d_users :: "pydict list"
  d_ext :: "(pystr \<times> nat) list"
  d_name :: "(pystr \<times> nat) list"
  d_ids :: "pystr list"

datatype scim_error = ListError | LookupRequired directory | HttpFailure | ScimCrash

text \<open>Calls thread the list of requests sent and may raise.\<close>

type_synonym 'a scim = "scim_request list \<Rightarrow> (scim_error + 'a) \<times> scim_request list"

definition sret :: "'a \<Rightarrow> 'a scim" where
  "sret x tr = (Inr x, tr)"

definition sfail :: "scim_error \<Rightarrow> 'a scim" where
  "sfail e tr = (Inl e, tr)"

definition sbind :: "'a scim \<Rightarrow> ('a \<Rightarrow> 'b scim) \<Rightarrow> 'b scim" where
  "sbind c k tr = (case c tr of (Inl e, tr') \<Rightarrow> (Inl e, tr') | (Inr x, tr') \<Rightarrow> k x tr')"

definition slift :: "scim_error + 'a \<Rightarrow> 'a scim" where
  "slift r tr = (r, tr)"

definition send :: "scim_net \<Rightarrow> scim_request \<Rightarrow> scim_reply scim" where
  "send net q tr = (Inr (net tr q), tr @ [q])"

section \<open>Addresses and identifiers\<close>

definition APPLE_SCIM_BASE :: pystr where
  "APPLE_SCIM_BASE = ''https://federation.apple.com/feeds/business/scim''"

definition USER_LIST_COUNT :: int where "USER_LIST_COUNT = 200"
definition FILTER_LOOKUP_COUNT :: int where "FILTER_LOOKUP_COUNT = 2"

text \<open>\<^verbatim>\<open>urllib.parse.quote(s, safe="")\<close>: the UTF-8 bytes of every character that is not unreserved.\<close>

definition upper_hex :: "nat \<Rightarrow> char" where
  "upper_hex n = (if n < 10 then char_of (48 + n) else char_of (55 + n))"

definition percent :: "nat \<Rightarrow> pystr" where
  "percent n = [CHR ''%'', upper_hex (n div 16), upper_hex (n mod 16)]"

definition quote_char :: "char \<Rightarrow> pystr" where
  "quote_char c = (let n = (of_char c :: nat) in
     if (48 \<le> n \<and> n \<le> 57) \<or> (65 \<le> n \<and> n \<le> 90) \<or> (97 \<le> n \<and> n \<le> 122) \<or> c \<in> set ''_.-~'' then [c]
     else if n < 128 then percent n
     else percent (192 + n div 64) @ percent (128 + n mod 64))"

definition quote :: "pystr \<Rightarrow> pystr" where
  "quote s = concat (map quote_char s)"

text \<open>\<^verbatim>\<open>json.dumps(s, ensure_ascii=False)\<close> of a string.\<close>

definition dump_str_raw :: "pystr \<Rightarrow> pystr" where
  "dump_str_raw s = qt # concat (map (\<lambda>c. if (of_char c :: nat) < 127 then esc_char c else [c]) s) @ [qt]"

definition normalize_identifier :: "json \<Rightarrow> pystr" where
  "normalize_identifier v = lower (str_or_empty v)"

definition ext_of :: "pydict \<Rightarrow> pystr" where
  "ext_of u = str_or_empty (dget u ''externalId'')"

definition name_of :: "pydict \<Rightarrow> pystr" where
  "name_of u = normalize_identifier (dget u ''userName'')"

definition is_safe_user_id :: "json \<Rightarrow> bool" where
  "is_safe_user_id v =
     (case v of
        JStr s \<Rightarrow> s = strip s \<and> s \<notin> {[], ''.'', ''..''}
          \<and> list_all (\<lambda>c. c \<notin> {CHR ''/'', bs, CHR ''%''} \<and> \<not> ((of_char c :: nat) < 32 \<or> (of_char c :: nat) = 127)) s
      | _ \<Rightarrow> False)"

definition user_url :: "pystr \<Rightarrow> pystr" where
  "user_url user_id = APPLE_SCIM_BASE @ ''/Users/'' @ quote user_id"

definition list_url :: pystr where
  "list_url = APPLE_SCIM_BASE @ ''/Users?count='' @ int_str USER_LIST_COUNT"

definition page_url :: "int \<Rightarrow> pystr" where
  "page_url start = list_url @ ''&startIndex='' @ int_str start"

definition filter_url :: "pystr \<Rightarrow> pystr \<Rightarrow> pystr" where
  "filter_url attr v = APPLE_SCIM_BASE @ ''/Users?filter='' @ attr @ ''%20eq%20'' @ quote (dump_str_raw v)
     @ ''&count='' @ int_str FILTER_LOOKUP_COUNT"

section \<open>Pages\<close>

definition fetch_users_page :: "scim_net \<Rightarrow> pystr \<Rightarrow> pydict scim" where
  "fetch_users_page net url =
     sbind (send net (Get url)) (\<lambda>r.
       case r of
         Reply st (Some (JObj data)) \<Rightarrow> if st \<noteq> 200 then sfail ListError else sret data
       | _ \<Rightarrow> sfail ListError)"

fun as_dicts :: "json list \<Rightarrow> pydict list option" where
  "as_dicts [] = Some []"
| "as_dicts (JObj d # xs) = map_option (Cons d) (as_dicts xs)"
| "as_dicts (_ # xs) = None"

definition validate_users_page :: "pydict \<Rightarrow> int \<Rightarrow> int option \<Rightarrow> scim_error + (pydict list \<times> int)" where
  "validate_users_page data expected_start expected_total =
     (case (dget data ''totalResults'', dget_or data ''startIndex'' (JInt expected_start), dget_or data ''Resources'' (JArr [])) of
        (JInt tot, JInt start, JArr raw) \<Rightarrow>
          (case as_dicts raw of
             None \<Rightarrow> Inl ListError
           | Some resources \<Rightarrow>
              (let n = int (length resources) in
               if tot < 0 \<or> (case expected_total of Some t \<Rightarrow> tot \<noteq> t | None \<Rightarrow> False) \<or> start \<noteq> expected_start
                  \<or> dget_or data ''itemsPerPage'' (JInt n) \<noteq> JInt n \<or> start - 1 + n > tot \<or> (resources = [] \<and> start \<le> tot)
               then Inl ListError else Inr (resources, tot)))
      | _ \<Rightarrow> Inl ListError)"

text \<open>The next page; called on a page that passed the validation.\<close>

definition next_users_page_url :: "pydict \<Rightarrow> int \<Rightarrow> scim_error + pystr option" where
  "next_users_page_url data expected_start =
     (case (dget data ''totalResults'', dget_or data ''startIndex'' (JInt expected_start),
            dget_or data ''itemsPerPage'' (JInt (int (length (arr_val (dget_or data ''Resources'' (JArr []))))))) of
        (JInt tot, JInt start, JInt per_page) \<Rightarrow>
          if per_page = 0 then (if start \<le> tot then Inl ListError else Inr None)
          else if start + per_page - 1 < tot then Inr (Some (page_url (start + per_page)))
          else Inr None
      | _ \<Rightarrow> Inl ScimCrash)"

definition apple_single_page :: "pydict \<Rightarrow> int \<Rightarrow> scim_error + pydict list option" where
  "apple_single_page data requested_count =
     (case (dget data ''Resources'', dget data ''totalResults'', dget data ''startIndex'', dget data ''itemsPerPage'') of
        (JArr resources, JInt tot, JInt start, JInt per_page) \<Rightarrow>
          (let n = int (length resources) in
           if tot \<noteq> n \<or> start \<noteq> n + 1 \<or> per_page \<noteq> requested_count then Inr None
           else if n > requested_count then Inl ListError
           else ebind (validate_users_page (dset (dset data ''startIndex'' (JInt 1)) ''itemsPerPage'' (JInt n)) 1 None)
                  (\<lambda>(users, _). Inr (Some users)))
      | _ \<Rightarrow> Inr None)"

section \<open>Indexes\<close>

definition empty_directory :: directory where
  "empty_directory = \<lparr>d_users = [], d_ext = [], d_name = [], d_ids = []\<rparr>"

definition by_external_id :: "directory \<Rightarrow> pystr \<Rightarrow> pydict option" where
  "by_external_id D k = map_option (\<lambda>i. d_users D ! i) (map_of (d_ext D) k)"

definition by_username :: "directory \<Rightarrow> pystr \<Rightarrow> pydict option" where
  "by_username D k = map_option (\<lambda>i. d_users D ! i) (map_of (d_name D) k)"

definition index_user :: "pydict \<Rightarrow> directory \<Rightarrow> directory" where
  "index_user u D =
     (let i = length (d_users D); e = dget u ''externalId''; n = dget_or u ''userName'' (JStr []) in
      D\<lparr>d_users := d_users D @ [u],
        d_ext := (if truthy e then AList.update (strip (py_str e)) i (d_ext D) else d_ext D),
        d_name := (if truthy n then AList.update (normalize_identifier n) i (d_name D) else d_name D)\<rparr>)"

definition index_unique_user :: "pydict \<Rightarrow> directory \<Rightarrow> scim_error + directory" where
  "index_unique_user u D =
     (if \<not> is_safe_user_id (dget u ''id'') then Inl ListError
      else case dget u ''userName'' of
        JStr username \<Rightarrow>
          if strip username = [] then Inl ListError
          else if str_val (dget u ''id'') \<in> set (d_ids D) \<or> map_of (d_name D) (name_of u) \<noteq> None
             \<or> (ext_of u \<noteq> [] \<and> map_of (d_ext D) (ext_of u) \<noteq> None) then Inl ListError
          else Inr (index_user u (D\<lparr>d_ids := d_ids D @ [str_val (dget u ''id'')]\<rparr>))
      | _ \<Rightarrow> Inl ListError)"

fun index_users :: "pydict list \<Rightarrow> directory \<Rightarrow> scim_error + directory" where
  "index_users [] D = Inr D"
| "index_users (u # us) D = ebind (index_unique_user u D) (index_users us)"

definition index_user_list :: "pydict list \<Rightarrow> scim_error + directory" where
  "index_user_list users = index_users users empty_directory"

section \<open>The whole list\<close>

text \<open>One round of the loop: the indexes, the total, the next start and the next address.\<close>

definition list_page ::
  "scim_net \<Rightarrow> pystr \<Rightarrow> int \<Rightarrow> int option \<Rightarrow> directory \<Rightarrow> (directory \<times> int \<times> int \<times> pystr option) scim" where
  "list_page net url expected_start expected_total D =
     sbind (fetch_users_page net url) (\<lambda>data.
     sbind (slift (if expected_total = None then apple_single_page data USER_LIST_COUNT else Inr None)) (\<lambda>apple_users.
       case apple_users of
         Some us \<Rightarrow> sbind (slift (index_user_list us)) (\<lambda>sample. sfail (LookupRequired sample))
       | None \<Rightarrow>
           slift (ebind (validate_users_page data expected_start expected_total) (\<lambda>(users, tot).
                  ebind (index_users users D) (\<lambda>D'.
                  ebind (next_users_page_url data expected_start) (\<lambda>url'.
                  Inr (D', tot, expected_start + int (length users), url')))))))"

lemma validate_users_page_ok:
  assumes "validate_users_page data start expected = Inr (users, tot)"
  shows "dget data ''totalResults'' = JInt tot \<and> dget_or data ''startIndex'' (JInt start) = JInt start
    \<and> dget_or data ''itemsPerPage'' (JInt (int (length users))) = JInt (int (length users))
    \<and> (\<exists>raw. dget_or data ''Resources'' (JArr []) = JArr raw \<and> as_dicts raw = Some users)
    \<and> start - 1 + int (length users) \<le> tot \<and> (users = [] \<longrightarrow> tot < start) \<and> 0 \<le> tot
    \<and> (\<forall>t. expected = Some t \<longrightarrow> tot = t)"
  using assms
  by (auto simp: validate_users_page_def Let_def split: json.splits option.splits if_splits prod.splits)

lemma as_dicts_length: "as_dicts raw = Some us \<Longrightarrow> length us = length raw"
  by (induction raw arbitrary: us rule: as_dicts.induct) auto

lemma next_page_ok:
  assumes "validate_users_page data start expected = Inr (users, tot)" "next_users_page_url data start = Inr url"
  shows "url = (if start + int (length users) \<le> tot then Some (page_url (start + int (length users))) else None)
    \<and> (start + int (length users) \<le> tot \<longrightarrow> users \<noteq> [])"
proof -
  from validate_users_page_ok [OF assms(1)] obtain raw where v: "dget data ''totalResults'' = JInt tot"
    "dget_or data ''startIndex'' (JInt start) = JInt start" "dget_or data ''Resources'' (JArr []) = JArr raw"
    "as_dicts raw = Some users" "dget_or data ''itemsPerPage'' (JInt (int (length users))) = JInt (int (length users))"
    "users = [] \<longrightarrow> tot < start" by blast
  with as_dicts_length [OF v(4)] assms(2) show ?thesis
    by (auto simp: next_users_page_url_def split: if_splits)
qed

lemma list_page_ok:
  assumes "list_page net url start expected D tr = (Inr (D', tot, start', url'), tr')"
  shows "(\<forall>t. expected = Some t \<longrightarrow> tot = t) \<and> start \<le> start' \<and> (url' \<noteq> None \<longrightarrow> start < start' \<and> start' \<le> tot)
    \<and> (url' = None \<longrightarrow> start' = tot + 1 \<or> start' = start \<and> tot < start)
    \<and> tr' = tr @ [Get url]"
proof -
  from assms obtain data users where d: "validate_users_page data start expected = Inr (users, tot)"
    "next_users_page_url data start = Inr url'" "start' = start + int (length users)" "tr' = tr @ [Get url]"
    by (auto simp: list_page_def sbind_def slift_def sfail_def sret_def fetch_users_page_def send_def ebind_Inr_iff
        split: sum.splits prod.splits option.splits scim_reply.splits json.splits if_splits)
  show ?thesis using validate_users_page_ok [OF d(1)] next_page_ok [OF d(1,2)] d(3,4) by (auto split: if_splits)
qed

text \<open>The loop after the first page, when the total is known.\<close>

function list_rest :: "scim_net \<Rightarrow> int \<Rightarrow> int \<Rightarrow> pystr \<Rightarrow> directory \<Rightarrow> directory scim" where
  "list_rest net tot start url D tr =
     (case list_page net url start (Some tot) D tr of
        (Inl e, tr') \<Rightarrow> (Inl e, tr')
      | (Inr (D', tot', start', None), tr') \<Rightarrow> (Inr D', tr')
      | (Inr (D', tot', start', Some url'), tr') \<Rightarrow> list_rest net tot' start' url' D' tr')"
  by pat_completeness auto
termination
  by (relation "measure (\<lambda>(net, tot, start, url, D, tr). nat (tot + 1 - start))")
     (auto dest!: list_page_ok [OF sym])

declare list_rest.simps [simp del]

definition get_existing_users :: "scim_net \<Rightarrow> directory scim" where
  "get_existing_users net =
     sbind (list_page net list_url 1 None empty_directory) (\<lambda>(D, tot, start, url).
       case url of None \<Rightarrow> sret D | Some u \<Rightarrow> list_rest net tot start u D)"

section \<open>Filtered lookups\<close>

definition filtered_resources :: "pydict \<Rightarrow> scim_error + pydict list" where
  "filtered_resources data =
     (case (dget data ''totalResults'', dget_or data ''startIndex'' (JInt 1)) of
        (JInt tot, JInt start) \<Rightarrow>
          if tot < 0 \<or> start \<notin> {0, 1} then Inl ListError
          else (case dget_or data ''Resources'' (if tot = 0 then JArr [] else JNull) of
             JArr raw \<Rightarrow>
               (case as_dicts raw of
                  None \<Rightarrow> Inl ListError
                | Some resources \<Rightarrow>
                    (let n = int (length resources) in
                     if dget_or data ''itemsPerPage'' (JInt n) \<noteq> JInt n \<or> tot \<noteq> n \<or> tot > 1 then Inl ListError
                     else Inr resources))
           | _ \<Rightarrow> Inl ListError)
      | _ \<Rightarrow> Inl ListError)"

definition is_dict :: "json \<Rightarrow> bool" where
  "is_dict v = (case v of JObj _ \<Rightarrow> True | _ \<Rightarrow> False)"

definition has_username :: "pydict \<Rightarrow> bool" where
  "has_username u = (case dget u ''userName'' of JStr s \<Rightarrow> strip s \<noteq> [] | _ \<Rightarrow> False)"

definition validate_filtered_user :: "pydict \<Rightarrow> pystr \<Rightarrow> pystr \<Rightarrow> scim_error + pydict option" where
  "validate_filtered_user data attr expected =
     ebind (filtered_resources data) (\<lambda>resources.
       case resources of
         [] \<Rightarrow> Inr None
       | u # _ \<Rightarrow>
           if \<not> is_safe_user_id (dget u ''id'') \<or> \<not> has_username u \<or> \<not> is_dict (dget_or u ''name'' (JObj [])) then Inl ListError
           else if (if attr = ''userName'' then normalize_identifier (dget u attr) = normalize_identifier (JStr expected)
                    else str_or_empty (dget u attr) = expected)
             then Inr (Some u) else Inl ListError)"

definition same_identity :: "pydict option \<Rightarrow> pydict option \<Rightarrow> bool" where
  "same_identity a b =
     (case (a, b) of
        (Some x, Some y) \<Rightarrow> dget x ''id'' = dget y ''id'' \<and> name_of x = name_of y \<and> ext_of x = ext_of y
      | (None, None) \<Rightarrow> True
      | _ \<Rightarrow> False)"

fun source_identities :: "pydict list \<Rightarrow> pystr list \<Rightarrow> pystr list \<Rightarrow> scim_error + (pystr \<times> pystr) list" where
  "source_identities [] exts names = Inr []"
| "source_identities (u # us) exts names =
     (if ext_of u = [] \<or> \<not> has_username u \<or> ext_of u \<in> set exts \<or> name_of u \<in> set names then Inl ListError
      else ebind (source_identities us (ext_of u # exts) (name_of u # names)) (\<lambda>ids.
        Inr ((ext_of u, str_val (dget u ''userName'')) # ids)))"

definition lookup_filtered_user ::
  "scim_net \<Rightarrow> pystr \<Rightarrow> pystr \<Rightarrow> pydict option \<Rightarrow> pydict option scim" where
  "lookup_filtered_user net attr v sampled =
     sbind (fetch_users_page net (filter_url attr v)) (\<lambda>data.
     sbind (slift (validate_filtered_user data attr v)) (\<lambda>found.
       if sampled \<noteq> None \<and> \<not> same_identity sampled found then sfail ListError else sret found))"

definition record_filtered_identity :: "(pystr \<times> pydict) list \<Rightarrow> pydict option \<Rightarrow> scim_error + (pystr \<times> pydict) list" where
  "record_filtered_identity by_id found =
     (case found of
        None \<Rightarrow> Inr by_id
      | Some u \<Rightarrow>
          (let i = str_val (dget u ''id'') in
           case map_of by_id i of
             Some previous \<Rightarrow> if same_identity (Some previous) (Some u) then Inr (AList.update i u by_id) else Inl ListError
           | None \<Rightarrow> Inr (AList.update i u by_id)))"

text \<open>The three loops: the lookups of every source identity, the direct reads, the comparison.\<close>

type_synonym identity_match = "pystr \<times> pystr \<times> pydict option \<times> pydict option"

fun lookup_identities ::
  "scim_net \<Rightarrow> directory \<Rightarrow> (pystr \<times> pystr) list \<Rightarrow> (pystr \<times> pydict) list
     \<Rightarrow> ((pystr \<times> pydict) list \<times> identity_match list) scim" where
  "lookup_identities net sample [] by_id = sret (by_id, [])"
| "lookup_identities net sample ((external_id, username) # ids) by_id =
     sbind (lookup_filtered_user net ''externalId'' external_id (by_external_id sample external_id)) (\<lambda>em.
     sbind (lookup_filtered_user net ''userName'' username (by_username sample (normalize_identifier (JStr username)))) (\<lambda>um.
     sbind (slift (ebind (record_filtered_identity by_id em) (\<lambda>b. record_filtered_identity b um))) (\<lambda>by_id'.
     sbind (lookup_identities net sample ids by_id') (\<lambda>(by_id'', rs).
     sret (by_id'', (external_id, username, em, um) # rs)))))"

fun verify_identities :: "scim_net \<Rightarrow> (pystr \<times> pydict) list \<Rightarrow> directory \<Rightarrow> directory scim" where
  "verify_identities net [] D = sret D"
| "verify_identities net ((user_id, filtered) # ids) D =
     sbind (fetch_users_page net (user_url user_id)) (\<lambda>verified.
       if \<not> same_identity (Some filtered) (Some verified) \<or> \<not> is_dict (dget_or verified ''name'' (JObj [])) then sfail ListError
       else sbind (slift (index_unique_user verified D)) (verify_identities net ids))"

definition consistent_match :: "directory \<Rightarrow> identity_match \<Rightarrow> bool" where
  "consistent_match D m =
     (case m of (external_id, username, em, um) \<Rightarrow>
        same_identity em (by_external_id D external_id)
        \<and> same_identity um (by_username D (normalize_identifier (JStr username))))"

definition get_existing_users_by_filter :: "scim_net \<Rightarrow> pydict list \<Rightarrow> directory \<Rightarrow> directory scim" where
  "get_existing_users_by_filter net scim_users sample =
     sbind (slift (source_identities scim_users [] [])) (\<lambda>ids.
     sbind (lookup_identities net sample ids []) (\<lambda>(by_id, results).
     sbind (verify_identities net by_id empty_directory) (\<lambda>D.
       if list_all (consistent_match D) results then sret D else sfail ListError)))"

section \<open>Reading sends only reads\<close>

definition sends :: "(scim_request \<Rightarrow> bool) \<Rightarrow> 'a scim \<Rightarrow> bool" where
  "sends P c \<longleftrightarrow> (\<forall>tr. \<exists>new. snd (c tr) = tr @ new \<and> list_all P new)"

definition is_read :: "scim_request \<Rightarrow> bool" where
  "is_read q = (case q of Get _ \<Rightarrow> True | _ \<Rightarrow> False)"

abbreviation reading :: "'a scim \<Rightarrow> bool" where
  "reading c \<equiv> sends is_read c"

named_theorems reads_intro "rules showing which requests a call sends"

lemma sends_pure [reads_intro]: "sends P (sret x)" "sends P (sfail e)" "sends P (slift r)"
  by (simp_all add: sends_def sret_def sfail_def slift_def)

lemma sends_sbind [reads_intro]:
  assumes "sends P c" "\<And>x. sends P (k x)"
  shows "sends P (sbind c k)"
  unfolding sends_def
proof
  fix tr
  obtain r tr' where c: "c tr = (r, tr')" by fastforce
  with assms(1) obtain new where new: "tr' = tr @ new" "list_all P new" unfolding sends_def by (metis snd_conv)
  show "\<exists>new. snd (sbind c k tr) = tr @ new \<and> list_all P new"
  proof (cases r)
    case (Inr x)
    from assms(2) [of x] obtain more where "snd (k x tr') = tr' @ more" "list_all P more" unfolding sends_def by blast
    with new c Inr show ?thesis by (auto simp: sbind_def)
  qed (use new c in \<open>auto simp: sbind_def\<close>)
qed

lemma sends_send [reads_intro]: "P q \<Longrightarrow> sends P (send net q)"
  by (simp add: sends_def send_def)

lemma sends_mono: "sends Q c \<Longrightarrow> (\<And>q. Q q \<Longrightarrow> P q) \<Longrightarrow> sends P c"
  unfolding sends_def by (meson list.pred_mono_strong)

lemma reading_sends: "reading c \<Longrightarrow> (\<And>u. P (Get u)) \<Longrightarrow> sends P c"
  by (erule sends_mono) (auto simp: is_read_def split: scim_request.splits)

lemma reading_fetch [reads_intro]: "reading (fetch_users_page net url)"
  unfolding fetch_users_page_def
  by (rule sends_sbind) (auto simp: is_read_def split: scim_reply.splits option.splits json.splits intro!: reads_intro)

lemma reading_list_page [reads_intro]: "reading (list_page net url start t D)"
  unfolding list_page_def by (intro reads_intro) (auto split: option.splits intro!: reads_intro)

lemma reading_lookup [reads_intro]: "reading (lookup_filtered_user net attr v sampled)"
  unfolding lookup_filtered_user_def by (intro reads_intro) (auto intro!: reads_intro)

lemma reading_lookup_identities [reads_intro]: "reading (lookup_identities net sample ids by_id)"
  by (induction net sample ids by_id rule: lookup_identities.induct) (auto intro!: reads_intro)

lemma reading_verify_identities [reads_intro]: "reading (verify_identities net ids D)"
  by (induction net ids D rule: verify_identities.induct) (auto intro!: reads_intro)

lemma reading_list_rest [reads_intro]: "reading (list_rest net tot start url D)"
proof -
  have "\<exists>new. snd (list_rest net tot start url D tr) = tr @ new \<and> list_all is_read new" for tr
  proof (induction net tot start url D tr rule: list_rest.induct)
    case (1 net tot start url D tr)
    obtain r tr' where p: "list_page net url start (Some tot) D tr = (r, tr')" by fastforce
    with reading_list_page [of net url start "Some tot" D] obtain new where "tr' = tr @ new" "list_all is_read new"
      unfolding sends_def by (metis snd_conv)
    then show ?case
      using 1 p by (subst list_rest.simps) (fastforce split: sum.splits option.splits)
  qed
  then show ?thesis by (simp add: sends_def)
qed

lemma reading_existing [reads_intro]: "reading (get_existing_users net)"
  unfolding get_existing_users_def by (intro reads_intro) (auto split: option.splits intro!: reads_intro)

lemma reading_filter [reads_intro]: "reading (get_existing_users_by_filter net users sample)"
  unfolding get_existing_users_by_filter_def by (intro reads_intro) (auto intro!: reads_intro)

section \<open>The indexes agree with the users\<close>

definition dir_ok :: "directory \<Rightarrow> bool" where
  "dir_ok D \<longleftrightarrow>
     distinct (d_ids D) \<and> map (\<lambda>u. dget u ''id'') (d_users D) = map JStr (d_ids D)
     \<and> list_all (\<lambda>u. is_safe_user_id (dget u ''id'') \<and> has_username u) (d_users D)
     \<and> (\<forall>k i. map_of (d_name D) k = Some i \<longleftrightarrow> i < length (d_users D) \<and> name_of (d_users D ! i) = k)
     \<and> (\<forall>k i. k \<noteq> [] \<longrightarrow> (map_of (d_ext D) k = Some i \<longleftrightarrow> i < length (d_users D) \<and> ext_of (d_users D ! i) = k))"

lemma index_keys:
  "truthy (dget u ''externalId'') \<Longrightarrow> strip (py_str (dget u ''externalId'')) = ext_of u"
  "\<not> truthy (dget u ''externalId'') \<Longrightarrow> ext_of u = []"
  by (simp_all add: ext_of_def str_or_empty_def py_or_def)

lemma username_keys:
  assumes "has_username u"
  shows "truthy (dget_or u ''userName'' (JStr []))" "normalize_identifier (dget_or u ''userName'' (JStr [])) = name_of u"
proof -
  have "dget_or u k v0 = dget u k" if "dget u k \<noteq> JNull" for k v0
    using that by (auto simp: dget_def dget_or_def split: option.splits)
  with assms show "truthy (dget_or u ''userName'' (JStr []))" "normalize_identifier (dget_or u ''userName'' (JStr [])) = name_of u"
    by (auto simp: has_username_def name_of_def split: json.splits)
qed

text \<open>An index after a fresh key.\<close>

lemma index_fresh:
  assumes "\<And>k i. map_of ix k = Some i \<longleftrightarrow> i < length us \<and> key (us ! i) = k" "map_of ix (key u) = None"
  shows "map_of (AList.update (key u) (length us) ix) k = Some i \<longleftrightarrow> i < length (us @ [u]) \<and> key ((us @ [u]) ! i) = k"
  using assms(2) assms(1) [of "key u" i] assms(1) [of k i] by (auto simp: update_conv' nth_append less_Suc_eq)

lemma index_unique_user_cases:
  assumes "index_unique_user u D = Inr D'"
  shows "is_safe_user_id (dget u ''id'') \<and> has_username u \<and> str_val (dget u ''id'') \<notin> set (d_ids D)
    \<and> map_of (d_name D) (name_of u) = None \<and> (ext_of u \<noteq> [] \<longrightarrow> map_of (d_ext D) (ext_of u) = None)
    \<and> D' = index_user u (D\<lparr>d_ids := d_ids D @ [str_val (dget u ''id'')]\<rparr>)"
  using assms by (auto simp: index_unique_user_def has_username_def split: if_splits json.splits)

lemma index_unique_user_ok:
  assumes "dir_ok D" "index_unique_user u D = Inr D'"
  shows "dir_ok D' \<and> d_users D' = d_users D @ [u]"
proof -
  note c = index_unique_user_cases [OF assms(2)]
  let ?n = "length (d_users D)"
  have u: "d_users D' = d_users D @ [u]" and i: "d_ids D' = d_ids D @ [str_val (dget u ''id'')]"
    and n: "d_name D' = AList.update (name_of u) ?n (d_name D)"
    and e: "d_ext D' = (if truthy (dget u ''externalId'') then AList.update (ext_of u) ?n (d_ext D) else d_ext D)"
    using c username_keys [of u] index_keys(1) [of u] by (simp_all add: index_user_def Let_def)
  have id: "dget u ''id'' = JStr (str_val (dget u ''id''))"
    using c by (auto simp: is_safe_user_id_def split: json.splits)
  have "map_of (d_name D') k = Some j \<longleftrightarrow> j < length (d_users D') \<and> name_of (d_users D' ! j) = k" for k j
    unfolding u n using assms(1) c by (intro index_fresh) (auto simp: dir_ok_def)
  moreover have "map_of (d_ext D') k = Some j \<longleftrightarrow> j < length (d_users D') \<and> ext_of (d_users D' ! j) = k" if "k \<noteq> []" for k j
  proof -
    have "\<forall>k i. k \<noteq> [] \<longrightarrow> (map_of (d_ext D) k = Some i \<longleftrightarrow> i < ?n \<and> ext_of (d_users D ! i) = k)"
      using assms(1) unfolding dir_ok_def by blast
    moreover have "ext_of u \<noteq> [] \<longrightarrow> map_of (d_ext D) (ext_of u) = None" using c by blast
    ultimately show ?thesis
      using that index_keys(2) [of u] unfolding u e
      by (cases "truthy (dget u ''externalId'')") (auto simp: update_conv' nth_append less_Suc_eq)
  qed
  moreover have "distinct (d_ids D')" "map (\<lambda>u. dget u ''id'') (d_users D') = map JStr (d_ids D')"
    "list_all (\<lambda>u. is_safe_user_id (dget u ''id'') \<and> has_username u) (d_users D')"
    using assms(1) c id unfolding u i dir_ok_def by simp_all
  ultimately show ?thesis unfolding dir_ok_def using u by simp
qed

lemma index_users_ok:
  "dir_ok D \<Longrightarrow> index_users us D = Inr D' \<Longrightarrow> dir_ok D' \<and> d_users D' = d_users D @ us"
proof (induction us arbitrary: D)
  case (Cons u us)
  then obtain D1 where "index_unique_user u D = Inr D1" "index_users us D1 = Inr D'" by (auto simp: ebind_Inr_iff)
  with Cons index_unique_user_ok show ?case by fastforce
qed simp

lemma dir_ok_empty: "dir_ok empty_directory"
  by (simp add: dir_ok_def empty_directory_def)

text \<open>The state of the paging loop: the users listed so far are those before the next start.\<close>

lemma list_page_inv:
  assumes "list_page net url start expected D tr = (Inr (D', tot, start', url'), tr')"
    and "dir_ok D" "int (length (d_users D)) + 1 = start"
  shows "dir_ok D' \<and> int (length (d_users D')) + 1 = start' \<and> (url' = None \<longrightarrow> int (length (d_users D')) = tot)
    \<and> (\<exists>data. net tr (Get url) = Reply 200 (Some (JObj data)) \<and> dget data ''totalResults'' = JInt tot)"
proof -
  from assms(1) obtain data users where d: "validate_users_page data start expected = Inr (users, tot)"
    "index_users users D = Inr D'" "next_users_page_url data start = Inr url'" "start' = start + int (length users)"
    "net tr (Get url) = Reply 200 (Some (JObj data))"
    by (auto simp: list_page_def sbind_def slift_def sfail_def sret_def fetch_users_page_def send_def ebind_Inr_iff
        split: sum.splits prod.splits option.splits scim_reply.splits json.splits if_splits)
  show ?thesis
    using validate_users_page_ok [OF d(1)] next_page_ok [OF d(1,3)] index_users_ok [OF assms(2) d(2)] assms(3) d(4,5)
    by (auto split: if_splits)
qed

lemma list_rest_inv:
  assumes "list_rest net tot start url D tr = (Inr D', tr')" "dir_ok D" "int (length (d_users D)) + 1 = start" "start \<le> tot"
  shows "dir_ok D' \<and> int (length (d_users D')) = tot \<and> int (length tr') - int (length tr) \<le> tot + 1 - start"
  using assms
proof (induction net tot start url D tr rule: list_rest.induct)
  case (1 net tot start url D tr)
  from 1(2) obtain D1 tot1 start1 url1 tr1 where p: "list_page net url start (Some tot) D tr = (Inr (D1, tot1, start1, url1), tr1)"
    by (subst (asm) list_rest.simps) (auto split: prod.splits sum.splits)
  note ok = list_page_ok [OF p] and inv = list_page_inv [OF p 1(3,4)]
  show ?case
  proof (cases url1)
    case None
    with 1(2) p have "D' = D1 \<and> tr' = tr1" by (subst (asm) list_rest.simps) simp
    with ok inv None 1(5) show ?thesis by simp
  next
    case (Some u)
    with 1(2) p have r: "list_rest net tot1 start1 u D1 tr1 = (Inr D', tr')" by (subst (asm) list_rest.simps) simp
    have "start1 \<le> tot1" using ok Some by simp
    from 1(1) [OF p [symmetric] refl refl refl refl Some r _ _ this] inv ok Some show ?thesis by auto
  qed
qed

lemma dir_ok_lookup:
  assumes "dir_ok D" "u \<in> set (d_users D)"
  shows "by_username D (name_of u) = Some u" "ext_of u \<noteq> [] \<Longrightarrow> by_external_id D (ext_of u) = Some u"
proof -
  from assms(2) obtain i where i: "i < length (d_users D)" "d_users D ! i = u" by (auto simp: in_set_conv_nth)
  with assms(1) have "map_of (d_name D) (name_of u) = Some i" by (simp add: dir_ok_def)
  with i show "by_username D (name_of u) = Some u" by (simp add: by_username_def)
  show "by_external_id D (ext_of u) = Some u" if "ext_of u \<noteq> []"
  proof -
    have "map_of (d_ext D) (ext_of u) = Some i" using that assms(1) i by (simp add: dir_ok_def)
    with i show ?thesis by (simp add: by_external_id_def)
  qed
qed

lemma get_existing_users_ok:
  assumes "get_existing_users net tr = (Inr D, tr')"
  shows "dir_ok D \<and> length tr' \<le> length tr + 1 + length (d_users D)
    \<and> (\<exists>data. net tr (Get list_url) = Reply 200 (Some (JObj data))
          \<and> dget data ''totalResults'' = JInt (int (length (d_users D))))"
proof -
  from assms obtain D1 tot start url tr1 where
    p: "list_page net list_url 1 None empty_directory tr = (Inr (D1, tot, start, url), tr1)"
    and k: "(case url of None \<Rightarrow> sret D1 | Some u \<Rightarrow> list_rest net tot start u D1) tr1 = (Inr D, tr')"
    by (auto simp: get_existing_users_def sbind_def split: prod.splits sum.splits)
  have "int (length (d_users empty_directory)) + 1 = 1" by (simp add: empty_directory_def)
  note inv = list_page_inv [OF p dir_ok_empty this] and ok = list_page_ok [OF p]
  show ?thesis
  proof (cases url)
    case None
    with k inv ok show ?thesis by (auto simp: sret_def)
  next
    case (Some u)
    with k have r: "list_rest net tot start u D1 tr1 = (Inr D, tr')" by simp
    have "dir_ok D1" "int (length (d_users D1)) + 1 = start" "start \<le> tot" "1 < start" "tr1 = tr @ [Get list_url]"
      using inv ok Some by simp_all
    from list_rest_inv [OF r this(1-3)] this inv show ?thesis by auto
  qed
qed

lemma get_existing_users_reads: "get_existing_users net tr = (r, tr') \<Longrightarrow> \<exists>new. tr' = tr @ new \<and> list_all is_read new"
  using reading_existing [of net] unfolding sends_def by (metis snd_conv)

section \<open>Properties\<close>

text \<open>
  C11. Paging through Apple's users ends and is complete: the loop only reads, it sends at most one
  request more than there are users, and when it succeeds the indexes hold exactly as many users as
  the service announced, with pairwise different identifiers, each found again by its userName and,
  when it has one, by its externalId. Any inconsistency of the pages is an error instead.
\<close>

theorem existing_users_complete:
  assumes "get_existing_users net tr = (r, tr')"
  shows "(\<exists>new. tr' = tr @ new \<and> list_all is_read new)
    \<and> (\<forall>D. r = Inr D \<longrightarrow>
         length tr' \<le> length tr + 1 + length (d_users D)
         \<and> (\<exists>data. net tr (Get list_url) = Reply 200 (Some (JObj data))
              \<and> dget data ''totalResults'' = JInt (int (length (d_users D))))
         \<and> distinct (map (\<lambda>u. dget u ''id'') (d_users D))
         \<and> (\<forall>u \<in> set (d_users D). by_username D (name_of u) = Some u
              \<and> (ext_of u \<noteq> [] \<longrightarrow> by_external_id D (ext_of u) = Some u)))"
proof -
  have "distinct (map (\<lambda>u. dget u ''id'') (d_users D))" if "dir_ok D" for D
    using that by (simp add: dir_ok_def distinct_map inj_on_def)
  then show ?thesis
    using get_existing_users_reads [OF assms] get_existing_users_ok [of net tr _ tr'] assms dir_ok_lookup by blast
qed

definition listed_user :: "pystr \<Rightarrow> pystr \<Rightarrow> pystr \<Rightarrow> pydict" where
  "listed_user i e n = [(''id'', JStr i), (''externalId'', JStr e), (''userName'', JStr n)]"

definition one_page :: "int \<Rightarrow> int \<Rightarrow> pydict \<Rightarrow> scim_reply" where
  "one_page tot start u = Reply 200 (Some (JObj [(''totalResults'', JInt tot), (''startIndex'', JInt start),
     (''Resources'', JArr [JObj u])]))"

definition two_page_net :: scim_net where
  "two_page_net tr q =
     (if q = Get list_url then one_page 2 1 (listed_user ''a1'' ''7'' ''x@e.org'')
      else if q = Get (page_url 2) then one_page 2 2 (listed_user ''a2'' ''8'' ''Y@e.org'')
      else NetError)"

theorem existing_users_complete_witness:
  "\<exists>D. fst (get_existing_users two_page_net []) = Inr D \<and> length (d_users D) = 2
     \<and> distinct (map (\<lambda>u. dget u ''id'') (d_users D))"
proof -
  have "case fst (get_existing_users two_page_net []) of Inr D \<Rightarrow> length (d_users D) = 2 | Inl _ \<Rightarrow> False" by code_simp
  then obtain D where "fst (get_existing_users two_page_net []) = Inr D" "length (d_users D) = 2"
    by (auto split: sum.splits)
  moreover obtain r tr' where "get_existing_users two_page_net [] = (r, tr')" by fastforce
  ultimately show ?thesis using existing_users_complete [of two_page_net "[]" r tr'] by auto
qed

end
