(* ===== verification/Scim_Sync.thy ===== *)
theory Scim_Sync
  imports Scim_Client
begin

text \<open>
  \<^verbatim>\<open>app/scim/apple.py\<close>, writing: differences between an Apple and an Authentik user, the update
  requests built from them, reconciliation, creation, recovery after a conflict, and the
  synchronisation of all users. The counters and the Apple user object a call works on are updated
  in place by the code, so they are state that survives an exception. Log lines are left out. The
  source users are those made by \<^verbatim>\<open>_map_to_scim\<close>, whose userName is a string.
\<close>

section \<open>State\<close>

record sync_result =
  created :: nat
  updated :: nat
  unchanged :: nat
  conflicts :: nat
  errors :: nat
  update_400_invalid_request :: nat
  out_of_scope_diffs :: nat
  conflict_usernames :: "pystr list"

definition empty_result :: sync_result where
  "empty_result = \<lparr>created = 0, updated = 0, unchanged = 0, conflicts = 0, errors = 0,
     update_400_invalid_request = 0, out_of_scope_diffs = 0, conflict_usernames = []\<rparr>"

text \<open>Counters, the Apple user object at hand, requests sent.\<close>

record sync_state =
  s_res :: sync_result
  s_obj :: pydict
  s_tr :: "scim_request list"

type_synonym 'a sync = "sync_state \<Rightarrow> (scim_error + 'a) \<times> sync_state"

definition yret :: "'a \<Rightarrow> 'a sync" where
  "yret x s = (Inr x, s)"

definition yfail :: "scim_error \<Rightarrow> 'a sync" where
  "yfail e s = (Inl e, s)"

definition ybind :: "'a sync \<Rightarrow> ('a \<Rightarrow> 'b sync) \<Rightarrow> 'b sync" where
  "ybind c k s = (case c s of (Inl e, s') \<Rightarrow> (Inl e, s') | (Inr x, s') \<Rightarrow> k x s')"

definition ylift :: "'a scim \<Rightarrow> 'a sync" where
  "ylift c s = (case c (s_tr s) of (r, tr) \<Rightarrow> (r, s\<lparr>s_tr := tr\<rparr>))"

definition yobj :: "(pydict \<Rightarrow> 'a sync) \<Rightarrow> 'a sync" where
  "yobj k s = k (s_obj s) s"

definition yset :: "pydict \<Rightarrow> unit sync" where
  "yset u s = (Inr (), s\<lparr>s_obj := u\<rparr>)"

definition count :: "(sync_result \<Rightarrow> sync_result) \<Rightarrow> unit sync" where
  "count f s = (Inr (), s\<lparr>s_res := f (s_res s)\<rparr>)"

definition count_created :: "sync_result \<Rightarrow> sync_result" where
  "count_created r = r\<lparr>created := created r + 1\<rparr>"

definition count_updated :: "sync_result \<Rightarrow> sync_result" where
  "count_updated r = r\<lparr>updated := updated r + 1\<rparr>"

definition count_unchanged :: "sync_result \<Rightarrow> sync_result" where
  "count_unchanged r = r\<lparr>unchanged := unchanged r + 1\<rparr>"

definition count_error :: "sync_result \<Rightarrow> sync_result" where
  "count_error r = r\<lparr>errors := errors r + 1\<rparr>"

definition count_update_400 :: "sync_result \<Rightarrow> sync_result" where
  "count_update_400 r = r\<lparr>update_400_invalid_request := update_400_invalid_request r + 1\<rparr>"

definition count_out_of_scope :: "sync_result \<Rightarrow> sync_result" where
  "count_out_of_scope r = r\<lparr>out_of_scope_diffs := out_of_scope_diffs r + 1\<rparr>"

text \<open>A call of the client whose network error is raised.\<close>

definition http_call :: "scim_net \<Rightarrow> scim_request \<Rightarrow> (int \<times> json option) scim" where
  "http_call net q = sbind (send net q) (\<lambda>r. case r of Reply st body \<Rightarrow> sret (st, body) | NetError \<Rightarrow> sfail HttpFailure)"

section \<open>Recovery by userName\<close>

definition can_recover_by_username :: "settings \<Rightarrow> pydict \<Rightarrow> json \<Rightarrow> bool" where
  "can_recover_by_username cfg apple_user authentik_external_id =
     (let found_ext = ext_of apple_user; current_ext = str_or_empty authentik_external_id in
      if current_ext = [] then False
      else if found_ext \<noteq> [] then found_ext = current_ext
      else apple_scim_allow_username_recovery cfg)"

definition username_conflict :: "pydict \<Rightarrow> sync_result \<Rightarrow> sync_result" where
  "username_conflict user r =
     r\<lparr>conflicts := conflicts r + 1,
       conflict_usernames := (case dget user ''userName'' of JStr (c # s) \<Rightarrow> conflict_usernames r @ [c # s] | _ \<Rightarrow> conflict_usernames r)\<rparr>"

definition record_username_conflict :: "pydict \<Rightarrow> unit sync" where
  "record_username_conflict user = count (username_conflict user)"

definition username_recovery_allowed :: "settings \<Rightarrow> pydict \<Rightarrow> bool sync" where
  "username_recovery_allowed cfg user = yobj (\<lambda>apple_user.
     if can_recover_by_username cfg apple_user (dget user ''externalId'') then yret True
     else ybind (record_username_conflict user) (\<lambda>_. yret False))"

section \<open>Differences\<close>

fun primary_loop :: "pystr option \<Rightarrow> json list \<Rightarrow> pystr option" where
  "primary_loop first_value [] = first_value"
| "primary_loop first_value (JObj e # es) =
     (let v = dget e ''value'';
          fv = (if first_value = None \<and> truthy v then Some (strip (py_str v)) else first_value)
      in if dget e ''primary'' = JBool True \<and> truthy v then Some (strip (py_str v)) else primary_loop fv es)"
| "primary_loop first_value (_ # es) = primary_loop first_value es"

definition primary_email :: "pydict \<Rightarrow> pystr option" where
  "primary_email u =
     (case dget_or u ''emails'' (JArr []) of
        JObj e \<Rightarrow> primary_loop None [JObj e]
      | JArr es \<Rightarrow> primary_loop None es
      | _ \<Rightarrow> None)"

definition normalize_email :: "pystr option \<Rightarrow> pystr" where
  "normalize_email v = (case v of None \<Rightarrow> [] | Some s \<Rightarrow> lower (strip s))"

definition name_part :: "pydict \<Rightarrow> pystr \<Rightarrow> scim_error + pystr" where
  "name_part u key = (case dget_or u ''name'' (JObj []) of JObj d \<Rightarrow> Inr (str_or_empty (dget d key)) | _ \<Rightarrow> Inl ScimCrash)"

definition is_active :: "pydict \<Rightarrow> bool" where
  "is_active u = truthy (dget_or u ''active'' (JBool True))"

type_synonym diffs = "(pystr \<times> bool) list"

definition field_diffs :: "pydict \<Rightarrow> pydict \<Rightarrow> bool \<Rightarrow> scim_error + diffs" where
  "field_diffs existing new include_external_id =
     ebind (name_part existing ''givenName'') (\<lambda>eg. ebind (name_part new ''givenName'') (\<lambda>ng.
     ebind (name_part existing ''familyName'') (\<lambda>ef. ebind (name_part new ''familyName'') (\<lambda>nf.
     Inr ([(''userName'', name_of existing \<noteq> name_of new), (''givenName'', eg \<noteq> ng), (''familyName'', ef \<noteq> nf),
           (''active'', is_active existing \<noteq> is_active new),
           (''email'', normalize_email (primary_email existing) \<noteq> normalize_email (primary_email new))]
          @ (if include_external_id then [(''externalId'', ext_of existing \<noteq> ext_of new)] else []))))))"

definition any_diff :: "diffs \<Rightarrow> bool" where
  "any_diff ds = list_ex snd ds"

definition diff :: "diffs \<Rightarrow> pystr \<Rightarrow> bool" where
  "diff ds k = (map_of ds k = Some True)"

definition users_differ :: "pydict \<Rightarrow> pydict \<Rightarrow> scim_error + bool" where
  "users_differ existing new = ebind (field_diffs existing new True) (\<lambda>ds. Inr (any_diff ds))"

definition update_fields_for_mode :: "pystr \<Rightarrow> pystr list" where
  "update_fields_for_mode mode =
     (if mode = ''external_id_only'' then [''externalId'']
      else if mode = ''emails_only'' then [''emails'']
      else if mode = ''username_only'' then [''userName'']
      else if mode = ''replace_all'' then [''externalId'', ''userName'', ''name'', ''emails'', ''active'']
      else [''externalId'', ''userName'', ''name'', ''emails'', ''active''])"

definition MODE_FIELD_TO_DIFF_KEYS :: "(pystr \<times> pystr list) list" where
  "MODE_FIELD_TO_DIFF_KEYS =
     [(''externalId'', [''externalId'']), (''userName'', [''userName'']), (''name'', [''givenName'', ''familyName'']),
      (''emails'', [''email'']), (''active'', [''active''])]"

definition diff_keys :: "pystr \<Rightarrow> pystr list" where
  "diff_keys f = (case map_of MODE_FIELD_TO_DIFF_KEYS f of Some ks \<Rightarrow> ks | None \<Rightarrow> [])"

definition actionable_diffs :: "diffs \<Rightarrow> pystr \<Rightarrow> diffs" where
  "actionable_diffs ds mode =
     (let allowed_keys = concat (map diff_keys (update_fields_for_mode mode)) in filter (\<lambda>(k, v). k \<in> set allowed_keys) ds)"

section \<open>Update requests\<close>

definition classify_update_400 :: "int \<Rightarrow> json option \<Rightarrow> bool" where
  "classify_update_400 st body =
     (if st \<noteq> 400 then False
      else case body of
        None \<Rightarrow> True
      | Some (JObj d) \<Rightarrow>
          if truthy (dget d ''scimType'') \<or> truthy (dget d ''detail'') \<or> truthy (dget d ''status'') then True else True
      | Some _ \<Rightarrow> True)"

definition replace_op :: "pystr \<Rightarrow> json \<Rightarrow> json" where
  "replace_op path v = JObj [(''op'', JStr ''Replace''), (''path'', JStr path), (''value'', v)]"

definition patch_body :: "json list \<Rightarrow> json" where
  "patch_body ops = JObj [(''schemas'', JArr [JStr ''urn:ietf:params:scim:api:messages:2.0:PatchOp'']), (''Operations'', JArr ops)]"

text \<open>The paths and values of the operations.\<close>

definition changed_name_operations :: "pydict \<Rightarrow> diffs \<Rightarrow> (pystr \<times> json) list" where
  "changed_name_operations user ds =
     map (\<lambda>sub. (''name.'' @ sub, dget_or (obj_val (dget_or user ''name'' (JObj []))) sub (JStr [])))
       (filter (diff ds) (diff_keys ''name''))"

definition field_operations :: "pydict \<Rightarrow> diffs \<Rightarrow> pystr \<Rightarrow> (pystr \<times> json) list" where
  "field_operations user ds f =
     (if f = ''name'' then changed_name_operations user ds
      else if f = ''externalId'' then [(f, JStr (ext_of user))]
      else if f = ''userName'' then [(f, dget user ''userName'')]
      else if f = ''emails'' then [(f, dget_or user ''emails'' (JArr []))]
      else [(f, dget_or user ''active'' (JBool True))])"

definition patch_operations :: "pydict \<Rightarrow> pystr \<Rightarrow> diffs \<Rightarrow> (pystr \<times> json) list" where
  "patch_operations user mode ds =
     concat (map (field_operations user ds)
       (filter (\<lambda>f. list_ex (diff ds) (diff_keys f)) (update_fields_for_mode mode)))"

datatype update_request = PutBody json | PatchBody json

definition build_update_request :: "pydict \<Rightarrow> pystr \<Rightarrow> pystr \<Rightarrow> diffs \<Rightarrow> scim_error + (update_request \<times> pystr list)" where
  "build_update_request user mode apple_id ds =
     (if mode = ''replace_all'' then
        Inr (PutBody (JObj (dset (filter (\<lambda>(k, v). k \<noteq> ''externalId'') user) ''id'' (JStr apple_id))),
             filter (\<lambda>f. f \<noteq> ''externalId'') (update_fields_for_mode mode))
      else if filter (\<lambda>f. list_ex (diff ds) (diff_keys f)) (update_fields_for_mode mode) = [] then Inl ScimCrash
      else let ops = patch_operations user mode ds in
        Inr (PatchBody (patch_body (map (\<lambda>(p, v). replace_op p v) ops)), map fst ops))"

definition count_failed_update :: "int \<Rightarrow> json option \<Rightarrow> unit sync" where
  "count_failed_update st body =
     ybind (count count_error) (\<lambda>_. if classify_update_400 st body then count count_update_400 else yret ())"

definition patch_user :: "scim_net \<Rightarrow> settings \<Rightarrow> pydict \<Rightarrow> diffs \<Rightarrow> unit sync" where
  "patch_user net cfg new_user ds = yobj (\<lambda>apple_user.
     let apple_id = str_val (dget apple_user ''id'') in
     ybind (ylift (slift (build_update_request new_user (apple_scim_update_mode cfg) apple_id ds))) (\<lambda>(req, changed_fields).
     ybind (ylift (http_call net (case req of PutBody b \<Rightarrow> Put (user_url apple_id) b | PatchBody b \<Rightarrow> Patch (user_url apple_id) b)))
       (\<lambda>(st, body). if st \<in> {200, 204} then count count_updated else count_failed_update st body)))"

definition repair_verified :: "pydict \<Rightarrow> pystr \<Rightarrow> pydict \<Rightarrow> bool" where
  "repair_verified verified apple_id new_user \<longleftrightarrow>
     dget verified ''id'' = JStr apple_id \<and> ext_of verified = ext_of new_user \<and> name_of verified = name_of new_user
     \<and> is_dict (dget_or verified ''name'' (JObj []))"

definition patch_external_id :: "scim_net \<Rightarrow> pydict \<Rightarrow> bool sync" where
  "patch_external_id net new_user = yobj (\<lambda>apple_user.
     let apple_id = str_val (dget apple_user ''id'') in
     ybind (ylift (http_call net (Patch (user_url apple_id) (patch_body [replace_op ''externalId'' (JStr (ext_of new_user))]))))
       (\<lambda>(st, body).
          if st \<in> {200, 204} then
            ybind (ylift (send net (Get (user_url apple_id)))) (\<lambda>r.
              case r of
                Reply st' (Some (JObj verified)) \<Rightarrow>
                  if st' = 200 \<and> repair_verified verified apple_id new_user
                  then ybind (yset verified) (\<lambda>_. ybind (count count_updated) (\<lambda>_. yret True))
                  else ybind (count count_error) (\<lambda>_. yret False)
              | _ \<Rightarrow> ybind (count count_error) (\<lambda>_. yret False))
          else ybind (count_failed_update st body) (\<lambda>_. yret False)))"

section \<open>Reconciliation\<close>

text \<open>The part after the differences are known; \<open>attempted\<close> tells that the externalId was repaired.\<close>

definition apply_diffs :: "scim_net \<Rightarrow> settings \<Rightarrow> pydict \<Rightarrow> bool \<Rightarrow> diffs \<Rightarrow> unit sync" where
  "apply_diffs net cfg user attempted ds =
     (let actionable = actionable_diffs ds (apple_scim_update_mode cfg) in
      ybind (if list_ex (\<lambda>(k, v). v \<and> k \<notin> set (map fst actionable)) ds then count count_out_of_scope else yret ()) (\<lambda>_.
        if any_diff actionable then patch_user net cfg user actionable
        else if \<not> attempted then count count_unchanged
        else yret ()))"

definition reconcile_diffs :: "scim_net \<Rightarrow> settings \<Rightarrow> pydict \<Rightarrow> bool \<Rightarrow> unit sync" where
  "reconcile_diffs net cfg user recovered_by_username =
     ybind (if recovered_by_username then username_recovery_allowed cfg user else yret True) (\<lambda>allowed.
     if \<not> allowed then yret ()
     else yobj (\<lambda>apple_user.
       ybind (ylift (slift (field_diffs apple_user user True))) (\<lambda>ds.
         if recovered_by_username \<and> diff ds ''externalId'' then
           ybind (patch_external_id net user) (\<lambda>ok.
             if \<not> ok then yret ()
             else yobj (\<lambda>apple_user'.
               ybind (ylift (slift (field_diffs apple_user' user False))) (apply_diffs net cfg user True)))
         else apply_diffs net cfg user False ds)))"

section \<open>Recovery after a create conflict\<close>

definition query_username_filter :: "scim_net \<Rightarrow> pystr \<Rightarrow> pydict option scim" where
  "query_username_filter net username =
     sbind (send net (Get (filter_url ''userName'' username))) (\<lambda>r.
       case r of
         Reply st (Some (JObj payload)) \<Rightarrow> sret (if st \<noteq> 200 then None else Some payload)
       | _ \<Rightarrow> sret None)"

definition catch_list_error :: "'a scim \<Rightarrow> 'a option scim" where
  "catch_list_error c tr =
     (case c tr of
        (Inr x, tr') \<Rightarrow> (Inr (Some x), tr')
      | (Inl ListError, tr') \<Rightarrow> (Inr None, tr')
      | (Inl (LookupRequired D), tr') \<Rightarrow> (Inr None, tr')
      | (Inl e, tr') \<Rightarrow> (Inl e, tr'))"

text \<open>The listing, or the lookups of the given users when Apple's metadata asks for them.\<close>

definition existing_or_filtered :: "scim_net \<Rightarrow> pydict list \<Rightarrow> (directory \<times> bool) scim" where
  "existing_or_filtered net users tr =
     (case get_existing_users net tr of
        (Inr D, tr') \<Rightarrow> (Inr (D, False), tr')
      | (Inl (LookupRequired sample), tr') \<Rightarrow> sbind (get_existing_users_by_filter net users sample) (\<lambda>D. sret (D, True)) tr'
      | (Inl e, tr') \<Rightarrow> (Inl e, tr'))"

definition verified_filtered_user :: "scim_net \<Rightarrow> pystr \<Rightarrow> pydict \<Rightarrow> pydict \<Rightarrow> pydict option scim" where
  "verified_filtered_user net username found user =
     sbind (catch_list_error (existing_or_filtered net [user])) (\<lambda>r.
       case r of
         None \<Rightarrow> sret None
       | Some (D, _) \<Rightarrow>
          (case by_username D (normalize_identifier (JStr username)) of
             None \<Rightarrow> sret None
           | Some listed \<Rightarrow>
               if dget listed ''id'' \<noteq> dget found ''id'' \<or> ext_of listed \<noteq> ext_of found then sret None
               else sret (Some listed)))"

definition handle_409 :: "scim_net \<Rightarrow> settings \<Rightarrow> pydict \<Rightarrow> unit sync" where
  "handle_409 net cfg user =
     (let username = str_val (dget_or user ''userName'' (JStr [])) in
      ybind (ylift (query_username_filter net username)) (\<lambda>p.
        case p of
          None \<Rightarrow> count count_error
        | Some payload0 \<Rightarrow>
           (let zero_based = (dget payload0 ''startIndex'' = JInt 0);
                payload = (if zero_based then dset payload0 ''startIndex'' (JInt 1) else payload0)
            in case validate_users_page payload 1 None of
                 Inl _ \<Rightarrow> count count_error
               | Inr (resources, tot) \<Rightarrow>
                   if tot > 1 then record_username_conflict user
                   else if tot = 0 then record_username_conflict user
                   else case resources of
                     [] \<Rightarrow> yfail ScimCrash
                   | found # _ \<Rightarrow>
                       if \<not> is_safe_user_id (dget found ''id'') \<or> \<not> has_username found
                          \<or> name_of found \<noteq> normalize_identifier (JStr username) then count count_error
                       else if zero_based then
                         ybind (ylift (verified_filtered_user net username found user)) (\<lambda>v.
                           case v of
                             None \<Rightarrow> count count_error
                           | Some verified \<Rightarrow> ybind (yset verified) (\<lambda>_. reconcile_diffs net cfg user True))
                       else ybind (yset found) (\<lambda>_. reconcile_diffs net cfg user True))))"

section \<open>Creation\<close>

definition verify_created_user :: "scim_net \<Rightarrow> pydict \<Rightarrow> json option \<Rightarrow> bool scim" where
  "verify_created_user net user body =
     (let created_id = (case body of Some (JObj d) \<Rightarrow> dget d ''id'' | _ \<Rightarrow> JNull) in
      if \<not> is_safe_user_id created_id then sret False
      else sbind (catch_list_error (get_existing_users_by_filter net [user] empty_directory)) (\<lambda>r.
        case r of
          None \<Rightarrow> sret False
        | Some D \<Rightarrow>
           (case by_external_id D (strip (py_str (dget user ''externalId''))) of
              None \<Rightarrow> sret False
            | Some em \<Rightarrow> sret (same_identity (Some em) (by_username D (name_of user)) \<and> dget em ''id'' = created_id))))"

definition create_user :: "scim_net \<Rightarrow> settings \<Rightarrow> pydict \<Rightarrow> bool \<Rightarrow> unit sync" where
  "create_user net cfg user verify_identity =
     ybind (ylift (http_call net (Post (APPLE_SCIM_BASE @ ''/Users'') (JObj user)))) (\<lambda>(st, body).
       if st \<in> {200, 201} then
         ybind (if verify_identity then ylift (verify_created_user net user body) else yret True) (\<lambda>ok.
           if ok then count count_created else count count_error)
       else if st = 409 then handle_409 net cfg user
       else count count_error)"

section \<open>All users\<close>

text \<open>The position of the match, whether it was found by userName, whether the two keys disagree.\<close>

definition match_apple_user :: "pydict \<Rightarrow> directory \<Rightarrow> nat option \<times> bool \<times> bool" where
  "match_apple_user user D =
     (case (map_of (d_ext D) (strip (py_str (dget user ''externalId''))), map_of (d_name D) (name_of user)) of
        (Some i, Some j) \<Rightarrow>
          if dget (d_users D ! j) ''id'' \<noteq> dget (d_users D ! i) ''id'' then (None, False, True) else (Some i, False, False)
      | (Some i, None) \<Rightarrow> (Some i, False, False)
      | (None, Some j) \<Rightarrow> if d_users D ! j \<noteq> [] then (Some j, True, False) else (None, False, False)
      | (None, None) \<Rightarrow> (None, False, False))"

text \<open>A network error of one user is counted and the loop goes on.\<close>

definition catch_http :: "unit sync \<Rightarrow> unit sync" where
  "catch_http c s =
     (case c s of
        (Inl HttpFailure, s') \<Rightarrow> count count_error s'
      | r \<Rightarrow> r)"

definition sync_one :: "scim_net \<Rightarrow> settings \<Rightarrow> bool \<Rightarrow> pydict \<Rightarrow> directory \<Rightarrow> sync_state \<Rightarrow> (scim_error + unit) \<times> directory \<times> sync_state" where
  "sync_one net cfg filtered user D s =
     (case match_apple_user user D of
        (m, recovered, conflict) \<Rightarrow>
          if conflict then (case record_username_conflict user s of (r, s') \<Rightarrow> (r, D, s'))
          else case m of
            None \<Rightarrow> (case catch_http (create_user net cfg user filtered) s of (r, s') \<Rightarrow> (r, D, s'))
          | Some i \<Rightarrow>
              (case catch_http (reconcile_diffs net cfg user recovered) (s\<lparr>s_obj := d_users D ! i\<rparr>) of
                 (r, s') \<Rightarrow> (r, D\<lparr>d_users := (d_users D)[i := s_obj s']\<rparr>, s')))"

fun sync_loop :: "scim_net \<Rightarrow> settings \<Rightarrow> bool \<Rightarrow> pydict list \<Rightarrow> directory \<Rightarrow> sync_state \<Rightarrow> (scim_error + unit) \<times> sync_state" where
  "sync_loop net cfg filtered [] D s = (Inr (), s)"
| "sync_loop net cfg filtered (u # us) D s =
     (case sync_one net cfg filtered u D s of
        (Inl e, D', s') \<Rightarrow> (Inl e, s')
      | (Inr _, D', s') \<Rightarrow> sync_loop net cfg filtered us D' s')"

definition sync_users :: "scim_net \<Rightarrow> settings \<Rightarrow> pydict list \<Rightarrow> sync_result scim" where
  "sync_users net cfg scim_users =
     sbind (existing_or_filtered net scim_users) (\<lambda>(D, filtered) tr.
       if \<not> list_all (\<lambda>u. has_key u ''externalId'') scim_users then (Inl ScimCrash, tr)
       else case sync_loop net cfg filtered scim_users D \<lparr>s_res = empty_result, s_obj = [], s_tr = tr\<rparr> of
         (Inl e, s) \<Rightarrow> (Inl e, s_tr s)
       | (Inr _, s) \<Rightarrow> (Inr (s_res s), s_tr s))"

lemma ybind_yret [simp]: "ybind (yret x) k = k x"
  by (simp add: ybind_def yret_def fun_eq_iff)

section \<open>Accounting\<close>

definition handled :: "sync_result \<Rightarrow> nat" where
  "handled r = created r + updated r + unchanged r + conflicts r + errors r"

lemma handled_simps [simp]:
  "handled (count_created r) = handled r + 1" "handled (count_updated r) = handled r + 1"
  "handled (count_unchanged r) = handled r + 1" "handled (count_error r) = handled r + 1"
  "handled (count_update_400 r) = handled r" "handled (count_out_of_scope r) = handled r"
  "handled (username_conflict u r) = handled r + 1" "handled empty_result = 0"
  by (simp_all add: handled_def count_created_def count_updated_def count_unchanged_def count_error_def
      count_update_400_def count_out_of_scope_def username_conflict_def empty_result_def)

text \<open>A call that returns has handled \<open>lo\<close> to \<open>hi\<close> users, one that meets a network error at most \<open>f\<close>.\<close>

definition counts :: "nat \<Rightarrow> nat \<Rightarrow> nat \<Rightarrow> 'a sync \<Rightarrow> bool" where
  "counts lo hi f c \<longleftrightarrow> (\<forall>s r s'. c s = (r, s') \<longrightarrow>
     (case r of
        Inr _ \<Rightarrow> handled (s_res s) + lo \<le> handled (s_res s') \<and> handled (s_res s') \<le> handled (s_res s) + hi
      | Inl e \<Rightarrow> e = HttpFailure \<longrightarrow> handled (s_res s) \<le> handled (s_res s') \<and> handled (s_res s') \<le> handled (s_res s) + f))"

named_theorems counts_intro "rules on the number of users a call handles"

lemma counts_bind:
  assumes "counts loA hiA fA c" "\<And>x. counts loB hiB fB (k x)" "lo \<le> loA + loB" "hiA + hiB \<le> hi" "fA \<le> f" "hiA + fB \<le> f"
  shows "counts lo hi f (ybind c k)"
  unfolding counts_def
proof (intro allI impI)
  fix s r s' assume b: "ybind c k s = (r, s')"
  obtain q t where c: "c s = (q, t)" by fastforce
  show "case r of
        Inr _ \<Rightarrow> handled (s_res s) + lo \<le> handled (s_res s') \<and> handled (s_res s') \<le> handled (s_res s) + hi
      | Inl e \<Rightarrow> e = HttpFailure \<longrightarrow> handled (s_res s) \<le> handled (s_res s') \<and> handled (s_res s') \<le> handled (s_res s) + f"
  proof (cases q)
    case (Inl e)
    with b c assms(1) assms(5) show ?thesis unfolding counts_def ybind_def by fastforce
  next
    case (Inr x)
    with c assms(1) have "handled (s_res s) + loA \<le> handled (s_res t)" "handled (s_res t) \<le> handled (s_res s) + hiA"
      unfolding counts_def by fastforce+
    moreover from Inr b c have "k x t = (r, s')" by (simp add: ybind_def)
    ultimately show ?thesis
      using assms(2) [of x] assms(3-6) unfolding counts_def by (fastforce split: sum.splits)
  qed
qed

lemma counts_pure [counts_intro]:
  "lo = 0 \<Longrightarrow> counts lo hi f (yret x)" "counts lo hi f (yfail ScimCrash)" "lo = 0 \<Longrightarrow> counts lo hi f (yset u)"
  "(\<And>u. counts lo hi f (k u)) \<Longrightarrow> counts lo hi f (yobj k)"
  "lo = 0 \<Longrightarrow> counts lo hi f (ylift c)"
  by (auto simp: counts_def yret_def yfail_def yset_def yobj_def ylift_def split: prod.splits sum.splits)

lemma counts_one [counts_intro]:
  assumes "lo \<le> 1" "1 \<le> hi"
  shows "counts lo hi f (count count_created)" "counts lo hi f (count count_updated)" "counts lo hi f (count count_unchanged)"
    "counts lo hi f (count count_error)" "counts lo hi f (record_username_conflict u)"
  using assms by (auto simp: counts_def count_def record_username_conflict_def)

lemma counts_none [counts_intro]:
  "lo = 0 \<Longrightarrow> counts lo hi f (count count_update_400)" "lo = 0 \<Longrightarrow> counts lo hi f (count count_out_of_scope)"
  by (auto simp: counts_def count_def)

text \<open>Sequencing with a first call that counts nothing, and with one that counts one.\<close>

lemma counts_free:
  "counts 0 0 0 c \<Longrightarrow> (\<And>x. counts lo hi f (k x)) \<Longrightarrow> counts lo hi f (ybind c k)"
  by (rule counts_bind [where loA = 0 and hiA = 0 and fA = 0 and loB = lo and hiB = hi and fB = f]) simp_all

lemma counts_then_ret: "counts lo hi f c \<Longrightarrow> counts lo hi f (ybind c (\<lambda>_. yret x))"
  unfolding counts_def ybind_def yret_def by (fastforce split: sum.splits prod.splits)

lemma counts_if: "(b \<Longrightarrow> counts lo hi f c) \<Longrightarrow> (\<not> b \<Longrightarrow> counts lo hi f c') \<Longrightarrow> counts lo hi f (if b then c else c')"
  by simp

lemma counts_cases:
  "counts lo hi f a \<Longrightarrow> (\<And>x. counts lo hi f (b x)) \<Longrightarrow> counts lo hi f (case v of None \<Rightarrow> a | Some x \<Rightarrow> b x)"
  "(\<And>e. counts lo hi f (l e)) \<Longrightarrow> (\<And>x y. counts lo hi f (p x y)) \<Longrightarrow> counts lo hi f (case r of Inl e \<Rightarrow> l e | Inr (x, y) \<Rightarrow> p x y)"
  "counts lo hi f a \<Longrightarrow> (\<And>x xs'. counts lo hi f (q x xs')) \<Longrightarrow> counts lo hi f (case xs of [] \<Rightarrow> a | x # xs' \<Rightarrow> q x xs')"
  by (simp_all split: option.split sum.split list.split prod.split)

lemma counts_weaken: "counts lo hi f c \<Longrightarrow> lo' \<le> lo \<Longrightarrow> hi \<le> hi' \<Longrightarrow> f \<le> f' \<Longrightarrow> counts lo' hi' f' c"
  unfolding counts_def by (fastforce split: sum.splits)

lemma counts_failed_update: "counts (Suc 0) (Suc 0) f (count_failed_update st body)"
  by (auto simp: counts_def count_failed_update_def ybind_def count_def yret_def)

lemma counts_patch_user: "counts (Suc 0) (Suc 0) 0 (patch_user net cfg u ds)"
  unfolding patch_user_def Let_def case_prod_unfold
  by (intro counts_pure(4) counts_free counts_if counts_failed_update) (simp_all add: counts_intro)

lemma counts_patch_external_id: "counts (Suc 0) (Suc 0) 0 (patch_external_id net u)"
proof -
  have e: "counts (Suc 0) (Suc 0) 0 (ybind (count count_error) (\<lambda>_. yret False))"
    by (intro counts_then_ret counts_one(4)) simp_all
  have v: "counts (Suc 0) (Suc 0) 0 (ybind (yset v) (\<lambda>_. ybind (count count_updated) (\<lambda>_. yret True)))" for v
    by (intro counts_free counts_then_ret counts_one(2)) (simp_all add: counts_intro)
  show ?thesis
    unfolding patch_external_id_def Let_def case_prod_unfold
    by (intro counts_pure(4) counts_free counts_if counts_then_ret counts_failed_update)
       (auto simp: counts_intro e v split: scim_reply.splits option.splits json.splits)
qed

lemma counts_apply_diffs: "counts (if attempted then 0 else Suc 0) (Suc 0) 0 (apply_diffs net cfg u attempted ds)"
  unfolding apply_diffs_def Let_def
  by (intro counts_free counts_if)
     (auto simp: counts_intro intro: counts_weaken [OF counts_patch_user])

lemma counts_reconcile: "counts (Suc 0) 2 (Suc 0) (reconcile_diffs net cfg u recovered)"
proof -
  have rest: "counts (Suc 0) 2 (Suc 0) (yobj (\<lambda>apple_user.
       ybind (ylift (slift (field_diffs apple_user u True))) (\<lambda>ds.
         if recovered \<and> diff ds ''externalId'' then
           ybind (patch_external_id net u) (\<lambda>ok.
             if \<not> ok then yret ()
             else yobj (\<lambda>apple_user'.
               ybind (ylift (slift (field_diffs apple_user' u False))) (apply_diffs net cfg u True)))
         else apply_diffs net cfg u False ds)))"
  proof -
    have a: "counts (Suc 0) 2 (Suc 0) (ybind (patch_external_id net u) (\<lambda>ok.
             if \<not> ok then yret ()
             else yobj (\<lambda>apple_user'.
               ybind (ylift (slift (field_diffs apple_user' u False))) (apply_diffs net cfg u True))))"
      by (rule counts_bind [OF counts_patch_external_id, where loB = 0 and hiB = "Suc 0" and fB = 0])
         (auto intro!: counts_if counts_pure(4) counts_free counts_intro counts_apply_diffs [where attempted = True, simplified])
    have b: "counts (Suc 0) 2 (Suc 0) (apply_diffs net cfg u False x)" for x
      using counts_weaken [OF counts_apply_diffs [where attempted = False]] by simp
    show ?thesis
      by (intro counts_pure(4), rule counts_free) (simp_all add: counts_intro a b)
  qed
  show ?thesis
  proof (cases "recovered")
    case False
    then show ?thesis
      using rest unfolding reconcile_diffs_def by simp
  next
    case True
    show ?thesis
      unfolding counts_def
    proof (intro allI impI)
      fix s r s' assume r: "reconcile_diffs net cfg u recovered s = (r, s')"
      show "case r of
        Inr _ \<Rightarrow> handled (s_res s) + Suc 0 \<le> handled (s_res s') \<and> handled (s_res s') \<le> handled (s_res s) + 2
      | Inl e \<Rightarrow> e = HttpFailure \<longrightarrow> handled (s_res s) \<le> handled (s_res s') \<and> handled (s_res s') \<le> handled (s_res s) + Suc 0"
      proof (cases "can_recover_by_username cfg (s_obj s) (dget u ''externalId'')")
        case False
        with r True show ?thesis
          by (auto simp: reconcile_diffs_def ybind_def username_recovery_allowed_def yobj_def record_username_conflict_def
              count_def yret_def)
      next
        case can: True
        with r True rest show ?thesis
          unfolding counts_def reconcile_diffs_def ybind_def [of "if recovered then _ else _"] username_recovery_allowed_def
          by (simp add: yobj_def yret_def)
      qed
    qed
  qed
qed

lemma counts_handle_409: "counts (Suc 0) 2 (Suc 0) (handle_409 net cfg u)"
proof -
  have r: "counts (Suc 0) 2 (Suc 0) (ybind (yset v) (\<lambda>_. reconcile_diffs net cfg u True))" for v
    by (intro counts_free counts_reconcile) (simp add: counts_intro)
  show ?thesis
    unfolding handle_409_def Let_def
    by (intro counts_free counts_cases counts_if r counts_reconcile) (simp_all add: counts_intro)
qed

lemma counts_create: "counts (Suc 0) 2 (Suc 0) (create_user net cfg u verify)"
  unfolding create_user_def case_prod_unfold
  by (intro counts_free counts_if counts_handle_409) (auto intro!: counts_intro)

lemma counts_catch: "counts lo hi f c \<Longrightarrow> lo \<le> Suc 0 \<Longrightarrow> Suc f \<le> hi \<Longrightarrow> catch_http c s = (Inr x, s') \<Longrightarrow>
    handled (s_res s) + lo \<le> handled (s_res s') \<and> handled (s_res s') \<le> handled (s_res s) + hi"
  unfolding counts_def catch_http_def by (fastforce simp: count_def split: prod.splits sum.splits scim_error.splits)

lemma sync_one_counts:
  assumes "sync_one net cfg filtered u D s = (Inr x, D', s')"
  shows "handled (s_res s) + 1 \<le> handled (s_res s') \<and> handled (s_res s') \<le> handled (s_res s) + 2"
proof -
  consider (conflict) "record_username_conflict u s = (Inr x, s')"
    | (create) "catch_http (create_user net cfg u filtered) s = (Inr x, s')"
    | (update) i rec where "catch_http (reconcile_diffs net cfg u rec) (s\<lparr>s_obj := d_users D ! i\<rparr>) = (Inr x, s')"
    using assms unfolding sync_one_def by (auto split: prod.splits if_splits option.splits)
  then show ?thesis
  proof cases
    case conflict
    then show ?thesis by (auto simp: record_username_conflict_def count_def)
  next
    case create
    from counts_catch [OF counts_create _ _ this] show ?thesis by simp
  next
    case update
    from counts_catch [OF counts_reconcile _ _ this] show ?thesis by simp
  qed
qed

lemma sync_loop_counts:
  "sync_loop net cfg filtered us D s = (Inr x, s') \<Longrightarrow>
     handled (s_res s) + length us \<le> handled (s_res s') \<and> handled (s_res s') \<le> handled (s_res s) + 2 * length us"
proof (induction us arbitrary: D s)
  case (Cons u us)
  then obtain y D1 s1 where "sync_one net cfg filtered u D s = (Inr y, D1, s1)" "sync_loop net cfg filtered us D1 s1 = (Inr x, s')"
    by (auto split: prod.splits sum.splits)
  with Cons.IH sync_one_counts show ?case by fastforce
qed simp

section \<open>Writes go to linked accounts\<close>

text \<open>A user record the service has sent, alone or in a list.\<close>

definition seen :: "scim_net \<Rightarrow> scim_request list \<Rightarrow> pydict \<Rightarrow> bool" where
  "seen net tr a \<longleftrightarrow> (\<exists>pre q post d. tr = pre @ q # post \<and> net pre q = Reply 200 (Some (JObj d))
     \<and> (a = d \<or> (\<exists>raw. dget d ''Resources'' = JArr raw \<and> JObj a \<in> set raw)))"

definition linked :: "settings \<Rightarrow> pydict \<Rightarrow> pydict \<Rightarrow> bool" where
  "linked cfg a u \<longleftrightarrow> ext_of u \<noteq> [] \<and>
     (ext_of a = ext_of u \<or> (ext_of a = [] \<and> apple_scim_allow_username_recovery cfg \<and> name_of a = name_of u))"

definition write_ok :: "scim_net \<Rightarrow> settings \<Rightarrow> pydict list \<Rightarrow> scim_request list \<Rightarrow> scim_request \<Rightarrow> bool" where
  "write_ok net cfg us pre q =
     (case q of
        Get _ \<Rightarrow> True
      | Post url body \<Rightarrow> url = APPLE_SCIM_BASE @ ''/Users'' \<and> (\<exists>u \<in> set us. body = JObj u)
      | Put url _ \<Rightarrow> (\<exists>u \<in> set us. \<exists>a. seen net pre a \<and> url = user_url (str_val (dget a ''id'')) \<and> linked cfg a u)
      | Patch url _ \<Rightarrow> (\<exists>u \<in> set us. \<exists>a. seen net pre a \<and> url = user_url (str_val (dget a ''id'')) \<and> linked cfg a u))"

definition trace_ok :: "scim_net \<Rightarrow> settings \<Rightarrow> pydict list \<Rightarrow> scim_request list \<Rightarrow> bool" where
  "trace_ok net cfg us tr \<longleftrightarrow> (\<forall>pre q post. tr = pre @ q # post \<longrightarrow> write_ok net cfg us pre q)"

lemma trace_ok_Nil [simp]: "trace_ok net cfg us []"
  by (simp add: trace_ok_def)

lemma trace_ok_snoc [simp]: "trace_ok net cfg us (tr @ [q]) \<longleftrightarrow> trace_ok net cfg us tr \<and> write_ok net cfg us tr q"
proof
  assume a: "trace_ok net cfg us (tr @ [q])"
  have "write_ok net cfg us pre q'" if "tr = pre @ q' # post" for pre q' post
    using a that unfolding trace_ok_def by (metis append_Cons append_assoc)
  with a show "trace_ok net cfg us tr \<and> write_ok net cfg us tr q" unfolding trace_ok_def by blast
next
  assume "trace_ok net cfg us tr \<and> write_ok net cfg us tr q"
  then show "trace_ok net cfg us (tr @ [q])"
    unfolding trace_ok_def by (metis append_assoc append_Cons butlast_snoc last_snoc rev_exhaust append_Nil2 last_ConsL last_appendR list.distinct(1) butlast_append butlast.simps(2))
qed

lemma trace_ok_reads: "trace_ok net cfg us tr \<Longrightarrow> list_all is_read new \<Longrightarrow> trace_ok net cfg us (tr @ new)"
proof (induction new rule: rev_induct)
  case (snoc q new)
  then have "write_ok net cfg us (tr @ new) q" by (auto simp: write_ok_def is_read_def split: scim_request.splits)
  with snoc show ?case by (simp flip: append_assoc)
qed simp

lemma reading_trace_ok: "reading c \<Longrightarrow> c tr = (r, tr') \<Longrightarrow> trace_ok net cfg us tr \<Longrightarrow> trace_ok net cfg us tr'"
  unfolding sends_def using trace_ok_reads by (metis snd_conv)

lemma seen_append: "seen net tr a \<Longrightarrow> seen net (tr @ new) a"
  unfolding seen_def by force

lemma reading_seen: "reading c \<Longrightarrow> c tr = (r, tr') \<Longrightarrow> seen net tr a \<Longrightarrow> seen net tr' a"
  unfolding sends_def using seen_append by (metis snd_conv)

lemma seen_now: "net tr q = Reply 200 (Some (JObj d)) \<Longrightarrow> seen net (tr @ [q]) d"
  unfolding seen_def by blast

lemma seen_resource:
  "net tr q = Reply 200 (Some (JObj d)) \<Longrightarrow> dget d ''Resources'' = JArr raw \<Longrightarrow> JObj a \<in> set raw \<Longrightarrow> seen net (tr @ [q]) a"
  unfolding seen_def by blast

text \<open>Listed users have been sent by the service.\<close>

lemma as_dicts_in: "as_dicts raw = Some us \<Longrightarrow> u \<in> set us \<Longrightarrow> JObj u \<in> set raw"
  by (induction raw arbitrary: us rule: as_dicts.induct) auto

lemma validated_resources:
  assumes "validate_users_page data start expected = Inr (us, tot)" "u \<in> set us"
  shows "\<exists>raw. dget data ''Resources'' = JArr raw \<and> JObj u \<in> set raw"
proof -
  from validate_users_page_ok [OF assms(1)] obtain raw where raw: "dget_or data ''Resources'' (JArr []) = JArr raw" "as_dicts raw = Some us"
    by blast
  with assms(2) have "raw \<noteq> []" by auto
  with raw(1) have "dget data ''Resources'' = JArr raw" by (auto simp: dget_or_def dget_def split: option.splits)
  with as_dicts_in [OF raw(2) assms(2)] show ?thesis by blast
qed

lemma list_page_seen:
  assumes "list_page net url start expected D tr = (Inr (D', tot, start', url'), tr')" "dir_ok D"
    and "\<forall>u \<in> set (d_users D). seen net tr u"
  shows "\<forall>u \<in> set (d_users D'). seen net tr' u"
proof -
  from assms(1) obtain data users where d: "validate_users_page data start expected = Inr (users, tot)"
    "index_users users D = Inr D'" "net tr (Get url) = Reply 200 (Some (JObj data))" "tr' = tr @ [Get url]"
    by (auto simp: list_page_def sbind_def slift_def sfail_def sret_def fetch_users_page_def send_def ebind_Inr_iff
        split: sum.splits prod.splits option.splits scim_reply.splits json.splits if_splits)
  from index_users_ok [OF assms(2) d(2)] have "d_users D' = d_users D @ users" by simp
  then show ?thesis
    using assms(3) d(4) seen_append validated_resources [OF d(1)] seen_resource [of net tr, OF d(3)] by fastforce
qed

lemma list_rest_seen:
  assumes "list_rest net tot start url D tr = (Inr D', tr')" "dir_ok D" "int (length (d_users D)) + 1 = start"
    "\<forall>u \<in> set (d_users D). seen net tr u"
  shows "\<forall>u \<in> set (d_users D'). seen net tr' u"
  using assms
proof (induction net tot start url D tr rule: list_rest.induct)
  case (1 net tot start url D tr)
  from 1(2) obtain D1 tot1 start1 url1 tr1 where p: "list_page net url start (Some tot) D tr = (Inr (D1, tot1, start1, url1), tr1)"
    by (subst (asm) list_rest.simps) (auto split: prod.splits sum.splits)
  note inv = list_page_inv [OF p 1(3,4)] and seen = list_page_seen [OF p 1(3,5)]
  show ?case
  proof (cases url1)
    case None
    with 1(2) p have "D' = D1 \<and> tr' = tr1" by (subst (asm) list_rest.simps) simp
    with seen show ?thesis by simp
  next
    case (Some u)
    with 1(2) p have "list_rest net tot1 start1 u D1 tr1 = (Inr D', tr')" by (subst (asm) list_rest.simps) simp
    from 1(1) [OF p [symmetric] refl refl refl refl Some this] inv seen show ?thesis by blast
  qed
qed

lemma get_existing_users_seen:
  assumes "get_existing_users net tr = (Inr D, tr')"
  shows "\<forall>u \<in> set (d_users D). seen net tr' u"
proof -
  from assms obtain D1 tot start url tr1 where
    p: "list_page net list_url 1 None empty_directory tr = (Inr (D1, tot, start, url), tr1)"
    and k: "(case url of None \<Rightarrow> sret D1 | Some u \<Rightarrow> list_rest net tot start u D1) tr1 = (Inr D, tr')"
    by (auto simp: get_existing_users_def sbind_def split: prod.splits sum.splits)
  have e: "int (length (d_users empty_directory)) + 1 = 1" "\<forall>u \<in> set (d_users empty_directory). seen net tr u"
    by (simp_all add: empty_directory_def)
  show ?thesis
    using k list_page_seen [OF p dir_ok_empty e(2)] list_page_inv [OF p dir_ok_empty e(1)] list_rest_seen
    by (cases url) (fastforce simp: sret_def)+
qed

lemma verify_identities_seen:
  assumes "verify_identities net ids D tr = (Inr D', tr')" "dir_ok D" "\<forall>u \<in> set (d_users D). seen net tr u"
  shows "dir_ok D' \<and> (\<forall>u \<in> set (d_users D'). seen net tr' u)"
  using assms
proof (induction net ids D arbitrary: tr rule: verify_identities.induct)
  case (2 net user_id filtered ids D)
  from 2(2) obtain verified D1 where v: "net tr (Get (user_url user_id)) = Reply 200 (Some (JObj verified))"
    "index_unique_user verified D = Inr D1" "verify_identities net ids D1 (tr @ [Get (user_url user_id)]) = (Inr D', tr')"
    "same_identity (Some filtered) (Some verified)" "is_dict (dget_or verified ''name'' (JObj []))"
    by (auto simp: sbind_def slift_def sfail_def sret_def fetch_users_page_def send_def
        split: sum.splits prod.splits option.splits scim_reply.splits json.splits if_splits)
  from index_unique_user_ok [OF 2(3) v(2)] have D1: "dir_ok D1" "d_users D1 = d_users D @ [verified]" by simp_all
  have "\<forall>u \<in> set (d_users D1). seen net (tr @ [Get (user_url user_id)]) u"
    using 2(4) seen_append seen_now [of net tr, OF v(1)] D1(2) by fastforce
  from 2(1) [OF _ v(3) D1(1) this] v(4,5) show ?case by blast
qed (simp add: sret_def)

lemma existing_or_filtered_ok:
  assumes "existing_or_filtered net us tr = (Inr (D, b), tr')"
  shows "dir_ok D \<and> (\<forall>u \<in> set (d_users D). seen net tr' u)"
proof -
  obtain r tr1 where g: "get_existing_users net tr = (r, tr1)" by fastforce
  consider "r = Inr D" "tr' = tr1" | sample where "r = Inl (LookupRequired sample)"
      "get_existing_users_by_filter net us sample tr1 = (Inr D, tr')"
    using assms g by (auto simp: existing_or_filtered_def sbind_def sret_def split: sum.splits scim_error.splits prod.splits)
  then show ?thesis
  proof cases
    case 1
    with g get_existing_users_ok [of net tr D tr'] get_existing_users_seen [of net tr D tr'] show ?thesis by simp
  next
    case 2
    then obtain ids tr2 where "verify_identities net ids empty_directory tr2 = (Inr D, tr')"
      by (auto simp: get_existing_users_by_filter_def sbind_def slift_def sret_def sfail_def split: sum.splits prod.splits if_splits)
    from verify_identities_seen [OF this dir_ok_empty] show ?thesis by (simp add: empty_directory_def)
  qed
qed

lemma reading_catch [reads_intro]: "sends P c \<Longrightarrow> sends P (catch_list_error c)"
  unfolding sends_def catch_list_error_def by (auto split: prod.splits sum.splits scim_error.splits) (metis snd_conv)+

lemma reading_existing_or_filtered [reads_intro]: "reading (existing_or_filtered net us)"
proof -
  have "\<exists>new. snd (existing_or_filtered net us tr) = tr @ new \<and> list_all is_read new" for tr
  proof -
    obtain r tr1 where g: "get_existing_users net tr = (r, tr1)" by fastforce
    from get_existing_users_reads [OF this] obtain new where new: "tr1 = tr @ new" "list_all is_read new" by blast
    have f: "\<exists>more. snd (sbind (get_existing_users_by_filter net us sample) (\<lambda>D. sret (D, True)) tr1) = tr1 @ more \<and> list_all is_read more"
      for sample
    proof -
      have "reading (sbind (get_existing_users_by_filter net us sample) (\<lambda>D. sret (D, True)))" by (intro reads_intro)
      then show ?thesis unfolding sends_def by blast
    qed
    show ?thesis
      using g new f by (auto simp: existing_or_filtered_def split: sum.splits scim_error.splits)
         (metis append_assoc list_all_append)
  qed
  then show ?thesis by (simp add: sends_def)
qed

lemma reading_verified [reads_intro]: "reading (verified_filtered_user net n found u)"
  unfolding verified_filtered_user_def by (intro reads_intro) (auto split: option.splits intro!: reads_intro)

lemma reading_query [reads_intro]: "reading (query_username_filter net n)"
  unfolding query_username_filter_def
  by (rule sends_sbind) (auto simp: is_read_def split: scim_reply.splits option.splits json.splits intro!: reads_intro)

lemma reading_verify_created [reads_intro]: "reading (verify_created_user net u body)"
  unfolding verify_created_user_def Let_def
  by (auto split: option.splits intro!: reads_intro)

text \<open>One user record found by either key.\<close>

lemma verified_filtered_user_ok:
  assumes "verified_filtered_user net n found u tr = (Inr (Some a), tr')"
  shows "seen net tr' a \<and> name_of a = normalize_identifier (JStr n)"
proof -
  obtain D b where e: "existing_or_filtered net [u] tr = (Inr (D, b), tr')"
    and a: "by_username D (normalize_identifier (JStr n)) = Some a"
    using assms
    by (auto simp: verified_filtered_user_def sbind_def catch_list_error_def sret_def
        split: prod.splits sum.splits option.splits if_splits scim_error.splits)
  from existing_or_filtered_ok [OF e] have d: "dir_ok D" "\<forall>u \<in> set (d_users D). seen net tr' u" by simp_all
  from a obtain i where "map_of (d_name D) (normalize_identifier (JStr n)) = Some i" "d_users D ! i = a"
    by (auto simp: by_username_def)
  with d(1) have "i < length (d_users D)" "name_of a = normalize_identifier (JStr n)" by (auto simp: dir_ok_def)
  with \<open>d_users D ! i = a\<close> d(2) show ?thesis using nth_mem by blast
qed

text \<open>The writing calls.\<close>

lemma patch_user_trace:
  assumes "patch_user net cfg u ds s = (r, s')"
  shows "s_obj s' = s_obj s \<and> (s_tr s' = s_tr s \<or> (\<exists>b. s_tr s' = s_tr s @ [Put (user_url (str_val (dget (s_obj s) ''id''))) b]
       \<or> s_tr s' = s_tr s @ [Patch (user_url (str_val (dget (s_obj s) ''id''))) b]))"
  using assms
  by (auto simp: patch_user_def yobj_def ybind_def ylift_def slift_def http_call_def sbind_def send_def sret_def sfail_def
      count_failed_update_def count_def yret_def Let_def
      split: prod.splits sum.splits update_request.splits scim_reply.splits if_splits)

lemma patch_external_id_trace:
  assumes "patch_external_id net u s = (r, s')"
  shows "\<exists>b. s_obj s' = s_obj s \<and> r \<noteq> Inr True \<and> (s_tr s' = s_tr s @ [Patch (user_url (str_val (dget (s_obj s) ''id''))) b]
        \<or> s_tr s' = s_tr s @ [Patch (user_url (str_val (dget (s_obj s) ''id''))) b, Get (user_url (str_val (dget (s_obj s) ''id'')))])
    \<or> s_tr s' = (s_tr s @ [Patch (user_url (str_val (dget (s_obj s) ''id''))) b]) @ [Get (user_url (str_val (dget (s_obj s) ''id'')))]
      \<and> net (s_tr s @ [Patch (user_url (str_val (dget (s_obj s) ''id''))) b]) (Get (user_url (str_val (dget (s_obj s) ''id''))))
          = Reply 200 (Some (JObj (s_obj s')))
      \<and> repair_verified (s_obj s') (str_val (dget (s_obj s) ''id'')) u"
  using assms
  by (auto simp: patch_external_id_def yobj_def ybind_def ylift_def http_call_def sbind_def send_def sret_def sfail_def
      count_failed_update_def count_def yret_def yset_def Let_def
      split: prod.splits sum.splits scim_reply.splits if_splits option.splits json.splits)

definition at_linked :: "scim_net \<Rightarrow> settings \<Rightarrow> pydict list \<Rightarrow> pydict \<Rightarrow> sync_state \<Rightarrow> bool" where
  "at_linked net cfg us u s \<longleftrightarrow> trace_ok net cfg us (s_tr s) \<and> seen net (s_tr s) (s_obj s) \<and> linked cfg (s_obj s) u"

lemma write_ok_linked:
  assumes "seen net tr a" "linked cfg a u" "u \<in> set us"
  shows "write_ok net cfg us tr (Put (user_url (str_val (dget a ''id''))) b)"
    "write_ok net cfg us tr (Patch (user_url (str_val (dget a ''id''))) b)"
  using assms by (auto simp: write_ok_def)

lemma patch_user_linked:
  assumes "patch_user net cfg u ds s = (r, s')" "at_linked net cfg us u s" "u \<in> set us"
  shows "at_linked net cfg us u s' \<and> s_obj s' = s_obj s"
  using patch_user_trace [OF assms(1)] assms(2) write_ok_linked [OF _ _ assms(3)] seen_append
  by (auto simp: at_linked_def)

lemma apply_diffs_linked:
  assumes "apply_diffs net cfg u attempted ds s = (r, s')" "at_linked net cfg us u s" "u \<in> set us"
  shows "at_linked net cfg us u s' \<and> s_obj s' = s_obj s"
proof -
  let ?a = "actionable_diffs ds (apple_scim_update_mode cfg)"
  let ?t = "snd ((if list_ex (\<lambda>(k, v). v \<and> k \<notin> set (map fst ?a)) ds then count count_out_of_scope else yret ()) s)"
  let ?k = "if any_diff ?a then patch_user net cfg u ?a else if \<not> attempted then count count_unchanged else yret ()"
  have "apply_diffs net cfg u attempted ds s = ?k ?t"
    by (simp add: apply_diffs_def Let_def ybind_def count_def yret_def)
  with assms(1) obtain t where t: "s_tr t = s_tr s" "s_obj t = s_obj s" and r: "?k t = (r, s')"
    by (auto simp: count_def yret_def intro!: that [of ?t] split: if_splits)
  have l: "at_linked net cfg us u t" using assms(2) t by (simp add: at_linked_def)
  show ?thesis
  proof (cases "any_diff ?a")
    case True
    with r have "patch_user net cfg u ?a t = (r, s')" by simp
    from patch_user_linked [OF this l assms(3)] t show ?thesis by simp
  next
    case False
    with r t l show ?thesis by (auto simp: count_def yret_def at_linked_def split: if_splits)
  qed
qed

lemma patch_external_id_linked:
  assumes "patch_external_id net u s = (r, s')" "at_linked net cfg us u s" "u \<in> set us"
  shows "at_linked net cfg us u s' \<and> (s_obj s' = s_obj s \<or> name_of (s_obj s') = name_of u)"
proof -
  have w: "write_ok net cfg us (s_tr s) (Patch (user_url (str_val (dget (s_obj s) ''id''))) b)" for b
    using assms(2,3) by (auto simp: at_linked_def intro: write_ok_linked(2))
  have g: "write_ok net cfg us tr (Get x)" for tr x by (simp add: write_ok_def)
  from patch_external_id_trace [OF assms(1)] show ?thesis
  proof (elim exE disjE conjE)
    fix b
    let ?tr = "s_tr s @ [Patch (user_url (str_val (dget (s_obj s) ''id''))) b]"
    let ?get = "Get (user_url (str_val (dget (s_obj s) ''id'')))"
    assume s': "s_tr s' = ?tr @ [?get]" "net ?tr ?get = Reply 200 (Some (JObj (s_obj s')))"
      and v: "repair_verified (s_obj s') (str_val (dget (s_obj s) ''id'')) u"
    have "trace_ok net cfg us (s_tr s')" using assms(2) w g unfolding s'(1) trace_ok_snoc by (simp add: at_linked_def)
    moreover have "seen net (s_tr s') (s_obj s')" unfolding s'(1) by (rule seen_now) (rule s'(2))
    moreover have "linked cfg (s_obj s') u" "name_of (s_obj s') = name_of u"
      using v assms(2) by (auto simp: repair_verified_def linked_def at_linked_def)
    ultimately show ?thesis by (simp add: at_linked_def)
  next
    fix b assume "s_obj s' = s_obj s" "s_tr s' = s_tr s @ [Patch (user_url (str_val (dget (s_obj s) ''id''))) b]"
    with assms(2) w seen_append show ?thesis by (auto simp: at_linked_def)
  next
    fix b assume o: "s_obj s' = s_obj s"
      and t: "s_tr s' = s_tr s @ [Patch (user_url (str_val (dget (s_obj s) ''id''))) b, Get (user_url (str_val (dget (s_obj s) ''id'')))]"
    have "trace_ok net cfg us ((s_tr s @ [Patch (user_url (str_val (dget (s_obj s) ''id''))) b]) @ [Get (user_url (str_val (dget (s_obj s) ''id'')))])"
      using assms(2) w g unfolding trace_ok_snoc by (simp add: at_linked_def)
    then show ?thesis using o t assms(2) seen_append by (auto simp: at_linked_def)
  qed
qed

text \<open>Reconciliation: what it takes, what it writes, and when it replaces the object.\<close>

lemma reconcile_linked:
  assumes "reconcile_diffs net cfg u recovered s = (r, s')" "u \<in> set us" "ext_of u \<noteq> []"
    and "trace_ok net cfg us (s_tr s)" "seen net (s_tr s) (s_obj s)"
    and "if recovered then name_of (s_obj s) = name_of u else ext_of (s_obj s) = ext_of u"
  shows "trace_ok net cfg us (s_tr s') \<and> seen net (s_tr s') (s_obj s')
    \<and> (s_obj s' = s_obj s \<or> recovered \<and> ext_of (s_obj s) = [] \<and> name_of (s_obj s') = name_of u)"
proof (cases "recovered \<and> \<not> can_recover_by_username cfg (s_obj s) (dget u ''externalId'')")
  case True
  with assms(1) have "s_tr s' = s_tr s" "s_obj s' = s_obj s"
    by (auto simp: reconcile_diffs_def ybind_def username_recovery_allowed_def yobj_def record_username_conflict_def
        count_def yret_def)
  with assms(4,5) show ?thesis by simp
next
  case False
  have l: "at_linked net cfg us u s"
    using False assms(3-6)
    by (auto simp: at_linked_def linked_def can_recover_by_username_def Let_def ext_of_def [of u] split: if_splits)
  let ?f = "field_diffs (s_obj s) u True"
  have r: "(case ?f of Inl e \<Rightarrow> (Inl e, s)
     | Inr ds \<Rightarrow> (if recovered \<and> diff ds ''externalId'' then
           ybind (patch_external_id net u) (\<lambda>ok.
             if \<not> ok then yret ()
             else yobj (\<lambda>apple_user'.
               ybind (ylift (slift (field_diffs apple_user' u False))) (apply_diffs net cfg u True)))
         else apply_diffs net cfg u False ds) s) = (r, s')"
    using assms(1) False
    by (auto simp: reconcile_diffs_def ybind_def [of "if recovered then _ else _"] username_recovery_allowed_def yobj_def yret_def
        ybind_def [of "ylift (slift (field_diffs (s_obj s) u True))"] ylift_def slift_def split: sum.splits if_splits)
  show ?thesis
  proof (cases ?f)
    case (Inl e)
    with r l show ?thesis by (auto simp: at_linked_def)
  next
    case (Inr ds)
    show ?thesis
    proof (cases "recovered \<and> diff ds ''externalId''")
      case False
      with r Inr have "apply_diffs net cfg u False ds s = (r, s')" by auto
      from apply_diffs_linked [OF this l assms(2)] show ?thesis by (auto simp: at_linked_def)
    next
      case True
      have e: "ext_of (s_obj s) = []"
        using True Inr l by (auto simp: field_diffs_def ebind_Inr_iff diff_def at_linked_def linked_def)
      obtain ok t where p: "patch_external_id net u s = (ok, t)" by fastforce
      note pl = patch_external_id_linked [OF p l assms(2)]
      have "at_linked net cfg us u s' \<and> s_obj s' = s_obj t"
      proof (cases "ok = Inr True")
        case False
        then have "s' = t" using r Inr True p by (auto simp: ybind_def yret_def split: sum.splits)
        with pl show ?thesis by simp
      next
        case ok: True
        show ?thesis
        proof (cases "field_diffs (s_obj t) u False")
          case (Inl e)
          with r Inr True p ok have "s' = t" by (auto simp: ybind_def yobj_def ylift_def slift_def)
          with pl show ?thesis by simp
        next
          case (Inr ds')
          with r \<open>?f = Inr ds\<close> True p ok have "apply_diffs net cfg u True ds' t = (r, s')"
            by (auto simp: ybind_def yobj_def ylift_def slift_def)
          from apply_diffs_linked [OF this _ assms(2)] pl show ?thesis by simp
        qed
      qed
      with e pl True show ?thesis by (auto simp: at_linked_def)
    qed
  qed
qed

lemma counting_trace:
  "count f s = (r, s') \<Longrightarrow> s_tr s' = s_tr s" "record_username_conflict u s = (r, s') \<Longrightarrow> s_tr s' = s_tr s"
  by (auto simp: count_def record_username_conflict_def)

lemma reconcile_found:
  assumes "ybind (yset a) (\<lambda>_. reconcile_diffs net cfg u True) s = (r, s')" "u \<in> set us" "ext_of u \<noteq> []"
    and "trace_ok net cfg us (s_tr s)" "seen net (s_tr s) a" "name_of a = name_of u"
  shows "trace_ok net cfg us (s_tr s')"
proof -
  have "reconcile_diffs net cfg u True (s\<lparr>s_obj := a\<rparr>) = (r, s')" using assms(1) by (simp add: ybind_def yset_def)
  from reconcile_linked [OF this assms(2,3)] assms(4-6) show ?thesis by simp
qed

lemma reconcile_verified:
  assumes "ybind (ylift (verified_filtered_user net n found u)) (\<lambda>v.
      case v of None \<Rightarrow> count count_error | Some verified \<Rightarrow> ybind (yset verified) (\<lambda>_. reconcile_diffs net cfg u True)) s = (r, s')"
    and "u \<in> set us" "ext_of u \<noteq> []" "trace_ok net cfg us (s_tr s)" "normalize_identifier (JStr n) = name_of u"
  shows "trace_ok net cfg us (s_tr s')"
proof -
  obtain v tr2 where v: "verified_filtered_user net n found u (s_tr s) = (v, tr2)" by fastforce
  have t2: "trace_ok net cfg us tr2" by (rule reading_trace_ok [OF reading_verified v assms(4)])
  show ?thesis
  proof (cases "\<exists>a. v = Inr (Some a)")
    case False
    with assms(1) v have "s_tr s' = tr2"
      by (auto simp: ybind_def ylift_def count_def split: sum.splits option.splits)
    with t2 show ?thesis by simp
  next
    case True
    then obtain a where a: "v = Inr (Some a)" by blast
    with assms(1) v have "ybind (yset a) (\<lambda>_. reconcile_diffs net cfg u True) (s\<lparr>s_tr := tr2\<rparr>) = (r, s')"
      by (auto simp: ybind_def [of "ylift _"] ylift_def)
    from reconcile_found [OF this assms(2,3)] t2 verified_filtered_user_ok [OF v [unfolded a]] assms(5) show ?thesis by simp
  qed
qed

lemma query_username_filter_ok:
  "query_username_filter net n tr = (Inr (Some payload), tr') \<Longrightarrow>
     tr' = tr @ [Get (filter_url ''userName'' n)] \<and> net tr (Get (filter_url ''userName'' n)) = Reply 200 (Some (JObj payload))"
  by (auto simp: query_username_filter_def sbind_def send_def sret_def split: scim_reply.splits option.splits json.splits if_splits)

lemma query_username_filter_returns: "\<exists>p tr'. query_username_filter net n tr = (Inr p, tr')"
  by (auto simp: query_username_filter_def sbind_def send_def sret_def split: scim_reply.splits option.splits json.splits)

lemma handle_409_linked:
  assumes "handle_409 net cfg u s = (r, s')" "u \<in> set us" "ext_of u \<noteq> []" "has_username u" "trace_ok net cfg us (s_tr s)"
  shows "trace_ok net cfg us (s_tr s')"
proof -
  define n where "n = str_val (dget_or u ''userName'' (JStr []))"
  have n: "normalize_identifier (JStr n) = name_of u"
    using assms(4) unfolding n_def has_username_def name_of_def
    by (auto simp: dget_or_def dget_def split: option.splits json.splits)
  obtain p tr1 where q: "query_username_filter net n (s_tr s) = (Inr p, tr1)" using query_username_filter_returns by blast
  have t1: "trace_ok net cfg us tr1" by (rule reading_trace_ok [OF reading_query q assms(5)])
  let ?s = "s\<lparr>s_tr := tr1\<rparr>"
  show ?thesis
  proof (cases p)
    case None
    with assms(1) q have "s_tr s' = tr1"
      by (auto simp: handle_409_def n_def [symmetric] ybind_def ylift_def count_def)
    with t1 show ?thesis by simp
  next
    case (Some payload0)
    define zb where "zb \<longleftrightarrow> dget payload0 ''startIndex'' = JInt 0"
    define payload where "payload = (if zb then dset payload0 ''startIndex'' (JInt 1) else payload0)"
    have res: "dget payload ''Resources'' = dget payload0 ''Resources''" by (simp add: payload_def dget_dset)
    note ok = query_username_filter_ok [OF q [unfolded Some]]
    show ?thesis
    proof (cases "\<exists>found rest tot. validate_users_page payload 1 None = Inr (found # rest, tot) \<and> \<not> tot > 1 \<and> tot \<noteq> 0
         \<and> is_safe_user_id (dget found ''id'') \<and> has_username found \<and> name_of found = normalize_identifier (JStr n)")
      case False
      then have "s_tr s' = tr1"
        using assms(1) q Some
        by (auto simp: handle_409_def n_def [symmetric] zb_def [symmetric] payload_def [symmetric] Let_def
            ybind_def [of "ylift (query_username_filter net n)"] ylift_def yfail_def
            split: sum.splits if_splits list.splits dest!: counting_trace)
      with t1 show ?thesis by simp
    next
      case True
      then obtain found rest tot where f: "validate_users_page payload 1 None = Inr (found # rest, tot)" "\<not> tot > 1" "tot \<noteq> 0"
        "is_safe_user_id (dget found ''id'')" "has_username found" "name_of found = normalize_identifier (JStr n)" by blast
      from validated_resources [OF f(1), of found] res obtain raw where "dget payload0 ''Resources'' = JArr raw" "JObj found \<in> set raw"
        by auto
      from seen_resource [of net "s_tr s", OF _ this] ok have sf: "seen net tr1 found" by blast
      have r: "(if zb then ybind (ylift (verified_filtered_user net n found u)) (\<lambda>v.
             case v of None \<Rightarrow> count count_error | Some verified \<Rightarrow> ybind (yset verified) (\<lambda>_. reconcile_diffs net cfg u True))
           else ybind (yset found) (\<lambda>_. reconcile_diffs net cfg u True)) ?s = (r, s')"
        using assms(1) q Some f
        by (auto simp: handle_409_def n_def [symmetric] zb_def [symmetric] payload_def [symmetric] Let_def
            ybind_def [of "ylift (query_username_filter net n)"] ylift_def)
      show ?thesis
        using r reconcile_found [OF _ assms(2,3), of found net cfg ?s r s'] reconcile_verified [OF _ assms(2,3), of net n found cfg ?s r s']
          t1 sf f(6) n by (auto split: if_splits)
    qed
  qed
qed

lemma http_call_step:
  "net (s_tr s) q = Reply st body \<Longrightarrow> ybind (ylift (http_call net q)) k s = k (st, body) (s\<lparr>s_tr := s_tr s @ [q]\<rparr>)"
  "net (s_tr s) q = NetError \<Longrightarrow> ybind (ylift (http_call net q)) k s = (Inl HttpFailure, s\<lparr>s_tr := s_tr s @ [q]\<rparr>)"
  by (simp_all add: ybind_def ylift_def http_call_def sbind_def send_def sret_def sfail_def)

lemma create_user_linked:
  assumes "create_user net cfg u verify s = (r, s')" "u \<in> set us" "ext_of u \<noteq> []" "has_username u" "trace_ok net cfg us (s_tr s)"
  shows "trace_ok net cfg us (s_tr s')"
proof -
  let ?post = "Post (APPLE_SCIM_BASE @ ''/Users'') (JObj u)"
  have t1: "trace_ok net cfg us (s_tr s @ [?post])" using assms(2,5) by (auto simp: write_ok_def)
  let ?s = "s\<lparr>s_tr := s_tr s @ [?post]\<rparr>"
  show ?thesis
  proof (cases "net (s_tr s) ?post")
    case NetError
    with assms(1) have "s_tr s' = s_tr s @ [?post]"
      unfolding create_user_def http_call_step(2) [of net s, OF NetError] by auto
    with t1 show ?thesis by simp
  next
    case (Reply st body)
    have k: "(if st \<in> {200, 201} then
         ybind (if verify then ylift (verify_created_user net u body) else yret True) (\<lambda>ok.
           if ok then count count_created else count count_error)
       else if st = 409 then handle_409 net cfg u
       else count count_error) ?s = (r, s')"
      using assms(1) unfolding create_user_def http_call_step(1) [of net s, OF Reply] prod.case .
    obtain ok tr2 where v: "verify_created_user net u body (s_tr s @ [?post]) = (ok, tr2)" by fastforce
    have t2: "trace_ok net cfg us tr2" by (rule reading_trace_ok [OF reading_verify_created v t1])
    show ?thesis
    proof (cases "st = 409")
      case True
      with k handle_409_linked [OF _ assms(2-4)] t1 show ?thesis by fastforce
    next
      case False
      with k v have "s_tr s' = s_tr s @ [?post] \<or> s_tr s' = tr2"
        by (auto simp: ybind_def ylift_def count_def yret_def split: if_splits sum.splits)
      with t1 t2 show ?thesis by auto
    qed
  qed
qed

lemma catch_http_trace: "catch_http c s = (r, s') \<Longrightarrow> \<exists>q t. c s = (q, t) \<and> s_tr s' = s_tr t \<and> s_obj s' = s_obj t"
  unfolding catch_http_def by (auto simp: count_def split: prod.splits sum.splits scim_error.splits)

text \<open>Calls only append requests.\<close>

definition extends :: "'a sync \<Rightarrow> bool" where
  "extends c \<longleftrightarrow> (\<forall>s r s'. c s = (r, s') \<longrightarrow> (\<exists>new. s_tr s' = s_tr s @ new))"

named_theorems extends_intro "rules showing that a call appends requests"

lemma extends_simps [extends_intro]:
  "extends (yret x)" "extends (yfail e)" "extends (count f)" "extends (yset u)" "(\<And>u. extends (k u)) \<Longrightarrow> extends (yobj k)"
  "extends (ylift (slift v))" "extends (record_username_conflict u)"
  by (auto simp: extends_def yret_def yfail_def count_def yset_def yobj_def ylift_def slift_def record_username_conflict_def)

lemma extends_ylift [extends_intro]: "sends P c \<Longrightarrow> extends (ylift c)"
  unfolding extends_def ylift_def sends_def
  by (auto split: prod.splits) (metis snd_conv sync_state.select_convs(3) sync_state.surjective sync_state.update_convs(3))

lemma extends_ybind [extends_intro]:
  assumes "extends c" "\<And>x. extends (k x)"
  shows "extends (ybind c k)"
  unfolding extends_def
proof (intro allI impI)
  fix s r s' assume b: "ybind c k s = (r, s')"
  obtain q t where c: "c s = (q, t)" by fastforce
  with assms(1) obtain new where "s_tr t = s_tr s @ new" unfolding extends_def by blast
  with b c assms(2) show "\<exists>new. s_tr s' = s_tr s @ new"
    unfolding extends_def ybind_def by (cases q) (auto, metis append_assoc)
qed

lemma extends_http [extends_intro]: "extends (ylift (http_call net q))" "extends (ylift (send net q))"
  by (auto simp: extends_def ylift_def http_call_def sbind_def send_def sret_def sfail_def split: scim_reply.splits)

lemma extends_reconcile [extends_intro]: "extends (reconcile_diffs net cfg u recovered)"
proof -
  have f: "extends (count_failed_update st body)" for st body
    unfolding count_failed_update_def by (intro extends_intro) (auto intro!: extends_intro)
  have p: "extends (patch_user net cfg u ds)" for ds
    unfolding patch_user_def Let_def case_prod_unfold by (intro extends_intro) (auto intro!: extends_intro f)
  have e: "extends (patch_external_id net u)"
    unfolding patch_external_id_def Let_def case_prod_unfold
    by (intro extends_intro) (auto intro!: extends_intro f split: scim_reply.splits option.splits json.splits)
  have a: "extends (apply_diffs net cfg u b ds)" for b ds
    unfolding apply_diffs_def Let_def by (auto intro!: extends_intro p)
  show ?thesis
    unfolding reconcile_diffs_def username_recovery_allowed_def by (auto intro!: extends_intro a e)
qed

lemma extends_create: "extends (create_user net cfg u verify)"
proof -
  have h: "extends (handle_409 net cfg u)"
    unfolding handle_409_def Let_def
    by (auto intro!: extends_intro extends_ylift [OF reading_query] extends_ylift [OF reading_verified]
        split: option.split sum.split list.split)
  show ?thesis
    unfolding create_user_def case_prod_unfold
    by (auto intro!: extends_intro h extends_ylift [OF reading_verify_created])
qed

lemmas reconcile_extends = extends_reconcile [unfolded extends_def, rule_format]
lemmas create_user_extends = extends_create [unfolded extends_def, rule_format]

text \<open>The indexes during the loop; objects change in place only while they are not linked.\<close>

definition dir_inv :: "directory \<Rightarrow> bool" where
  "dir_inv D \<longleftrightarrow>
     (\<forall>k i. map_of (d_name D) k = Some i \<longrightarrow> i < length (d_users D) \<and> name_of (d_users D ! i) = k)
     \<and> (\<forall>k i. k \<noteq> [] \<longrightarrow> map_of (d_ext D) k = Some i \<longrightarrow> i < length (d_users D) \<and> ext_of (d_users D ! i) = k)"

lemma dir_ok_inv: "dir_ok D \<Longrightarrow> dir_inv D"
  by (auto simp: dir_ok_def dir_inv_def)

lemma dir_inv_update:
  assumes "dir_inv D" "a = d_users D ! i \<or> ext_of (d_users D ! i) = [] \<and> name_of a = name_of (d_users D ! i)"
  shows "dir_inv (D\<lparr>d_users := (d_users D)[i := a]\<rparr>)"
  unfolding dir_inv_def
proof (intro conjI allI impI)
  fix k j assume k: "map_of (d_name (D\<lparr>d_users := (d_users D)[i := a]\<rparr>)) k = Some j"
  with assms(1) have "j < length (d_users D)" "name_of (d_users D ! j) = k" by (auto simp: dir_inv_def)
  with assms(2) show "j < length (d_users (D\<lparr>d_users := (d_users D)[i := a]\<rparr>))"
    "name_of (d_users (D\<lparr>d_users := (d_users D)[i := a]\<rparr>) ! j) = k" by (cases "i = j"; auto)+
next
  fix k j assume k: "k \<noteq> []" "map_of (d_ext (D\<lparr>d_users := (d_users D)[i := a]\<rparr>)) k = Some j"
  with assms(1) have "j < length (d_users D)" "ext_of (d_users D ! j) = k" by (auto simp: dir_inv_def)
  with assms(2) k(1) show "j < length (d_users (D\<lparr>d_users := (d_users D)[i := a]\<rparr>))"
    "ext_of (d_users (D\<lparr>d_users := (d_users D)[i := a]\<rparr>) ! j) = k" by (cases "i = j"; auto)+
qed

lemma match_found:
  assumes "match_apple_user u D = (Some i, recovered, False)" "dir_inv D" "ext_of u \<noteq> []"
  shows "i < length (d_users D)
    \<and> (if recovered then map_of (d_name D) (name_of u) = Some i else map_of (d_ext D) (ext_of u) = Some i)"
proof -
  have "truthy (dget u ''externalId'')" using assms(3) index_keys(2) by blast
  then have k: "strip (py_str (dget u ''externalId'')) = ext_of u" by (rule index_keys(1))
  show ?thesis
    using assms by (auto simp: match_apple_user_def k dir_inv_def split: option.splits if_splits)
qed

lemma sync_one_linked:
  assumes "sync_one net cfg filtered u D s = (r, D', s')" "u \<in> set us" "ext_of u \<noteq> []" "has_username u"
    and "trace_ok net cfg us (s_tr s)" "dir_inv D" "\<forall>a \<in> set (d_users D). seen net (s_tr s) a"
  shows "trace_ok net cfg us (s_tr s') \<and> dir_inv D' \<and> (\<forall>a \<in> set (d_users D'). seen net (s_tr s') a)"
proof (cases "\<exists>i recovered. match_apple_user u D = (Some i, recovered, False)")
  case False
  then have "D' = D \<and> (record_username_conflict u s = (r, s') \<or> catch_http (create_user net cfg u filtered) s = (r, s'))"
    using assms(1) by (auto simp: sync_one_def split: prod.splits option.splits if_splits)
  moreover have "trace_ok net cfg us (s_tr s') \<and> (\<exists>new. s_tr s' = s_tr s @ new)"
    if "catch_http (create_user net cfg u filtered) s = (r, s')"
  proof -
    from catch_http_trace [OF that] obtain q t where "create_user net cfg u filtered s = (q, t)" "s_tr s' = s_tr t" by blast
    with create_user_linked [OF _ assms(2-5)] create_user_extends show ?thesis by metis
  qed
  ultimately show ?thesis
    using assms(5-7) counting_trace(2) seen_append by metis
next
  case True
  then obtain i recovered where m: "match_apple_user u D = (Some i, recovered, False)" by blast
  note found = match_found [OF m assms(6,3)]
  from assms(1) m have s1: "catch_http (reconcile_diffs net cfg u recovered) (s\<lparr>s_obj := d_users D ! i\<rparr>) = (r, s')"
    "D' = D\<lparr>d_users := (d_users D)[i := s_obj s']\<rparr>"
    by (auto simp: sync_one_def split: prod.splits)
  from catch_http_trace [OF s1(1)] obtain q t where t: "reconcile_diffs net cfg u recovered (s\<lparr>s_obj := d_users D ! i\<rparr>) = (q, t)"
    "s_tr s' = s_tr t" "s_obj s' = s_obj t" by blast
  have key: "if recovered then name_of (d_users D ! i) = name_of u else ext_of (d_users D ! i) = ext_of u"
    using found assms(3,6) by (auto simp: dir_inv_def)
  from reconcile_linked [OF t(1) assms(2,3)] assms(5,7) found key
  have l: "trace_ok net cfg us (s_tr t)" "seen net (s_tr t) (s_obj t)"
    "s_obj t = d_users D ! i \<or> recovered \<and> ext_of (d_users D ! i) = [] \<and> name_of (s_obj t) = name_of u" by auto
  have "\<forall>a \<in> set (d_users D). seen net (s_tr t) a"
    using assms(7) reconcile_extends [OF t(1)] seen_append by fastforce
  then have "\<forall>a \<in> set (d_users D'). seen net (s_tr t) a"
    using l(2) s1(2) t(3) by (auto dest!: set_update_subset_insert [THEN subsetD])
  moreover have "dir_inv D'"
    unfolding s1(2) t(3) using l(3) key by (intro dir_inv_update [OF assms(6)]) auto
  ultimately show ?thesis using l t s1 by simp
qed

lemma sync_loop_linked:
  assumes "sync_loop net cfg filtered vs D s = (r, s')" "set vs \<subseteq> set us" "\<forall>u \<in> set us. ext_of u \<noteq> [] \<and> has_username u"
    and "trace_ok net cfg us (s_tr s)" "dir_inv D" "\<forall>a \<in> set (d_users D). seen net (s_tr s) a"
  shows "trace_ok net cfg us (s_tr s')"
  using assms
proof (induction vs arbitrary: D s)
  case (Cons u vs)
  obtain q D1 s1 where o: "sync_one net cfg filtered u D s = (q, D1, s1)" by (metis prod_cases3)
  from sync_one_linked [OF this] Cons.prems
  have "trace_ok net cfg us (s_tr s1)" "dir_inv D1" "\<forall>a \<in> set (d_users D1). seen net (s_tr s1) a" by auto
  with Cons o show ?case by (auto split: sum.splits)
qed simp

section \<open>Properties\<close>

definition source_user :: pydict where
  "source_user = [(''externalId'', JStr ''7''), (''userName'', JStr ''x@e.org''),
     (''name'', JObj [(''givenName'', JStr ''Xena''), (''familyName'', JStr [])]),
     (''emails'', JArr [JObj [(''value'', JStr ''x@e.org'')]]), (''active'', JBool False)]"

definition patching_net :: scim_net where
  "patching_net tr q =
     (case q of
        Get url \<Rightarrow> if url = list_url then one_page 1 1 (listed_user ''a1'' ''7'' ''X@e.org'') else NetError
      | _ \<Rightarrow> Reply 200 None)"

lemma example_sync:
  "snd (sync_users patching_net example_settings [source_user] []) =
     [Get list_url, Patch (user_url ''a1'') (patch_body [replace_op ''name.givenName'' (JStr ''Xena''),
        replace_op ''emails'' (dget source_user ''emails''), replace_op ''active'' (JBool False)])]"
  by code_simp

lemma example_sync_result:
  "case fst (sync_users patching_net example_settings [source_user] []) of Inr res \<Rightarrow> updated res = 1 | Inl _ \<Rightarrow> False"
  by code_simp

lemma sync_users_trace_ok:
  assumes "\<forall>u \<in> set users. ext_of u \<noteq> [] \<and> has_username u" "sync_users net cfg users [] = (r, tr)"
  shows "trace_ok net cfg users tr"
proof -
  obtain e tr1 where e: "existing_or_filtered net users [] = (e, tr1)" by fastforce
  have t1: "trace_ok net cfg users tr1" by (rule reading_trace_ok [OF reading_existing_or_filtered e trace_ok_Nil])
  show ?thesis
  proof (cases e)
    case (Inl x)
    with e assms(2) t1 show ?thesis by (simp add: sync_users_def sbind_def)
  next
    case (Inr x)
    then obtain D b where d: "existing_or_filtered net users [] = (Inr (D, b), tr1)" using e by (cases x) auto
    note ok = existing_or_filtered_ok [OF d]
    let ?s = "\<lparr>s_res = empty_result, s_obj = [], s_tr = tr1\<rparr>"
    obtain q s' where l: "sync_loop net cfg b users D ?s = (q, s')" by fastforce
    have "trace_ok net cfg users (s_tr s')"
      using sync_loop_linked [OF l subset_refl assms(1)] t1 ok dir_ok_inv by simp
    then show ?thesis
      using d l assms(2) t1 by (auto simp: sync_users_def sbind_def split: if_splits sum.splits)
  qed
qed

text \<open>
  C8. Synchronisation never takes over an account: every request that changes an existing Apple
  account goes to an account the service reported before, and that account either carries the very
  externalId of the Authentik user it is changed for, or it carries none, has the user's userName
  and the operator allowed recovery by userName. Accounts are created only from the given users.
\<close>

theorem sync_writes_only_linked_accounts:
  assumes "\<forall>u \<in> set users. ext_of u \<noteq> [] \<and> has_username u" "sync_users net cfg users [] = (r, tr)" "tr = pre @ q # post"
  shows "(case q of
        Get _ \<Rightarrow> True
      | Post url body \<Rightarrow> url = APPLE_SCIM_BASE @ ''/Users'' \<and> (\<exists>u \<in> set users. body = JObj u)
      | Put url _ \<Rightarrow> (\<exists>u \<in> set users. \<exists>a. seen net pre a \<and> url = user_url (str_val (dget a ''id'')) \<and> linked cfg a u)
      | Patch url _ \<Rightarrow> (\<exists>u \<in> set users. \<exists>a. seen net pre a \<and> url = user_url (str_val (dget a ''id'')) \<and> linked cfg a u))"
  using sync_users_trace_ok [OF assms(1,2)] assms(3) by (simp add: trace_ok_def write_ok_def)

lemma source_user_ok: "\<forall>u \<in> set [source_user]. ext_of u \<noteq> [] \<and> has_username u"
  by code_simp

theorem sync_writes_only_linked_accounts_witness:
  "\<exists>a. seen patching_net [Get list_url] a \<and> user_url ''a1'' = user_url (str_val (dget a ''id''))
     \<and> linked example_settings a source_user"
proof -
  obtain r tr where s: "sync_users patching_net example_settings [source_user] [] = (r, tr)" by fastforce
  with example_sync have "tr = [Get list_url] @ Patch (user_url ''a1'') (patch_body [replace_op ''name.givenName'' (JStr ''Xena''),
        replace_op ''emails'' (dget source_user ''emails''), replace_op ''active'' (JBool False)]) # []" by simp
  from sync_writes_only_linked_accounts [OF source_user_ok s this] show ?thesis by simp
qed

text \<open>
  C37. A synchronisation that returns has accounted for every user: the numbers of created, updated,
  unchanged, conflicting and failed users add up to at least the number of users, and to at most
  twice that (a repaired link followed by an update counts for both). When the listing or the
  preflight lookups fail, nothing has been written.
\<close>

theorem sync_accounts_for_every_user:
  assumes "sync_users net cfg users tr = (r, tr')"
  shows "(\<forall>res. r = Inr res \<longrightarrow>
      length users \<le> created res + updated res + unchanged res + conflicts res + errors res
      \<and> created res + updated res + unchanged res + conflicts res + errors res \<le> 2 * length users)
    \<and> (\<forall>e tr1. existing_or_filtered net users tr = (Inl e, tr1) \<longrightarrow>
      r = Inl e \<and> tr' = tr1 \<and> (\<exists>new. tr' = tr @ new \<and> list_all is_read new))"
proof -
  have "\<exists>new. tr1 = tr @ new \<and> list_all is_read new" if "existing_or_filtered net users tr = (e, tr1)" for e tr1
    using reading_existing_or_filtered [of net users] that unfolding sends_def by (metis snd_conv)
  moreover have "length users \<le> handled res \<and> handled res \<le> 2 * length users" if "r = Inr res" for res
  proof -
    from assms that obtain b D s tr1 where "sync_loop net cfg b users D \<lparr>s_res = empty_result, s_obj = [], s_tr = tr1\<rparr> = (Inr (), s)" "res = s_res s"
      by (auto simp: sync_users_def sbind_def split: prod.splits sum.splits if_splits)
    from sync_loop_counts [OF this(1)] this(2) show ?thesis by simp
  qed
  ultimately show ?thesis
    using assms by (auto simp: handled_def sync_users_def sbind_def)
qed

theorem sync_accounts_for_every_user_witness:
  "\<exists>res. fst (sync_users patching_net example_settings [source_user] []) = Inr res
     \<and> 1 \<le> created res + updated res + unchanged res + conflicts res + errors res"
proof -
  obtain r tr where s: "sync_users patching_net example_settings [source_user] [] = (r, tr)" by fastforce
  with example_sync_result obtain res where "r = Inr res" by (auto split: sum.splits)
  with s sync_accounts_for_every_user [OF s] show ?thesis by simp
qed

section \<open>Convergence\<close>

text \<open>
  What a service does with the operations of an update: a reference semantics of \<^verbatim>\<open>Replace\<close>, with a
  path into the name.
\<close>

definition apply_operation :: "pystr \<times> json \<Rightarrow> pydict \<Rightarrow> pydict" where
  "apply_operation op u =
     (case op of (path, v) \<Rightarrow>
        if startswith path ''name.'' then
          dset u ''name'' (JObj (dset (obj_val (dget_or u ''name'' (JObj []))) (removeprefix path ''name.'') v))
        else dset u path v)"

definition apply_operations :: "(pystr \<times> json) list \<Rightarrow> pydict \<Rightarrow> pydict" where
  "apply_operations ops u = fold apply_operation ops u"

lemma apply_operation_simps:
  "apply_operation (''externalId'', v) u = dset u ''externalId'' v" "apply_operation (''userName'', v) u = dset u ''userName'' v"
  "apply_operation (''emails'', v) u = dset u ''emails'' v" "apply_operation (''active'', v) u = dset u ''active'' v"
  "apply_operation (''name.givenName'', v) u
     = dset u ''name'' (JObj (dset (obj_val (dget_or u ''name'' (JObj []))) ''givenName'' v))"
  "apply_operation (''name.familyName'', v) u
     = dset u ''name'' (JObj (dset (obj_val (dget_or u ''name'' (JObj []))) ''familyName'' v))"
  by (simp_all add: apply_operation_def startswith_def removeprefix_def)

text \<open>The attributes after an update, one by one.\<close>

definition conditional_ops :: "bool \<Rightarrow> pystr \<Rightarrow> json \<Rightarrow> (pystr \<times> json) list" where
  "conditional_ops b path v = (if b then [(path, v)] else [])"

lemma apply_conditional:
  "apply_operations (conditional_ops b path v @ ops) u = apply_operations ops (if b then apply_operation (path, v) u else u)"
  "apply_operations [] u = u"
  by (simp_all add: apply_operations_def conditional_ops_def)

lemma name_dict_dset:
  "is_dict (dget_or u ''name'' (JObj [])) \<Longrightarrow>
     dget_or u ''name'' (JObj []) = JObj (obj_val (dget_or u ''name'' (JObj [])))"
  by (auto simp: is_dict_def split: json.splits)

lemma patch_all_operations:
  assumes "update_fields_for_mode mode = [''externalId'', ''userName'', ''name'', ''emails'', ''active'']"
  shows "patch_operations new mode ds =
      conditional_ops (diff ds ''externalId'') ''externalId'' (JStr (ext_of new))
    @ conditional_ops (diff ds ''userName'') ''userName'' (dget new ''userName'')
    @ conditional_ops (diff ds ''givenName'') ''name.givenName'' (dget_or (obj_val (dget_or new ''name'' (JObj []))) ''givenName'' (JStr []))
    @ conditional_ops (diff ds ''familyName'') ''name.familyName'' (dget_or (obj_val (dget_or new ''name'' (JObj []))) ''familyName'' (JStr []))
    @ conditional_ops (diff ds ''email'') ''emails'' (dget_or new ''emails'' (JArr []))
    @ conditional_ops (diff ds ''active'') ''active'' (dget_or new ''active'' (JBool True)) @ []"
  unfolding patch_operations_def assms
  by (simp add: field_operations_def changed_name_operations_def diff_keys_def MODE_FIELD_TO_DIFF_KEYS_def conditional_ops_def)

lemma str_or_empty_default: "str_or_empty (dget_or d k (JStr [])) = str_or_empty (dget d k)"
  by (auto simp: dget_or_def dget_def split: option.splits)

lemma actionable_all:
  assumes "update_fields_for_mode mode = [''externalId'', ''userName'', ''name'', ''emails'', ''active'']"
    and "field_diffs existing new b = Inr ds"
  shows "actionable_diffs ds mode = ds"
  using assms(2) unfolding actionable_diffs_def assms(1)
  by (auto simp: field_diffs_def ebind_Inr_iff diff_keys_def MODE_FIELD_TO_DIFF_KEYS_def filter_id_conv)

lemma patch_converges_lemma:
  assumes mode: "update_fields_for_mode mode = [''externalId'', ''userName'', ''name'', ''emails'', ''active'']"
    and ds: "field_diffs existing new True = Inr ds"
  shows "\<exists>ds'. field_diffs (apply_operations (patch_operations new mode ds) existing) new True = Inr ds' \<and> \<not> any_diff ds'"
proof -
  let ?u = "apply_operations (patch_operations new mode ds) existing"
  let ?n = "obj_val (dget_or existing ''name'' (JObj []))" and ?m = "obj_val (dget_or new ''name'' (JObj []))"
  from ds have dicts: "is_dict (dget_or existing ''name'' (JObj []))" "is_dict (dget_or new ''name'' (JObj []))"
    by (auto simp: field_diffs_def ebind_Inr_iff name_part_def is_dict_def split: json.splits)
  note n = name_dict_dset [OF dicts(1)] and m = name_dict_dset [OF dicts(2)]
  from ds have d: "diff ds ''externalId'' \<longleftrightarrow> ext_of existing \<noteq> ext_of new" "diff ds ''userName'' \<longleftrightarrow> name_of existing \<noteq> name_of new"
    "diff ds ''givenName'' \<longleftrightarrow> str_or_empty (dget ?n ''givenName'') \<noteq> str_or_empty (dget ?m ''givenName'')"
    "diff ds ''familyName'' \<longleftrightarrow> str_or_empty (dget ?n ''familyName'') \<noteq> str_or_empty (dget ?m ''familyName'')"
    "diff ds ''active'' \<longleftrightarrow> is_active existing \<noteq> is_active new"
    "diff ds ''email'' \<longleftrightarrow> normalize_email (primary_email existing) \<noteq> normalize_email (primary_email new)"
    using n m by (auto simp: field_diffs_def ebind_Inr_iff name_part_def diff_def split: json.splits)
  have u: "?u = (let u1 = (if diff ds ''externalId'' then dset existing ''externalId'' (JStr (ext_of new)) else existing);
       u2 = (if diff ds ''userName'' then dset u1 ''userName'' (dget new ''userName'') else u1);
       u3 = (if diff ds ''givenName'' then apply_operation (''name.givenName'', dget_or ?m ''givenName'' (JStr [])) u2 else u2);
       u4 = (if diff ds ''familyName'' then apply_operation (''name.familyName'', dget_or ?m ''familyName'' (JStr [])) u3 else u3);
       u5 = (if diff ds ''email'' then dset u4 ''emails'' (dget_or new ''emails'' (JArr [])) else u4)
     in if diff ds ''active'' then dset u5 ''active'' (dget_or new ''active'' (JBool True)) else u5)"
    unfolding patch_all_operations [OF mode] apply_conditional apply_operation_simps(1-4) Let_def ..
  have ext: "ext_of ?u = ext_of new"
    using d(1) unfolding u by (simp add: Let_def apply_operation_simps ext_of_def dget_dset)
  have name: "name_of ?u = name_of new"
    using d(2) unfolding u by (simp add: Let_def apply_operation_simps name_of_def dget_dset)
  have emails: "dget_or ?u ''emails'' (JArr []) = dget_or (if diff ds ''email'' then new else existing) ''emails'' (JArr [])"
    unfolding u by (simp add: Let_def apply_operation_simps dget_or_dset)
  then have email: "normalize_email (primary_email ?u) = normalize_email (primary_email new)"
    using d(6) by (simp add: primary_email_def split: if_splits)
  have "dget_or ?u ''active'' (JBool True) = dget_or (if diff ds ''active'' then new else existing) ''active'' (JBool True)"
    unfolding u by (simp add: Let_def apply_operation_simps dget_or_dset)
  then have act: "is_active ?u = is_active new" using d(5) by (simp add: is_active_def split: if_splits)
  have parts: "name_part ?u ''givenName'' = Inr (str_or_empty (dget ?m ''givenName''))"
    "name_part ?u ''familyName'' = Inr (str_or_empty (dget ?m ''familyName''))"
    using d(3,4) n unfolding u
    by (auto simp: Let_def apply_operation_simps name_part_def dget_or_dset dget_dset str_or_empty_default split: json.splits)
  have "name_part new k = Inr (str_or_empty (dget ?m k))" for k using m by (auto simp: name_part_def split: json.splits)
  then show ?thesis using ext name email act parts by (simp add: field_diffs_def any_diff_def)
qed

lemma reconcile_unchanged:
  assumes "field_diffs (s_obj s) u True = Inr ds" "\<not> any_diff ds"
  shows "reconcile_diffs net cfg u False s = (Inr (), s\<lparr>s_res := count_unchanged (s_res s)\<rparr>)"
proof -
  have f: "\<not> list_ex (\<lambda>(k, v). v \<and> P k) ds" for P using assms(2) by (auto simp: any_diff_def list_ex_iff)
  have a: "\<not> any_diff (actionable_diffs ds m)" for m
    using assms(2) by (auto simp: any_diff_def actionable_diffs_def list_ex_iff)
  have "ylift (slift (field_diffs (s_obj s) u True)) s = (Inr ds, s)" using assms(1) by (simp add: ylift_def slift_def)
  then show ?thesis
    unfolding reconcile_diffs_def apply_diffs_def Let_def
    by (simp add: yobj_def ybind_def f a count_def)
qed

text \<open>
  C15. An update converges: in the default mode, a service that applies the operations of the PATCH
  built from the differences holds a user that no longer differs from the Authentik user in any
  attribute, so that the next reconciliation of that user sends nothing and counts it as unchanged.
\<close>

theorem update_converges:
  assumes "apple_scim_update_mode cfg = ''patch_all''" "field_diffs existing new True = Inr ds"
    and "build_update_request new (apple_scim_update_mode cfg) apple_id (actionable_diffs ds (apple_scim_update_mode cfg))
       = Inr (req, paths)"
  shows "\<exists>ops. req = PatchBody (patch_body (map (\<lambda>(p, v). replace_op p v) ops)) \<and> paths = map fst ops
    \<and> (\<forall>s. s_obj s = apply_operations ops existing \<longrightarrow>
         reconcile_diffs net cfg new False s = (Inr (), s\<lparr>s_res := count_unchanged (s_res s)\<rparr>))"
proof -
  have mode: "update_fields_for_mode (apple_scim_update_mode cfg) = [''externalId'', ''userName'', ''name'', ''emails'', ''active'']"
    using assms(1) by (simp add: update_fields_for_mode_def)
  let ?ops = "patch_operations new (apple_scim_update_mode cfg) ds"
  have r: "req = PatchBody (patch_body (map (\<lambda>(p, v). replace_op p v) ?ops))" "paths = map fst ?ops"
    using assms(3) unfolding actionable_all [OF mode assms(2)]
    by (auto simp: build_update_request_def assms(1) Let_def split: if_splits)
  from patch_converges_lemma [OF mode assms(2)] obtain ds' where
    "field_diffs (apply_operations ?ops existing) new True = Inr ds'" "\<not> any_diff ds'" by blast
  then show ?thesis using r reconcile_unchanged by (intro exI [of _ ?ops]) simp
qed

definition all_settings :: settings where
  "all_settings = example_settings\<lparr>apple_scim_update_mode := ''patch_all''\<rparr>"

theorem update_converges_witness:
  "\<exists>ops. length ops = 3 \<and> reconcile_diffs patching_net all_settings source_user False
       \<lparr>s_res = empty_result, s_obj = apply_operations ops (listed_user ''a1'' ''7'' ''X@e.org''), s_tr = []\<rparr>
     = (Inr (), \<lparr>s_res = count_unchanged empty_result, s_obj = apply_operations ops (listed_user ''a1'' ''7'' ''X@e.org''), s_tr = []\<rparr>)"
proof -
  have "is_ok (field_diffs (listed_user ''a1'' ''7'' ''X@e.org'') source_user True)" by code_simp
  then obtain ds where ds: "field_diffs (listed_user ''a1'' ''7'' ''X@e.org'') source_user True = Inr ds" by (auto simp: is_ok_iff)
  have b: "case ebind (field_diffs (listed_user ''a1'' ''7'' ''X@e.org'') source_user True)
      (\<lambda>ds. build_update_request source_user ''patch_all'' ''a1'' (actionable_diffs ds ''patch_all'')) of
      Inr (req, paths) \<Rightarrow> length paths = 3 | Inl _ \<Rightarrow> False" by code_simp
  then obtain req paths where "build_update_request source_user ''patch_all'' ''a1'' (actionable_diffs ds ''patch_all'') = Inr (req, paths)"
    "length paths = 3" unfolding ds by (auto split: sum.splits)
  then show ?thesis
    using update_converges [of all_settings, OF _ ds, of "''a1''" req paths patching_net]
    by (auto simp: all_settings_def)
qed

end
