(* ===== verification/Scim_Log.thy ===== *)
theory Scim_Log
  imports Scim_Sync Log_Safety
begin

text \<open>
  What the synchronisation of \<^verbatim>\<open>scim/apple.py\<close> logs: the references to users, the record of a failed
  write, the counts of the opening line, of which the code says that its number of recoveries
  mirrors the condition of the loop, and the closing line with its warnings; and what
  \<^verbatim>\<open>scim/authentik.py\<close> logs about a page it could not read.
\<close>

section \<open>References to users\<close>

definition log_key :: "settings \<Rightarrow> pystr" where
  "log_key cfg = (if pii_pepper cfg \<noteq> [] then pii_pepper cfg else ssf_management_token cfg)"

definition scim_log_username :: "hmac_fun \<Rightarrow> settings \<Rightarrow> pystr option \<Rightarrow> pystr" where
  "scim_log_username hm cfg username = mask_email hm (Some (opt_str username)) (log_pii cfg) (log_key cfg)"

definition user_name_field :: "pydict \<Rightarrow> pystr option" where
  "user_name_field u = (case dget u ''userName'' of JStr s \<Rightarrow> Some s | _ \<Rightarrow> None)"

fun join :: "pystr \<Rightarrow> pystr list \<Rightarrow> pystr" where
  "join sep [] = []"
| "join sep [x] = x"
| "join sep (x # y # xs) = x @ sep @ join sep (y # xs)"

definition format_changed_fields :: "diffs \<Rightarrow> pystr" where
  "format_changed_fields ds =
     (let changed = join '', '' (map fst (filter snd ds)) in if changed \<noteq> [] then changed else ''none'')"

definition log_user_ref :: "hmac_fun \<Rightarrow> settings \<Rightarrow> pydict \<Rightarrow> pystr" where
  "log_user_ref hm cfg u =
     ''pk='' @ py_str (dget u ''externalId'') @ '' user='' @ scim_log_username hm cfg (user_name_field u)"

section \<open>Failed writes\<close>

text \<open>The values of the log line, by the names its template gives them.\<close>

definition log_update_failure ::
  "hmac_fun \<Rightarrow> (char list \<Rightarrow> pystr) \<Rightarrow> settings \<Rightarrow> pystr \<Rightarrow> pystr \<Rightarrow> http_response \<Rightarrow> pydict \<Rightarrow> pystr list \<Rightarrow> pystr option \<Rightarrow> pydict" where
  "log_update_failure hm sha256 cfg operation http_method response user changed_fields apple_id =
     [(''operation'', JStr operation), (''externalId'', dget user ''externalId''),
      (''appleId'', (case apple_id of Some i \<Rightarrow> JStr i | None \<Rightarrow> JNull)),
      (''userName'', JStr (scim_log_username hm cfg (user_name_field user))),
      (''fields'', JArr (map JStr changed_fields)), (''endpoint'', JStr (''/Users/'' @ opt_str apple_id)),
      (''method'', JStr http_method), (''status'', JInt (rs_status response)),
      (''response'', JObj (response_metadata sha256 response)),
      (''redacted_body'', if apple_scim_log_error_body cfg
         then JStr (safe_response_body_text hm response (log_pii cfg) (log_key cfg) 512) else JNull)]"

text \<open>Without \<^verbatim>\<open>SSF_LOG_PII\<close> a line depends on the userName only through its pseudonym.\<close>

lemma log_update_failure_pseudonymous:
  assumes "\<not> log_pii cfg" "dget u ''externalId'' = dget u' ''externalId''"
    and "take 8 (hm (log_key cfg) (opt_str (user_name_field u))) = take 8 (hm (log_key cfg) (opt_str (user_name_field u')))"
  shows "log_update_failure hm sha cfg op m rs u fs i = log_update_failure hm sha cfg op m rs u' fs i"
    "log_user_ref hm cfg u = log_user_ref hm cfg u'"
  using assms by (simp_all add: log_update_failure_def log_user_ref_def scim_log_username_def mask_email_def)

lemma join_Nil: "sep \<noteq> [] \<Longrightarrow> [] \<notin> set xs \<Longrightarrow> join sep xs = [] \<longleftrightarrow> xs = []"
  by (induction sep xs rule: join.induct) auto

text \<open>A line that says \<^verbatim>\<open>none\<close> is one of an update without a difference, when every field has a name of its own.\<close>

lemma format_none:
  assumes "[] \<notin> fst ` set ds" "''none'' \<notin> fst ` set ds"
  shows "format_changed_fields ds = ''none'' \<longleftrightarrow> \<not> any_diff ds"
proof
  assume n: "format_changed_fields ds = ''none''"
  let ?ns = "map fst (filter snd ds)"
  have sub: "set ?ns \<subseteq> fst ` set ds" by auto
  show "\<not> any_diff ds"
  proof (cases ?ns)
    case Nil
    then show ?thesis by (auto simp: any_diff_def list_ex_iff filter_empty_conv)
  next
    case (Cons x r)
    show ?thesis
    proof (cases r)
      case Nil
      with Cons n sub assms(1) have "x = ''none''" by (auto simp: format_changed_fields_def Let_def split: if_splits)
      with Cons sub assms(2) show ?thesis by auto
    next
      case (Cons y xs)
      with \<open>?ns = x # r\<close> have "CHR '','' \<in> set (join '', '' ?ns)" by simp
      moreover have "join '', '' ?ns = ''none'' \<or> join '', '' ?ns = []"
        using n by (auto simp: format_changed_fields_def Let_def split: if_splits)
      ultimately show ?thesis by auto
    qed
  qed
next
  assume "\<not> any_diff ds"
  then have "filter snd ds = []" by (auto simp: any_diff_def list_ex_iff filter_empty_conv)
  then show "format_changed_fields ds = ''none''" by (simp add: format_changed_fields_def)
qed

section \<open>The opening line\<close>

text \<open>The users counted as recoveries, as the generator in \<^verbatim>\<open>_log_sync_start\<close> selects them.\<close>

definition counted_recovered :: "settings \<Rightarrow> directory \<Rightarrow> pydict \<Rightarrow> bool" where
  "counted_recovered cfg D u \<longleftrightarrow>
     (case by_external_id D (strip (py_str (dget u ''externalId''))) of Some a \<Rightarrow> a = [] | None \<Rightarrow> True)
     \<and> (case by_username D (name_of u) of
          Some m \<Rightarrow> can_recover_by_username cfg m (dget u ''externalId'')
        | None \<Rightarrow> False)"

definition log_sync_start :: "settings \<Rightarrow> pydict list \<Rightarrow> directory \<Rightarrow> nat \<times> nat \<times> nat \<times> nat" where
  "log_sync_start cfg users D =
     (length (d_name D), length (d_ext D), length (filter (counted_recovered cfg D) users), length users)"

text \<open>The condition of the loop: matched by userName, and recovery allowed for the account found.\<close>

definition loop_recovers :: "settings \<Rightarrow> directory \<Rightarrow> pydict \<Rightarrow> bool" where
  "loop_recovers cfg D u \<longleftrightarrow>
     (case match_apple_user u D of
        (Some j, True, False) \<Rightarrow> can_recover_by_username cfg (d_users D ! j) (dget u ''externalId'')
      | _ \<Rightarrow> False)"

lemma dir_ok_nonempty_user: "dir_ok D \<Longrightarrow> i < length (d_users D) \<Longrightarrow> d_users D ! i \<noteq> []"
  by (auto simp: dir_ok_def list_all_length has_username_def)

text \<open>The count mirrors the loop on every directory the listing builds.\<close>

lemma counted_recovered_mirrors_loop:
  assumes "dir_ok D" "ext_of u \<noteq> []"
  shows "counted_recovered cfg D u \<longleftrightarrow> loop_recovers cfg D u"
proof -
  have k: "strip (py_str (dget u ''externalId'')) = ext_of u" using assms(2) index_keys by metis
  have e: "d_users D ! i \<noteq> []" if "map_of (d_ext D) (ext_of u) = Some i" for i
    using assms that dir_ok_nonempty_user unfolding dir_ok_def by blast
  have n: "d_users D ! i \<noteq> []" if "map_of (d_name D) (name_of u) = Some i" for i
    using assms(1) that dir_ok_nonempty_user unfolding dir_ok_def by blast
  show ?thesis
    using e n by (auto simp: counted_recovered_def loop_recovers_def match_apple_user_def by_external_id_def by_username_def k
        split: option.splits)
qed

section \<open>The closing line\<close>

text \<open>The counters of the closing line, and the warnings that ask an operator to look at accounts.\<close>

datatype summary_line =
    SyncDone "nat list"
  | ReviewNeeded nat pystr
  | StaleFields nat pystr

definition ABM_ACTIVITY_URL :: pystr where
  "ABM_ACTIVITY_URL = ''https://business.apple.com/main/activity''"

definition log_sync_summary :: "settings \<Rightarrow> sync_result \<Rightarrow> summary_line list" where
  "log_sync_summary cfg result =
     [SyncDone [created result, updated result, unchanged result, conflicts result, errors result,
        update_400_invalid_request result, out_of_scope_diffs result]]
     @ (if conflicts result > 0 then [ReviewNeeded (conflicts result) ABM_ACTIVITY_URL] else [])
     @ (if out_of_scope_diffs result > 0 then [StaleFields (out_of_scope_diffs result) (apple_scim_update_mode cfg)] else [])"

text \<open>The summary is a single line exactly when no account needs attention.\<close>

lemma log_sync_summary_quiet: "length (log_sync_summary cfg r) = 1 \<longleftrightarrow> conflicts r = 0 \<and> out_of_scope_diffs r = 0"
  by (simp add: log_sync_summary_def)

section \<open>Errors of the source\<close>

text \<open>What \<^verbatim>\<open>_log_page_error\<close> of \<^verbatim>\<open>scim/authentik.py\<close> says about a page that was not answered with 200.\<close>

datatype page_error_line =
    GroupUnreadable pystr int
  | SourceError pydict

definition log_page_error :: "(char list \<Rightarrow> pystr) \<Rightarrow> http_response \<Rightarrow> pystr \<Rightarrow> page_error_line" where
  "log_page_error sha256 resp group_id =
     (if group_id \<noteq> [] \<and> rs_status resp = 403 then GroupUnreadable group_id (rs_status resp)
      else SourceError (response_metadata sha256 resp))"

text \<open>The line depends on the body of the answer only through its length and its digest.\<close>

lemma log_page_error_hides_body:
  assumes "rs_status r = rs_status r'" "rs_content_type r = rs_content_type r'"
    and "length (rs_content r) = length (rs_content r')" "sha256 (rs_content r) = sha256 (rs_content r')"
  shows "log_page_error sha256 r g = log_page_error sha256 r' g"
  using assms by (simp add: log_page_error_def response_metadata_def)

end
