(* ===== verification/Auth.thy ===== *)
theory Auth
  imports Config Complex_Main
begin

text \<open>
  \<^verbatim>\<open>app/auth.py\<close>: the bearer-token check of the management API and its limit on failed attempts
  per client. Times are those of the monotonic clock, as exact reals. The main result is that the
  bounded queue of recent failures counts exactly the failures of the last minute.
\<close>

definition MANAGEMENT_AUTH_FAILURE_LIMIT :: nat where
  "MANAGEMENT_AUTH_FAILURE_LIMIT = 10"

definition MANAGEMENT_AUTH_FAILURE_WINDOW_SECONDS :: real where
  "MANAGEMENT_AUTH_FAILURE_WINDOW_SECONDS = 60"

type_synonym failures = "pystr \<rightharpoonup> real list"

datatype auth_error = AuthRequired401 | Forbidden403 | RateLimited429

definition client_key :: "pystr option \<Rightarrow> pystr" where
  "client_key host = (case nonempty host of Some h \<Rightarrow> h | None \<Rightarrow> ''unknown-client'')"

definition expired :: "real \<Rightarrow> real \<Rightarrow> bool" where
  "expired now t \<longleftrightarrow> now - t \<ge> MANAGEMENT_AUTH_FAILURE_WINDOW_SECONDS"

text \<open>\<^verbatim>\<open>deque(maxlen=limit + 1).append(now)\<close>: the oldest element falls out of a full queue.\<close>

definition last_n :: "nat \<Rightarrow> 'a list \<Rightarrow> 'a list" where
  "last_n n xs = drop (length xs - n) xs"

definition deque_append :: "real \<Rightarrow> real list \<Rightarrow> real list" where
  "deque_append now ts = last_n (MANAGEMENT_AUTH_FAILURE_LIMIT + 1) (ts @ [now])"

definition record_failure_times :: "real \<Rightarrow> real list \<Rightarrow> real list" where
  "record_failure_times now ts = deque_append now (dropWhile (expired now) ts)"

definition attempts_of :: "failures \<Rightarrow> pystr \<Rightarrow> real list" where
  "attempts_of fs key = (case fs key of Some ts \<Rightarrow> ts | None \<Rightarrow> [])"

definition record_management_auth_failure :: "bool \<Rightarrow> real \<Rightarrow> pystr \<Rightarrow> failures \<Rightarrow> bool \<times> failures" where
  "record_management_auth_failure limiter_enabled now key fs =
     (if \<not> limiter_enabled then (False, fs)
      else let ts = record_failure_times now (attempts_of fs key) in
        (length ts > MANAGEMENT_AUTH_FAILURE_LIMIT, fs(key \<mapsto> ts)))"

definition require_management_auth ::
  "settings \<Rightarrow> bool \<Rightarrow> real \<Rightarrow> pystr option \<Rightarrow> pystr option \<Rightarrow> failures \<Rightarrow> (auth_error + unit) \<times> failures" where
  "require_management_auth cfg limiter_enabled now host authorization fs =
     (let fail = (\<lambda>err. let (exceeded, fs') = record_management_auth_failure limiter_enabled now (client_key host) fs
                        in (Inl (if exceeded then RateLimited429 else err), fs'))
      in case nonempty authorization of
           None \<Rightarrow> fail AuthRequired401
         | Some h \<Rightarrow>
             if \<not> startswith h ''Bearer '' then fail AuthRequired401
             else if removeprefix h ''Bearer '' \<noteq> ssf_management_token cfg then fail Forbidden403
             else (Inr (), fs))"

section \<open>The sliding window\<close>

text \<open>The queue after a sequence of failures of one client.\<close>

definition window_after :: "real list \<Rightarrow> real list" where
  "window_after ts = foldl (\<lambda>q t. record_failure_times t q) [] ts"

definition recent :: "real \<Rightarrow> real list \<Rightarrow> real list" where
  "recent now ts = filter (\<lambda>t. \<not> expired now t) ts"

lemma expired_mono: "expired now t \<Longrightarrow> now \<le> now' \<Longrightarrow> expired now' t"
  by (simp add: expired_def)

lemma dropWhile_sorted_expired: "sorted ts \<Longrightarrow> dropWhile (expired now) ts = recent now ts"
proof (induction ts)
  case (Cons t ts)
  show ?case
  proof (cases "expired now t")
    case False
    then have "\<forall>x \<in> set ts. \<not> expired now x" using Cons.prems by (force simp: expired_def)
    with False show ?thesis by (simp add: recent_def)
  qed (use Cons in \<open>simp add: recent_def\<close>)
qed (simp add: recent_def)

lemma sorted_last_n: "sorted ts \<Longrightarrow> sorted (last_n n ts)"
  by (simp add: last_n_def sorted_wrt_drop)

lemma last_n_snoc: "last_n (Suc n) (xs @ [x]) = last_n n xs @ [x]"
  by (simp add: last_n_def)

lemma length_last_n [simp]: "length (last_n n xs) = min n (length xs)"
  by (simp add: last_n_def)

lemma last_n_last_n: "m \<le> n \<Longrightarrow> last_n m (last_n n xs) = last_n m xs"
proof (cases "n \<le> length xs")
  assume "m \<le> n"
  moreover case True
  ultimately have "n - m + (length xs - n) = length xs - m" by simp
  with True show ?thesis by (simp add: last_n_def add.commute)
qed (simp add: last_n_def)

lemma last_n_suffix: "suffix (last_n n xs) xs"
  by (simp add: last_n_def suffix_drop)

text \<open>Keeping only the newest is harmless for the count: a dropped recent element has a full queue of newer ones.\<close>

lemma recent_last_n:
  assumes "sorted ts"
  shows "recent now (last_n n ts) = last_n n (recent now ts)"
proof -
  obtain pre where pre: "ts = pre @ last_n n ts" using last_n_suffix [of n ts] by (auto simp: suffix_def)
  show ?thesis
  proof (cases "\<exists>t \<in> set pre. \<not> expired now t")
    case True
    then have "\<forall>x \<in> set (last_n n ts). \<not> expired now x"
      using assms pre by (metis (no_types, lifting) expired_def linorder_not_le order_less_le_trans diff_mono order_refl sorted_append)
    then have "recent now (last_n n ts) = last_n n ts" by (simp add: recent_def)
    moreover have "last_n n (recent now ts) = last_n n ts"
    proof -
      have r: "recent now ts = recent now pre @ last_n n ts"
        using pre \<open>recent now (last_n n ts) = last_n n ts\<close> by (metis filter_append recent_def)
      have "length (last_n n ts) = n" using True pre by (metis empty_iff length_last_n list.set(1) min_def append_self_conv2 length_0_conv last_n_def drop0 diff_is_0_eq linorder_linear)
      then show ?thesis by (simp add: r last_n_def)
    qed
    ultimately show ?thesis by simp
  next
    case False
    then have "recent now ts = recent now (last_n n ts)"
      by (subst pre) (auto simp: recent_def filter_empty_conv)
    moreover have "length (recent now (last_n n ts)) \<le> n"
      by (metis length_filter_le length_last_n min.cobounded1 order_trans recent_def)
    ultimately show ?thesis by (simp add: last_n_def)
  qed
qed

lemma recent_recent: "now \<le> now' \<Longrightarrow> recent now' (recent now ts) = recent now' ts"
  by (auto simp: recent_def intro!: filter_cong dest: expired_mono)

lemma window_after_snoc: "window_after (ts @ [t]) = record_failure_times t (window_after ts)"
  by (simp add: window_after_def)

lemma recent_self: "\<not> expired t t"
  by (simp add: expired_def MANAGEMENT_AUTH_FAILURE_WINDOW_SECONDS_def)

lemma window_after_eq:
  "sorted (ts @ [now]) \<Longrightarrow> window_after (ts @ [now]) = last_n (MANAGEMENT_AUTH_FAILURE_LIMIT + 1) (recent now (ts @ [now]))"
proof (induction ts arbitrary: now rule: rev_induct)
  case Nil
  then show ?case by (simp add: window_after_def record_failure_times_def deque_append_def recent_def recent_self)
next
  case (snoc t ts)
  let ?n = "MANAGEMENT_AUTH_FAILURE_LIMIT + 1"
  from snoc.prems have s: "sorted (ts @ [t])" "t \<le> now" by (simp_all add: sorted_append)
  have r: "sorted (recent t (ts @ [t]))" unfolding recent_def using s(1) by (rule sorted_wrt_filter)
  have "dropWhile (expired now) (window_after (ts @ [t])) = recent now (last_n ?n (recent t (ts @ [t])))"
    using snoc.IH [OF s(1)] sorted_last_n [OF r, of ?n] by (simp only: dropWhile_sorted_expired)
  also have "\<dots> = last_n ?n (recent now (ts @ [t]))"
    by (simp only: recent_last_n [OF r] recent_recent [OF s(2)])
  finally have "window_after ((ts @ [t]) @ [now]) = last_n ?n (last_n ?n (recent now (ts @ [t])) @ [now])"
    by (simp only: window_after_snoc record_failure_times_def deque_append_def)
  also have "\<dots> = last_n ?n (recent now ((ts @ [t]) @ [now]))"
  proof -
    have "last_n (Suc k) (last_n (Suc k) xs @ [x]) = last_n (Suc k) (xs @ [x])" for k and xs :: "real list" and x
      by (simp add: last_n_snoc last_n_last_n)
    moreover have "recent now ((ts @ [t]) @ [now]) = recent now (ts @ [t]) @ [now]"
      by (simp add: recent_def recent_self)
    ultimately show ?thesis by simp
  qed
  finally show ?case .
qed

text \<open>The state after a history of failures of several clients.\<close>

definition failures_after :: "(pystr \<times> real) list \<Rightarrow> failures" where
  "failures_after evs = foldl (\<lambda>fs (k, t). snd (record_management_auth_failure True t k fs)) Map.empty evs"

lemma attempts_of_failures:
  "attempts_of (failures_after evs) k = window_after (map snd (filter (\<lambda>ev. fst ev = k) evs))"
proof (induction evs rule: rev_induct)
  case (snoc ev evs)
  then show ?case
    by (cases ev)
       (auto simp: failures_after_def record_management_auth_failure_def attempts_of_def window_after_snoc Let_def)
qed (simp add: failures_after_def attempts_of_def window_after_def)

lemma sorted_map_filter: "sorted (map f xs @ [y]) \<Longrightarrow> sorted (map f (filter p xs) @ [y])"
  by (simp add: sorted_append sorted_filter)

text \<open>
  C35. The limit on failed management logins is an exact sliding window: whatever failures were
  recorded before, by any clients, a further failure of a client is answered with 429 exactly when
  that client already failed at least 10 times within the last 60 seconds.
\<close>

theorem auth_failure_window:
  assumes "sorted (map snd evs @ [now])"
  shows "fst (record_management_auth_failure True now k (failures_after evs)) \<longleftrightarrow>
    10 \<le> length (filter (\<lambda>(k', t). k' = k \<and> now - t < 60) evs)"
proof -
  let ?ts = "map snd (filter (\<lambda>ev. fst ev = k) evs)"
  have "record_failure_times now (attempts_of (failures_after evs) k) = window_after (?ts @ [now])"
    by (simp add: attempts_of_failures window_after_snoc)
  also have "\<dots> = last_n 11 (recent now ?ts @ [now])"
    using window_after_eq [OF sorted_map_filter [OF assms]]
    by (simp add: MANAGEMENT_AUTH_FAILURE_LIMIT_def recent_def recent_self)
  finally have "length (record_failure_times now (attempts_of (failures_after evs) k)) = min 11 (Suc (length (recent now ?ts)))"
    by simp
  moreover have "length (recent now ?ts) = length (filter (\<lambda>(k', t). k' = k \<and> now - t < 60) evs)"
    by (induction evs) (auto simp: recent_def expired_def MANAGEMENT_AUTH_FAILURE_WINDOW_SECONDS_def)
  ultimately show ?thesis
    by (simp add: record_management_auth_failure_def Let_def MANAGEMENT_AUTH_FAILURE_LIMIT_def) linarith
qed

theorem auth_failure_window_witness:
  "fst (record_management_auth_failure True 9 ''c'' (failures_after (replicate 10 (''c'', 5))))"
  using auth_failure_window [of "replicate 10 (''c'', 5)" 9 "''c''"]
  by (simp add: sorted_append sorted_replicate map_replicate)

text \<open>
  The management API admits a request exactly when its header is the word Bearer, a space and
  the configured token. An admitted request is never rate limited and changes nothing; a refused
  one gets 401, 403 or 429, and 429 only when the limiter is on.
\<close>

theorem management_auth_spec:
  "(fst (require_management_auth cfg on now host header fs) = Inr () \<longleftrightarrow>
      header = Some (''Bearer '' @ ssf_management_token cfg))
   \<and> (fst (require_management_auth cfg on now host header fs) = Inr () \<longrightarrow>
      snd (require_management_auth cfg on now host header fs) = fs)
   \<and> (\<not> on \<longrightarrow> fst (require_management_auth cfg on now host header fs) \<noteq> Inl RateLimited429)"
  by (auto simp: require_management_auth_def Let_def nonempty_Some removeprefix_def startswith_iff
      record_management_auth_failure_def split: option.splits prod.splits if_splits)
     (auto simp: nonempty_def split: option.splits list.splits)

theorem management_auth_spec_witness:
  "fst (require_management_auth example_settings True 0 None (Some (''Bearer '' @ ssf_management_token example_settings)) Map.empty)
     = Inr ()"
  using management_auth_spec by blast

end
