(* ===== verification/Requests.thy ===== *)
theory Requests
  imports Mapper
begin

text \<open>
  \<^verbatim>\<open>app/models.py\<close>: the validators of the stream requests. Parsing a body into the fields of a
  model (required fields, forbidden extra fields, string types) is done by pydantic and not part
  of this theory; the records below are the parsed fields, and \<open>create_request\<close> and
  \<open>patch_request\<close> apply the validators of the source in field order.
\<close>

datatype stream_status = Enabled | PausedStatus | Disabled

definition status_value :: "stream_status \<Rightarrow> pystr" where
  "status_value s = (case s of Enabled \<Rightarrow> ''enabled'' | PausedStatus \<Rightarrow> ''paused'' | Disabled \<Rightarrow> ''disabled'')"

definition SUPPORTED_DELIVERY_METHODS :: "pystr list" where
  "SUPPORTED_DELIVERY_METHODS =
     [''urn:ietf:rfc:8935'', ''https://schemas.openid.net/secevent/risc/delivery-method/push'']"

datatype validation_error =
    AudListLength nat | AudNotString | AudEmpty | UnsupportedEvents "pystr list" | UnsupportedMethod pystr

definition canonicalize_event_uri :: "pystr \<Rightarrow> pystr" where
  "canonicalize_event_uri u = u"

definition aud_string :: "json \<Rightarrow> validation_error + pystr" where
  "aud_string v =
     (case v of
        JStr s \<Rightarrow> if strip s = [] then Inl AudEmpty else Inr s
      | _ \<Rightarrow> Inl AudNotString)"

definition coerce_aud :: "json \<Rightarrow> validation_error + pystr" where
  "coerce_aud v0 =
     ebind (case v0 of JArr [x] \<Rightarrow> Inr x | JArr xs \<Rightarrow> Inl (AudListLength (length xs)) | _ \<Rightarrow> Inr v0) aud_string"

definition coerce_aud_optional :: "json \<Rightarrow> validation_error + pystr option" where
  "coerce_aud_optional v = (if v = JNull then Inr None else ebind (coerce_aud v) (\<lambda>s. Inr (Some s)))"

definition validate_event_uris :: "pystr list \<Rightarrow> validation_error + pystr list" where
  "validate_event_uris uris =
     (let canonical = map canonicalize_event_uri uris;
          unsupported = filter (\<lambda>u. u \<notin> set SUPPORTED_EVENT_URIS) canonical
      in if unsupported \<noteq> [] then Inl (UnsupportedEvents unsupported) else Inr canonical)"

definition validate_method :: "pystr option \<Rightarrow> validation_error + pystr option" where
  "validate_method v =
     (case v of
        Some m \<Rightarrow> if m \<notin> set SUPPORTED_DELIVERY_METHODS then Inl (UnsupportedMethod m) else Inr v
      | None \<Rightarrow> Inr None)"

record delivery_config =
  dc_endpoint_url :: pystr
  dc_method :: "pystr option"
  dc_endpoint_url_token :: "pystr option"
  dc_authorization_header :: "pystr option"

record stream_create_request =
  cr_aud :: pystr
  cr_delivery :: delivery_config
  cr_events_requested :: "pystr list"
  cr_status :: stream_status

record stream_patch_request =
  pr_status :: "stream_status option"
  pr_events_requested :: "pystr list option"
  pr_delivery :: "delivery_config option"
  pr_aud :: "pystr option"

text \<open>The models with their validators; an absent field has its default.\<close>

definition delivery_config_model :: "delivery_config \<Rightarrow> validation_error + delivery_config" where
  "delivery_config_model d = ebind (validate_method (dc_method d)) (\<lambda>m. Inr (d\<lparr>dc_method := m\<rparr>))"

definition stream_create_model ::
  "json \<Rightarrow> delivery_config \<Rightarrow> pystr list option \<Rightarrow> stream_status option \<Rightarrow> validation_error + stream_create_request" where
  "stream_create_model v d evs st =
     ebind (coerce_aud v) (\<lambda>a.
     ebind (delivery_config_model d) (\<lambda>dc.
     ebind (case evs of None \<Rightarrow> Inr [] | Some us \<Rightarrow> validate_event_uris us) (\<lambda>us.
     Inr \<lparr>cr_aud = a, cr_delivery = dc, cr_events_requested = us,
          cr_status = (case st of Some s \<Rightarrow> s | None \<Rightarrow> Enabled)\<rparr>)))"

definition stream_patch_model ::
  "stream_status option \<Rightarrow> pystr list option \<Rightarrow> delivery_config option \<Rightarrow> json \<Rightarrow> validation_error + stream_patch_request" where
  "stream_patch_model st evs d v =
     ebind (case evs of None \<Rightarrow> Inr None | Some us \<Rightarrow> ebind (validate_event_uris us) (\<lambda>x. Inr (Some x))) (\<lambda>us.
     ebind (case d of None \<Rightarrow> Inr None | Some dc \<Rightarrow> ebind (delivery_config_model dc) (\<lambda>x. Inr (Some x))) (\<lambda>dc.
     ebind (coerce_aud_optional v) (\<lambda>a.
     Inr \<lparr>pr_status = st, pr_events_requested = us, pr_delivery = dc, pr_aud = a\<rparr>)))"

section \<open>What validated requests satisfy\<close>

lemma aud_string_ok: "aud_string v = Inr s \<longleftrightarrow> v = JStr s \<and> strip s \<noteq> []"
  by (cases v) (auto simp: aud_string_def)

lemma coerce_aud_ok: "coerce_aud v = Inr s \<longleftrightarrow> (v = JStr s \<or> v = JArr [JStr s]) \<and> strip s \<noteq> []"
proof (cases v)
  case (JArr xs)
  then show ?thesis by (cases xs; cases "tl xs") (auto simp: coerce_aud_def aud_string_ok)
qed (auto simp: coerce_aud_def aud_string_ok)

lemma validate_event_uris_ok:
  "validate_event_uris us = Inr vs \<longleftrightarrow> vs = us \<and> set us \<subseteq> set SUPPORTED_EVENT_URIS"
  by (auto simp: validate_event_uris_def canonicalize_event_uri_def Let_def filter_empty_conv map_idI
      split: if_splits)

lemma validate_method_ok:
  "validate_method v = Inr w \<longleftrightarrow> w = v \<and> (\<forall>m. v = Some m \<longrightarrow> m \<in> set SUPPORTED_DELIVERY_METHODS)"
  by (auto simp: validate_method_def split: option.splits)

definition create_request_ok :: "stream_create_request \<Rightarrow> bool" where
  "create_request_ok r \<longleftrightarrow> strip (cr_aud r) \<noteq> [] \<and> set (cr_events_requested r) \<subseteq> set SUPPORTED_EVENT_URIS
     \<and> (\<forall>m. dc_method (cr_delivery r) = Some m \<longrightarrow> m \<in> set SUPPORTED_DELIVERY_METHODS)"

lemma stream_create_model_ok:
  "stream_create_model v d evs st = Inr r \<Longrightarrow> create_request_ok r \<and> cr_delivery r = d"
  by (auto simp: stream_create_model_def delivery_config_model_def ebind_Inr_iff coerce_aud_ok validate_event_uris_ok
      validate_method_ok create_request_ok_def split: option.splits)

text \<open>
  A request passes validation exactly when its audience is one non-blank string (bare or in a
  one-element list), its delivery method, if given, is a supported one and every requested event
  type is supported; then the fields are taken over unchanged.
\<close>

theorem stream_create_model_spec:
  "stream_create_model v d evs st = Inr r \<longleftrightarrow>
     (\<exists>a. (v = JStr a \<or> v = JArr [JStr a]) \<and> strip a \<noteq> []
        \<and> (dc_method d = None \<or> the (dc_method d) \<in> set SUPPORTED_DELIVERY_METHODS)
        \<and> set (case evs of Some us \<Rightarrow> us | None \<Rightarrow> []) \<subseteq> set SUPPORTED_EVENT_URIS
        \<and> r = \<lparr>cr_aud = a, cr_delivery = d, cr_events_requested = (case evs of Some us \<Rightarrow> us | None \<Rightarrow> []),
              cr_status = (case st of Some s \<Rightarrow> s | None \<Rightarrow> Enabled)\<rparr>)"
  by (cases "dc_method d"; cases evs)
     (auto simp: stream_create_model_def delivery_config_model_def ebind_Inr_iff coerce_aud_ok validate_event_uris_ok
      validate_method_ok)

end
