(* ===== verification/Stream_Api.thy ===== *)
theory Stream_Api
  imports Outbox Requests
begin

text \<open>
  \<^verbatim>\<open>app/routes/streams.py\<close> and \<^verbatim>\<open>app/routes/verification.py\<close>: the handlers of the management API.
  A handler takes the deployment (\<open>service\<close>), what one call draws from its environment (\<open>call\<close>),
  the validated request and the world (tables and sent requests), and returns a response with the
  new world. \<open>HttpError\<close> carries the status code and the fixed part of the detail text; \<open>Crash\<close> is
  an unhandled exception, which the framework answers with status 500.
\<close>

record service =
  sv_lib :: crypto_lib
  sv_cfg :: settings
  sv_keys :: key_files
  sv_reply :: network

record call =
  c_dns :: resolver
  c_fresh :: "nat \<Rightarrow> fresh"
  c_now :: int
  c_nonce :: nat
  c_uuid :: pystr
  c_others :: "db \<Rightarrow> db"

record world =
  w_db :: db
  w_sent :: "http_request list"

datatype response = Resp int json | HttpError int pystr | Crash

section \<open>Stream representation\<close>

definition EVENTS_SUPPORTED :: "pystr list" where
  "EVENTS_SUPPORTED = [CREDENTIAL_CHANGE, SESSION_REVOKED, VERIFICATION_EVENT]"

definition stream_response :: "settings \<Rightarrow> stream \<Rightarrow> json" where
  "stream_response cfg st =
     JObj [(''iss'', JStr (ssf_issuer cfg)), (''stream_id'', JStr (stream_id st)), (''aud'', JStr (aud st)),
       (''delivery'', JObj [(''method'', JStr ''urn:ietf:rfc:8935''), (''endpoint_url'', JStr (endpoint_url st))]),
       (''events_supported'', JArr (map JStr EVENTS_SUPPORTED)),
       (''events_requested'', JArr (events_requested st)),
       (''events_delivered'', JArr (filter (\<lambda>e. e \<in> set (map JStr EVENTS_SUPPORTED)) (events_requested st))),
       (''status'', JStr (status st)), (''stream_model'', JStr ''single-stream''), (''created_at'', JInt (created_at st))]"

definition status_response :: "stream \<Rightarrow> json" where
  "status_response st =
     JObj [(''status'', JStr (status st)), (''stream_id'', JStr (stream_id st)), (''aud'', JStr (aud st)),
       (''events_requested'', JArr (events_requested st))]"

text \<open>\<^verbatim>\<open>_get_stream_or_404\<close>: the response to give instead, or the stream.\<close>

definition get_stream_or_404 :: "service \<Rightarrow> pystr option \<Rightarrow> world \<Rightarrow> response + stream" where
  "get_stream_or_404 sv sid w =
     (case get_first_stream (sv_lib sv) (sv_cfg sv) (w_db w) of
        Inl _ \<Rightarrow> Inl Crash
      | Inr None \<Rightarrow> Inl (HttpError 404 ''No stream configured'')
      | Inr (Some st) \<Rightarrow>
          (case sid of
             Some i \<Rightarrow> if stream_id st \<noteq> i then Inl (HttpError 404 ''Stream not found'') else Inr st
           | None \<Rightarrow> Inr st))"

definition respond :: "(response + stream) \<Rightarrow> (stream \<Rightarrow> response) \<Rightarrow> response" where
  "respond r f = (case r of Inl e \<Rightarrow> e | Inr st \<Rightarrow> f st)"

section \<open>Create\<close>

definition create_payload :: "stream_create_request \<Rightarrow> stream_payload" where
  "create_payload body =
     (let dc = cr_delivery body in
      \<lparr>p_stream_id = None, p_aud = Some (cr_aud body),
       p_delivery = Some \<lparr>d_endpoint_url = Some (dc_endpoint_url dc),
                         d_endpoint_url_token = Some (opt_str (dc_endpoint_url_token dc)),
                         d_authorization_header = Some (opt_str (dc_authorization_header dc))\<rparr>,
       p_endpoint_url = None, p_endpoint_token = None,
       p_events_requested = Some (JArr (map JStr (cr_events_requested body))),
       p_status = Some (status_value (cr_status body))\<rparr>)"

definition create_stream_endpoint :: "service \<Rightarrow> call \<Rightarrow> stream_create_request \<Rightarrow> world \<Rightarrow> response \<times> world" where
  "create_stream_endpoint sv c body w =
     (case validate_receiver_endpoint_url (c_dns c) (dc_endpoint_url (cr_delivery body))
             (ssf_allowed_receiver_hosts (sv_cfg sv)) of
        Inl _ \<Rightarrow> (HttpError 400 ''Invalid endpoint_url'', w)
      | Inr _ \<Rightarrow>
         (case prepare_stream (c_uuid c) (c_now c) (create_payload body) of
            Inl _ \<Rightarrow> (HttpError 400 ''Rejected stream'', w)
          | Inr st \<Rightarrow>
             (case push_verification_set (sv_lib sv) (sv_cfg sv) (sv_keys sv) (c_fresh c 0) (c_dns c) (sv_reply sv)
                     st None (w_sent w) of
                (Raised, sent) \<Rightarrow> (Crash, w\<lparr>w_sent := sent\<rparr>)
              | (Returned False, sent) \<Rightarrow> (HttpError 502 ''Verification SET delivery failed'', w\<lparr>w_sent := sent\<rparr>)
              | (Returned True, sent) \<Rightarrow>
                  (Resp 201 (stream_response (sv_cfg sv) st),
                   w\<lparr>w_sent := sent,
                     w_db := save_stream (sv_lib sv) (sv_cfg sv) (c_nonce c) st (c_others c (w_db w))\<rparr>))))"

section \<open>Read, patch, delete\<close>

definition get_stream_endpoint :: "service \<Rightarrow> world \<Rightarrow> response" where
  "get_stream_endpoint sv w = respond (get_stream_or_404 sv None w) (\<lambda>st. Resp 200 (stream_response (sv_cfg sv) st))"

definition get_stream_by_id_endpoint :: "service \<Rightarrow> pystr \<Rightarrow> world \<Rightarrow> response" where
  "get_stream_by_id_endpoint sv sid w =
     respond (get_stream_or_404 sv (Some sid) w) (\<lambda>st. Resp 200 (stream_response (sv_cfg sv) st))"

definition patch_payload :: "stream_patch_request \<Rightarrow> stream_payload" where
  "patch_payload body =
     \<lparr>p_stream_id = None, p_aud = pr_aud body,
      p_delivery = map_option (\<lambda>dc. \<lparr>d_endpoint_url = Some (dc_endpoint_url dc),
          d_endpoint_url_token = dc_endpoint_url_token dc,
          d_authorization_header = dc_authorization_header dc\<rparr>) (pr_delivery body),
      p_endpoint_url = None, p_endpoint_token = None,
      p_events_requested = map_option (\<lambda>us. JArr (map JStr us)) (pr_events_requested body),
      p_status = map_option status_value (pr_status body)\<rparr>"

definition patch_url_ok :: "service \<Rightarrow> call \<Rightarrow> stream_patch_request \<Rightarrow> bool" where
  "patch_url_ok sv c body =
     (case pr_delivery body of
        None \<Rightarrow> True
      | Some dc \<Rightarrow> is_ok (validate_receiver_endpoint_url (c_dns c) (dc_endpoint_url dc)
                         (ssf_allowed_receiver_hosts (sv_cfg sv))))"

definition patch_stream_body :: "service \<Rightarrow> call \<Rightarrow> stream_patch_request \<Rightarrow> world \<Rightarrow> response \<times> world" where
  "patch_stream_body sv c body w =
     (if \<not> patch_url_ok sv c body then (HttpError 400 ''Invalid endpoint_url'', w)
      else case update_stream (sv_lib sv) (sv_cfg sv) (c_nonce c) (patch_payload body) (w_db w) of
        Inl EventsNotList \<Rightarrow> (HttpError 400 ''events_requested must be a list when provided'', w)
      | Inl UndecryptableToken \<Rightarrow> (HttpError 400 ''Receiver endpoint token cannot be decrypted'', w)
      | Inl _ \<Rightarrow> (HttpError 400 ''Unreadable stream row'', w)
      | Inr (None, d) \<Rightarrow> (HttpError 404 ''No stream configured'', w\<lparr>w_db := d\<rparr>)
      | Inr (Some st, d) \<Rightarrow> (Resp 200 (stream_response (sv_cfg sv) st), w\<lparr>w_db := d\<rparr>))"

definition patch_stream_endpoint :: "service \<Rightarrow> call \<Rightarrow> stream_patch_request \<Rightarrow> world \<Rightarrow> response \<times> world" where
  "patch_stream_endpoint sv c body w = patch_stream_body sv c body w"

definition patch_stream_by_id_endpoint ::
  "service \<Rightarrow> call \<Rightarrow> pystr \<Rightarrow> stream_patch_request \<Rightarrow> world \<Rightarrow> response \<times> world" where
  "patch_stream_by_id_endpoint sv c sid body w =
     (case get_stream_or_404 sv (Some sid) w of
        Inl e \<Rightarrow> (e, w)
      | Inr _ \<Rightarrow> patch_stream_body sv c body (w\<lparr>w_db := c_others c (w_db w)\<rparr>))"

definition delete_stream_endpoint :: "service \<Rightarrow> call \<Rightarrow> world \<Rightarrow> response \<times> world" where
  "delete_stream_endpoint sv c w =
     (case delete_stream (sv_lib sv) (sv_cfg sv) (c_others c) (w_db w) of
        Inl _ \<Rightarrow> (Crash, w)
      | Inr (_, d) \<Rightarrow> (Resp 204 JNull, w\<lparr>w_db := d\<rparr>))"

definition delete_stream_by_id_endpoint :: "pystr \<Rightarrow> world \<Rightarrow> response \<times> world" where
  "delete_stream_by_id_endpoint sid w =
     (case delete_stream_by_id sid (w_db w) of
        (deleted, d) \<Rightarrow>
          ((if deleted then Resp 204 JNull else HttpError 404 ''Stream not found''), w\<lparr>w_db := d\<rparr>))"

definition add_subject :: "pydict \<Rightarrow> response" where
  "add_subject payload = Resp 200 (JObj [(''status'', JStr ''ok'')])"

definition remove_subject :: "pydict \<Rightarrow> response" where
  "remove_subject payload = Resp 200 (JObj [(''status'', JStr ''ok'')])"

section \<open>Status and queue\<close>

definition stream_status_endpoint :: "service \<Rightarrow> world \<Rightarrow> response" where
  "stream_status_endpoint sv w =
     (case get_first_stream (sv_lib sv) (sv_cfg sv) (w_db w) of
        Inl _ \<Rightarrow> Crash
      | Inr None \<Rightarrow> Resp 200 (JObj [(''status'', JStr ''disabled''), (''reason'', JStr ''no_stream'')])
      | Inr (Some st) \<Rightarrow> Resp 200 (status_response st))"

definition stream_status_by_id :: "service \<Rightarrow> pystr \<Rightarrow> world \<Rightarrow> response" where
  "stream_status_by_id sv sid w = respond (get_stream_or_404 sv (Some sid) w) (\<lambda>st. Resp 200 (status_response st))"

definition opt_int :: "int option \<Rightarrow> json" where
  "opt_int v = (case v of Some i \<Rightarrow> JInt i | None \<Rightarrow> JNull)"

definition delivery_status :: "int \<Rightarrow> world \<Rightarrow> response" where
  "delivery_status now w =
     (let s = get_outbox_status (w_db w) in
      Resp 200 (JObj [(''pending'', JInt (int (s_pending s))), (''blocked'', JInt (int (s_blocked s))),
        (''oldest_pending_at'', opt_int (s_oldest_pending_at s)), (''stored'', JInt (int (s_stored s))),
        (''capacity'', JInt (int (s_capacity s))),
        (''oldest_pending_age_seconds'', opt_int (map_option (\<lambda>t. max 0 (now - t)) (s_oldest_pending_at s)))]))"

definition count_response :: "pystr \<Rightarrow> nat \<times> db \<Rightarrow> world \<Rightarrow> response \<times> world" where
  "count_response key r w = (Resp 200 (JObj [(key, JInt (int (fst r)))]), w\<lparr>w_db := snd r\<rparr>)"

definition retry_blocked_deliveries :: "int \<Rightarrow> world \<Rightarrow> response \<times> world" where
  "retry_blocked_deliveries now w = count_response ''requeued'' (requeue_blocked_outbox now (w_db w)) w"

definition discard_pending_deliveries :: "world \<Rightarrow> response \<times> world" where
  "discard_pending_deliveries w = count_response ''discarded'' (delete_pending_outbox (w_db w)) w"

definition discard_blocked_deliveries :: "world \<Rightarrow> response \<times> world" where
  "discard_blocked_deliveries w = count_response ''discarded'' (delete_blocked_outbox (w_db w)) w"

section \<open>Verification\<close>

definition verify_stream :: "service \<Rightarrow> call \<Rightarrow> (response + stream) \<Rightarrow> pystr option \<Rightarrow> world \<Rightarrow> response \<times> world" where
  "verify_stream sv c found state w =
     (case found of
        Inl e \<Rightarrow> (e, w)
      | Inr st \<Rightarrow>
         (case push_verification_set (sv_lib sv) (sv_cfg sv) (sv_keys sv) (c_fresh c 0) (c_dns c) (sv_reply sv)
                 st state (w_sent w) of
            (Raised, sent) \<Rightarrow> (Crash, w\<lparr>w_sent := sent\<rparr>)
          | (Returned False, sent) \<Rightarrow> (HttpError 502 ''Verification SET delivery failed'', w\<lparr>w_sent := sent\<rparr>)
          | (Returned True, sent) \<Rightarrow> (Resp 202 JNull, w\<lparr>w_sent := sent\<rparr>)))"

definition verify_stream_by_id :: "service \<Rightarrow> call \<Rightarrow> pystr \<Rightarrow> world \<Rightarrow> response \<times> world" where
  "verify_stream_by_id sv c sid w = verify_stream sv c (get_stream_or_404 sv (Some sid) w) None w"

text \<open>
  The body of \<^verbatim>\<open>POST /ssf/verification\<close>: a bare string stands for an object with that state. The
  result is the optional state of a body of the right types, \<open>None\<close> for any other.
\<close>

definition coerce_string :: "json \<Rightarrow> json" where
  "coerce_string v = (case v of JStr s \<Rightarrow> JObj [(''state'', JStr s)] | _ \<Rightarrow> v)"

definition verification_request :: "json \<Rightarrow> pystr option option" where
  "verification_request v =
     (case coerce_string v of
        JObj d \<Rightarrow> (case dget d ''state'' of JStr s \<Rightarrow> Some (Some s) | JNull \<Rightarrow> Some None | _ \<Rightarrow> None)
      | _ \<Rightarrow> None)"

lemma verification_request_forms:
  "verification_request (JStr s) = Some (Some s)" "verification_request (JObj [(''state'', JStr s)]) = Some (Some s)"
  "verification_request (JObj []) = Some None"
  by (simp_all add: verification_request_def coerce_string_def dget_def)

text \<open>\<^verbatim>\<open>POST /ssf/verification\<close> with the optional state of its body.\<close>

definition trigger_verification :: "service \<Rightarrow> call \<Rightarrow> pystr option \<Rightarrow> world \<Rightarrow> response \<times> world" where
  "trigger_verification sv c state w = verify_stream sv c (get_stream_or_404 sv None w) state w"

section \<open>Lemmas\<close>

definition code_of :: "response \<Rightarrow> int" where
  "code_of r = (case r of Resp k _ \<Rightarrow> k | HttpError k _ \<Rightarrow> k | Crash \<Rightarrow> 500)"

text \<open>What a created stream is, from the request.\<close>

definition registered_stream :: "call \<Rightarrow> stream_create_request \<Rightarrow> stream" where
  "registered_stream c body =
     (let dc = cr_delivery body; tok = opt_str (dc_endpoint_url_token dc); h = opt_str (dc_authorization_header dc) in
      \<lparr>stream_id = c_uuid c, aud = cr_aud body, endpoint_url = dc_endpoint_url dc,
       endpoint_token = (if tok \<noteq> [] then tok else removeprefix h ''Bearer ''),
       events_requested = map JStr (cr_events_requested body), status = status_value (cr_status body),
       created_at = c_now c\<rparr>)"

lemma removeprefix_Nil [simp]: "removeprefix [] p = []"
  by (auto simp: removeprefix_def)

lemma prepare_created:
  assumes "dc_endpoint_url (cr_delivery body) \<noteq> []" "cr_aud body \<noteq> []"
  shows "prepare_stream (c_uuid c) (c_now c) (create_payload body) = Inr (registered_stream c body)"
  using assms
  by (cases "dc_endpoint_url (cr_delivery body)"; cases "cr_aud body";
      cases "opt_str (dc_endpoint_url_token (cr_delivery body))";
      cases "opt_str (dc_authorization_header (cr_delivery body))")
     (auto simp: prepare_stream_def create_payload_def registered_stream_def delivery_of_def or_str_def nonempty_def
       opt_str_def Let_def py_or_def split: option.splits)

text \<open>Registration by its outcomes.\<close>

lemma create_stream_cases:
  assumes "create_request_ok body" "create_stream_endpoint sv c body w = (r, w')"
    and "push_verification_set (sv_lib sv) (sv_cfg sv) (sv_keys sv) (c_fresh c 0) (c_dns c) (sv_reply sv)
      (registered_stream c body) None (w_sent w) = (q, sent)"
  shows "if safe_receiver (c_dns c) (dc_endpoint_url (cr_delivery body)) (ssf_allowed_receiver_hosts (sv_cfg sv))
    then w_sent w' = sent
      \<and> (if q = Returned True
         then r = Resp 201 (stream_response (sv_cfg sv) (registered_stream c body))
           \<and> w_db w' = save_stream (sv_lib sv) (sv_cfg sv) (c_nonce c) (registered_stream c body) (c_others c (w_db w))
         else code_of r \<in> {500, 502} \<and> w_db w' = w_db w)
    else code_of r = 400 \<and> w' = w"
proof (cases "validate_receiver_endpoint_url (c_dns c) (dc_endpoint_url (cr_delivery body)) (ssf_allowed_receiver_hosts (sv_cfg sv))")
  case (Inl e)
  then have "\<not> safe_receiver (c_dns c) (dc_endpoint_url (cr_delivery body)) (ssf_allowed_receiver_hosts (sv_cfg sv))"
    by (metis validate_iff_safe Inl_Inr_False)
  with Inl assms(2) show ?thesis by (auto simp: create_stream_endpoint_def code_of_def)
next
  case (Inr u)
  then have safe: "safe_receiver (c_dns c) (dc_endpoint_url (cr_delivery body)) (ssf_allowed_receiver_hosts (sv_cfg sv))"
    by (simp add: validate_iff_safe)
  have "cr_aud body \<noteq> []" using assms(1) by (auto simp: create_request_ok_def)
  then have p: "prepare_stream (c_uuid c) (c_now c) (create_payload body) = Inr (registered_stream c body)"
    using prepare_created safe_receiver_nonempty [OF safe] by blast
  have run: "create_stream_endpoint sv c body w =
    (if q = Returned True
     then (Resp 201 (stream_response (sv_cfg sv) (registered_stream c body)),
           w\<lparr>w_sent := sent, w_db := save_stream (sv_lib sv) (sv_cfg sv) (c_nonce c) (registered_stream c body) (c_others c (w_db w))\<rparr>)
     else if q = Raised then (Crash, w\<lparr>w_sent := sent\<rparr>)
     else (HttpError 502 ''Verification SET delivery failed'', w\<lparr>w_sent := sent\<rparr>))"
    by (simp add: create_stream_endpoint_def Inr p assms(3) split: push_result.split bool.split)
  show ?thesis
    using assms(2) unfolding run by (simp add: safe code_of_def split: if_splits) auto
qed

lemma patch_stream_outcomes:
  assumes "patch_stream_body sv c body w = (r, w')"
  shows "(\<exists>st. r = Resp 200 (stream_response (sv_cfg sv) st) \<and> patch_url_ok sv c body
      \<and> update_stream (sv_lib sv) (sv_cfg sv) (c_nonce c) (patch_payload body) (w_db w) = Inr (Some st, w_db w'))
    \<or> (code_of r \<in> {400, 404} \<and> w_db w' = w_db w)"
proof (cases "patch_url_ok sv c body")
  case True
  show ?thesis
  proof (cases "update_stream (sv_lib sv) (sv_cfg sv) (c_nonce c) (patch_payload body) (w_db w)")
    case (Inl e)
    with assms True show ?thesis by (cases e) (auto simp: patch_stream_body_def code_of_def)
  next
    case (Inr x)
    then obtain res d where x: "update_stream (sv_lib sv) (sv_cfg sv) (c_nonce c) (patch_payload body) (w_db w) = Inr (res, d)"
      by (cases x) auto
    then have "res = None \<Longrightarrow> d = w_db w" by (cases rule: update_stream_cases) auto
    with assms True x show ?thesis by (cases res) (auto simp: patch_stream_body_def code_of_def)
  qed
qed (use assms in \<open>auto simp: patch_stream_body_def code_of_def\<close>)

text \<open>A stored row and its variant with another token column give streams that differ in the token only.\<close>

lemma row_to_stream_token:
  assumes "row_to_stream lib cfg row = Inr st" "row_to_stream lib cfg (row\<lparr>r_endpoint_token := t\<rparr>) = Inr st'"
  shows "st' = st\<lparr>endpoint_token := endpoint_token st'\<rparr>"
  using assms by (auto simp: row_to_stream_def ebind_Inr_iff split: option.splits json.splits)

text \<open>Rewriting the token column of every row.\<close>

definition with_tokens :: "(pystr \<Rightarrow> pystr) \<Rightarrow> db \<Rightarrow> db" where
  "with_tokens f d = d\<lparr>streams := map (\<lambda>row. row\<lparr>r_endpoint_token := f (r_endpoint_token row)\<rparr>) (streams d)\<rparr>"

lemma sort_key_map: "(\<And>x. k (g x) = k x) \<Longrightarrow> sort_key k (map g xs) = map g (sort_key k xs)"
proof (induction xs)
  case (Cons x xs)
  have "insort_key k (g x) (map g ys) = map g (insort_key k x ys)" for ys
    using Cons.prems by (induction ys) simp_all
  with Cons show ?case by simp
qed simp

lemma rows_to_streams_tokens:
  assumes "rows_to_streams lib cfg rows = Inr sts"
    "rows_to_streams lib cfg (map (\<lambda>row. row\<lparr>r_endpoint_token := f (r_endpoint_token row)\<rparr>) rows) = Inr sts'"
  shows "list_all2 (\<lambda>st st'. st' = st\<lparr>endpoint_token := endpoint_token st'\<rparr>) sts sts'"
  using assms
proof (induction rows arbitrary: sts sts')
  case (Cons row rows)
  then show ?case using row_to_stream_token by (fastforce simp: ebind_Inr_iff)
qed simp

lemma first_stream_tokens:
  assumes "get_first_stream lib cfg d = Inr st" "get_first_stream lib cfg (with_tokens f d) = Inr st'"
  shows "st = None \<and> st' = None
    \<or> (\<exists>s s'. st = Some s \<and> st' = Some s' \<and> s' = s\<lparr>endpoint_token := endpoint_token s'\<rparr>)"
proof -
  have o: "ordered_streams (with_tokens f d)
      = map (\<lambda>row. row\<lparr>r_endpoint_token := f (r_endpoint_token row)\<rparr>) (ordered_streams d)"
    by (simp add: ordered_streams_def with_tokens_def sort_key_map)
  from assms obtain sts sts' where l: "list_streams lib cfg d = Inr sts" "list_streams lib cfg (with_tokens f d) = Inr sts'"
    and st: "st = (case sts of [] \<Rightarrow> None | x # _ \<Rightarrow> Some x)" "st' = (case sts' of [] \<Rightarrow> None | x # _ \<Rightarrow> Some x)"
    by (auto simp: get_first_stream_def ebind_Inr_iff)
  from l o have "list_all2 (\<lambda>st st'. st' = st\<lparr>endpoint_token := endpoint_token st'\<rparr>) sts sts'"
    by (auto simp: list_streams_def dest: rows_to_streams_tokens)
  then show ?thesis by (cases sts; cases sts') (simp_all add: st)
qed

lemma responses_ignore_token:
  assumes "s' = s\<lparr>endpoint_token := endpoint_token s'\<rparr>"
  shows "stream_response cfg s' = stream_response cfg s" "status_response s' = status_response s"
proof -
  have "stream_response cfg (s\<lparr>endpoint_token := t\<rparr>) = stream_response cfg s"
    "status_response (s\<lparr>endpoint_token := t\<rparr>) = status_response s" for t
    by (simp_all add: stream_response_def status_response_def)
  then show "stream_response cfg s' = stream_response cfg s" "status_response s' = status_response s"
    using assms by metis+
qed

section \<open>Properties\<close>

text \<open>
  C30. A stream is registered exactly when the receiver confirmed it: a create request is answered 201
  if and only if the URL meets the validation contract and again its revalidation before the push, a
  verification token for this stream could be signed, and the receiver answered the one request that
  carries it with a success status. Then the stored stream is the requested one; in every other case the
  answer is an error and the stored stream and the queue are untouched. An URL outside the contract is
  the one reason for 400 and causes no traffic, and nothing else than that one request is ever sent.
\<close>

theorem create_stream_confirmed:
  fixes sv c body w
  defines "st \<equiv> registered_stream c body"
    and "verification \<equiv> sign_verification_set (sv_lib sv) (sv_cfg sv) (sv_keys sv) (c_fresh c 0) (cr_aud body) (c_uuid c) None"
    and "accepted_url \<equiv> safe_receiver (c_dns c) (dc_endpoint_url (cr_delivery body)) (ssf_allowed_receiver_hosts (sv_cfg sv))"
    and "still_safe \<equiv> safe_target (sv_cfg sv) (c_dns c) (dc_endpoint_url (cr_delivery body))"
  assumes "create_request_ok body" "create_stream_endpoint sv c body w = (r, w')"
  shows "(code_of r = 201 \<longleftrightarrow> accepted_url \<and> still_safe \<and>
        (\<exists>tok code. verification = Inr tok \<and> sv_reply sv (w_sent w) (set_request st tok) = Response code \<and> 200 \<le> code \<and> code < 300))
    \<and> (if code_of r = 201
       then r = Resp 201 (stream_response (sv_cfg sv) st)
         \<and> w_db w' = save_stream (sv_lib sv) (sv_cfg sv) (c_nonce c) st (c_others c (w_db w))
       else code_of r \<in> {400, 500, 502} \<and> w_db w' = w_db w)
    \<and> (code_of r = 400 \<longleftrightarrow> \<not> accepted_url)
    \<and> w_sent w' = (case verification of
        Inl _ \<Rightarrow> w_sent w
      | Inr tok \<Rightarrow> if accepted_url \<and> still_safe then w_sent w @ [set_request st tok] else w_sent w)"
proof -
  obtain q sent where q: "push_verification_set (sv_lib sv) (sv_cfg sv) (sv_keys sv) (c_fresh c 0) (c_dns c) (sv_reply sv)
      st None (w_sent w) = (q, sent)" by fastforce
  have st: "aud st = cr_aud body" "stream_id st = c_uuid c" "endpoint_url st = dc_endpoint_url (cr_delivery body)"
    by (simp_all add: st_def registered_stream_def Let_def)
  note outcome = create_stream_cases [OF assms(5,6) q [unfolded st_def], folded st_def accepted_url_def]
  note push = verification_push [OF q, unfolded st, folded verification_def still_safe_def]
  show ?thesis
  proof (cases verification)
    case (Inl e)
    with outcome push show ?thesis by (auto simp: code_of_def split: if_splits)
  next
    case (Inr tok)
    with outcome push show ?thesis by (auto simp: code_of_def split: if_splits)
  qed
qed

definition example_service :: service where
  "example_service = \<lparr>sv_lib = toy_lib, sv_cfg = example_settings, sv_keys = example_keys, sv_reply = ok_network\<rparr>"

definition example_call :: call where
  "example_call = \<lparr>c_dns = public_dns, c_fresh = example_fresh, c_now = 100, c_nonce = 0, c_uuid = ''s1'', c_others = (\<lambda>d. d)\<rparr>"

definition example_create :: stream_create_request where
  "example_create = \<lparr>cr_aud = ''https://receiver.example.com'',
     cr_delivery = \<lparr>dc_endpoint_url = ''https://a.example.com/events'', dc_method = None,
       dc_endpoint_url_token = Some ''tok'', dc_authorization_header = None\<rparr>,
     cr_events_requested = [SESSION_REVOKED], cr_status = Enabled\<rparr>"

lemma example_registered: "registered_stream example_call example_create = example_stream"
  by (simp add: registered_stream_def example_call_def example_create_def example_stream_def opt_str_def
      SESSION_REVOKED_def status_value_def)

lemma example_material: "load_signing_material example_keys = Inr (''PEM'', JStr ''01234567'')"
  using ensure_keys_material [of "\<lparr>private_pem = None, jwks_file = None\<rparr>" example_key]
  by (simp add: example_keys_def example_key_def)

lemma example_validates: "safe_receiver public_dns ''https://a.example.com/events'' [''a.example.com'', ''b.example.com'']"
proof -
  have "is_ok (validate_receiver_endpoint_url public_dns ''https://a.example.com/events'' [''a.example.com'', ''b.example.com''])"
    by code_simp
  then show ?thesis by (auto simp: is_ok_iff validate_iff_safe)
qed

lemma example_create_code:
  "code_of (fst (create_stream_endpoint example_service example_call example_create \<lparr>w_db = empty_db, w_sent = []\<rparr>)) = 201"
proof -
  have v: "validate_receiver_endpoint_url public_dns ''https://a.example.com/events'' [''a.example.com'', ''b.example.com'']
      = Inr ''https://a.example.com/events''"
    using example_validates validate_iff_safe by blast
  have p: "prepare_stream ''s1'' 100 (create_payload example_create) = Inr example_stream"
    using prepare_created [of example_create example_call] example_registered
    by (simp add: example_call_def example_create_def)
  have "fst (push_verification_set toy_lib example_settings example_keys (example_fresh 0) public_dns ok_network example_stream None [])
      = Returned True"
    using example_safe_target unfolding revalidate_True [symmetric]
    by (simp add: push_verification_set_def sign_verification_set_def jwt_sign_def example_material post_set_def ok_network_def
        toy_lib_def)
  then obtain sent where "push_verification_set toy_lib example_settings example_keys (example_fresh 0) public_dns ok_network
      example_stream None [] = (Returned True, sent)" by (metis prod.collapse)
  with v p show ?thesis
    by (simp add: create_stream_endpoint_def example_service_def example_call_def example_settings_def code_of_def)
       (simp add: example_create_def)
qed

theorem create_stream_confirmed_witness:
  "\<exists>r w' tok. create_stream_endpoint example_service example_call example_create \<lparr>w_db = empty_db, w_sent = []\<rparr> = (r, w')
     \<and> code_of r = 201 \<and> w_db w' = saved_db \<and> w_sent w' = [set_request example_stream tok]
     \<and> safe_receiver public_dns ''https://a.example.com/events'' [''a.example.com'', ''b.example.com'']"
proof -
  obtain r w' where c: "create_stream_endpoint example_service example_call example_create \<lparr>w_db = empty_db, w_sent = []\<rparr> = (r, w')"
    by fastforce
  have "create_request_ok example_create"
    by (simp add: create_request_ok_def example_create_def SESSION_REVOKED_def SUPPORTED_EVENT_URIS_def) code_simp
  note claim = create_stream_confirmed [OF this c, unfolded example_registered]
  have ok: "code_of r = 201" using example_create_code c by simp
  with claim obtain tok where "sign_verification_set (sv_lib example_service) (sv_cfg example_service) (sv_keys example_service)
      (c_fresh example_call 0) (cr_aud example_create) (c_uuid example_call) None = Inr tok" by blast
  with ok claim have "w_db w' = saved_db \<and> w_sent w' = [set_request example_stream tok]
      \<and> safe_receiver public_dns ''https://a.example.com/events'' [''a.example.com'', ''b.example.com'']"
    by (simp add: example_service_def example_call_def saved_db_def) (simp add: example_create_def example_settings_def)
  with c ok show ?thesis by blast
qed

text \<open>
  C34. The receiver's bearer token is write-only: no read of the stream (the stream itself, by id or
  not, and its status) depends on the stored token. Two databases that differ in the token column
  alone, and that can both be read, answer every read request alike.
\<close>

theorem responses_hide_receiver_token:
  assumes "is_ok (get_first_stream (sv_lib sv) (sv_cfg sv) (w_db w))"
    "is_ok (get_first_stream (sv_lib sv) (sv_cfg sv) (with_tokens f (w_db w)))"
  shows "get_stream_endpoint sv (w\<lparr>w_db := with_tokens f (w_db w)\<rparr>) = get_stream_endpoint sv w
    \<and> get_stream_by_id_endpoint sv sid (w\<lparr>w_db := with_tokens f (w_db w)\<rparr>) = get_stream_by_id_endpoint sv sid w
    \<and> stream_status_endpoint sv (w\<lparr>w_db := with_tokens f (w_db w)\<rparr>) = stream_status_endpoint sv w
    \<and> stream_status_by_id sv sid (w\<lparr>w_db := with_tokens f (w_db w)\<rparr>) = stream_status_by_id sv sid w"
proof -
  from assms obtain st st' where st: "get_first_stream (sv_lib sv) (sv_cfg sv) (w_db w) = Inr st"
    "get_first_stream (sv_lib sv) (sv_cfg sv) (with_tokens f (w_db w)) = Inr st'" by (auto simp: is_ok_iff)
  from first_stream_tokens [OF this] show ?thesis
  proof
    assume "st = None \<and> st' = None"
    with st show ?thesis
      by (simp add: get_stream_endpoint_def get_stream_by_id_endpoint_def stream_status_endpoint_def stream_status_by_id_def
          get_stream_or_404_def respond_def)
  next
    assume "\<exists>s s'. st = Some s \<and> st' = Some s' \<and> s' = s\<lparr>endpoint_token := endpoint_token s'\<rparr>"
    then obtain s s' where s: "st = Some s" "st' = Some s'" "s' = s\<lparr>endpoint_token := endpoint_token s'\<rparr>" by blast
    from s(3) have i: "stream_id s' = stream_id s" by (metis stream.select_convs(1) stream.surjective stream.update_convs(4))
    show ?thesis
      using st s(1,2) i responses_ignore_token [OF s(3)]
      by (simp add: get_stream_endpoint_def get_stream_by_id_endpoint_def stream_status_endpoint_def stream_status_by_id_def
          get_stream_or_404_def respond_def)
  qed
qed

text \<open>The token column emptied: a stream without a token.\<close>

lemma emptied_row_reads:
  assumes "storable st"
  shows "row_to_stream lib cfg ((stream_to_row lib cfg n st)\<lparr>r_endpoint_token := []\<rparr>) = Inr (st\<lparr>endpoint_token := []\<rparr>)"
  using assms
  by (simp add: row_to_stream_def stream_to_row_def decrypt_token_def storable_def json_loads_dumps_spaced del: plain.simps)

lemma saved_db_reads:
  "get_first_stream toy_lib example_settings saved_db = Inr (Some example_stream)"
  "get_first_stream toy_lib example_settings (with_tokens (\<lambda>_. []) saved_db) = Inr (Some (example_stream\<lparr>endpoint_token := []\<rparr>))"
  using get_first_saved [OF toy_lib_laws storable_example] emptied_row_reads [OF storable_example]
  by (simp_all add: saved_db_def get_first_stream_def list_streams_def ordered_streams_def with_tokens_def save_stream_def)

theorem responses_hide_receiver_token_witness:
  "get_stream_endpoint example_service \<lparr>w_db = with_tokens (\<lambda>_. []) saved_db, w_sent = []\<rparr>
     = get_stream_endpoint example_service \<lparr>w_db = saved_db, w_sent = []\<rparr>"
  using responses_hide_receiver_token [of example_service "\<lparr>w_db = saved_db, w_sent = []\<rparr>" "\<lambda>_. []"] saved_db_reads
  by (simp add: example_service_def is_ok_def)

text \<open>
  C31. A patch cannot move the stream to an unvalidated address: it answers 200 only when a supplied
  endpoint met the validation contract, and then the patched stream is the one stored, or else it
  answers an error and changes nothing; a rejected URL never reaches the tables.
\<close>

theorem patch_endpoint_validated:
  assumes "patch_stream_endpoint sv c body w = (r, w')"
  shows "w_sent w' = w_sent w
    \<and> (code_of r = 200
        \<and> (\<forall>dc. pr_delivery body = Some dc \<longrightarrow>
             safe_receiver (c_dns c) (dc_endpoint_url dc) (ssf_allowed_receiver_hosts (sv_cfg sv)))
        \<and> (\<exists>st. r = Resp 200 (stream_response (sv_cfg sv) st)
             \<and> update_stream (sv_lib sv) (sv_cfg sv) (c_nonce c) (patch_payload body) (w_db w) = Inr (Some st, w_db w'))
      \<or> code_of r \<in> {400, 404} \<and> w_db w' = w_db w)"
proof -
  have p: "patch_stream_body sv c body w = (r, w')" using assms by (simp add: patch_stream_endpoint_def)
  have "w_sent w' = w_sent w"
    using p by (auto simp: patch_stream_body_def split: if_splits sum.splits option.splits db_error.splits)
  moreover have "patch_url_ok sv c body \<Longrightarrow> pr_delivery body = Some dc \<Longrightarrow>
      safe_receiver (c_dns c) (dc_endpoint_url dc) (ssf_allowed_receiver_hosts (sv_cfg sv))" for dc
    by (auto simp: patch_url_ok_def is_ok_iff validate_iff_safe)
  ultimately show ?thesis using patch_stream_outcomes [OF p] by (auto simp: code_of_def)
qed

definition example_patch :: stream_patch_request where
  "example_patch = \<lparr>pr_status = None, pr_events_requested = None,
     pr_delivery = Some \<lparr>dc_endpoint_url = ''http://127.0.0.1/'', dc_method = None, dc_endpoint_url_token = None,
       dc_authorization_header = None\<rparr>,
     pr_aud = None\<rparr>"

theorem patch_endpoint_validated_witness:
  "patch_stream_endpoint example_service example_call example_patch \<lparr>w_db = saved_db, w_sent = []\<rparr>
     = (HttpError 400 ''Invalid endpoint_url'', \<lparr>w_db = saved_db, w_sent = []\<rparr>)
   \<and> w_db (snd (patch_stream_endpoint example_service example_call example_patch \<lparr>w_db = saved_db, w_sent = []\<rparr>)) = saved_db"
proof -
  have "\<not> patch_url_ok example_service example_call example_patch" by code_simp
  then have p: "patch_stream_endpoint example_service example_call example_patch \<lparr>w_db = saved_db, w_sent = []\<rparr>
      = (HttpError 400 ''Invalid endpoint_url'', \<lparr>w_db = saved_db, w_sent = []\<rparr>)"
    by (simp add: patch_stream_endpoint_def patch_stream_body_def)
  from patch_endpoint_validated [OF this] p show ?thesis by (simp add: code_of_def)
qed

end
