(* ===== verification/Web.thy ===== *)
theory Web
  imports Stream_Api
begin

text \<open>
  The public pages and what every response passes through: \<^verbatim>\<open>app/routes/root.py\<close> (discovery page,
  error responses), \<^verbatim>\<open>app/routes/wellknown.py\<close>, \<^verbatim>\<open>app/routes/jwks.py\<close> and the two middlewares of
  \<^verbatim>\<open>app/main.py\<close>. Header names are in lower case. A page is the list of its UTF-8 bytes, as it is
  sent, since the long dash of the not-found page is not among the characters of HOL.
\<close>

section \<open>Messages\<close>

record web_request =
  wr_path :: pystr
  wr_headers :: "(pystr \<times> pystr) list"

datatype web_body = Html pystr | JsonBody json

record web_response =
  wp_status :: int
  wp_headers :: "(pystr \<times> pystr) list"
  wp_body :: web_body

definition header :: "(pystr \<times> pystr) list \<Rightarrow> pystr \<Rightarrow> pystr" where
  "header hs k = (case map_of hs k of Some v \<Rightarrow> v | None \<Rightarrow> [])"

text \<open>A response the framework makes carries the content type of its body.\<close>

definition content_type_of :: "web_body \<Rightarrow> pystr" where
  "content_type_of b = (case b of Html _ \<Rightarrow> ''text/html; charset=utf-8'' | JsonBody _ \<Rightarrow> ''application/json'')"

definition make_response :: "int \<Rightarrow> (pystr \<times> pystr) list \<Rightarrow> web_body \<Rightarrow> web_response" where
  "make_response st hs b =
     \<lparr>wp_status = st, wp_headers = (if map_of hs ''content-type'' = None then hs @ [(''content-type'', content_type_of b)] else hs), wp_body = b\<rparr>"

section \<open>Pages\<close>

definition SERVICE_NAME :: pystr where "SERVICE_NAME = ''SSF Transmitter''"
definition DISCOVERY_PATH :: pystr where "DISCOVERY_PATH = ''/.well-known/ssf-configuration''"

definition app_version :: "environ \<Rightarrow> pystr" where
  "app_version env = getenv env ''APP_VERSION'' ''dev''"

definition wants_html :: "web_request \<Rightarrow> bool" where
  "wants_html r =
     (let accept = header (wr_headers r) ''accept'' in
      if contains accept ''application/json'' \<and> \<not> contains accept ''text/html'' then False
      else contains accept ''text/html'')"

definition discovery_payload :: "environ \<Rightarrow> json" where
  "discovery_payload env =
     JObj [(''service'', JStr SERVICE_NAME), (''version'', JStr (app_version env)), (''discovery'', JStr DISCOVERY_PATH)]"

definition not_found_payload :: "pystr \<Rightarrow> json" where
  "not_found_payload path = JObj [(''error'', JStr ''not_found''), (''path'', JStr path), (''hint'', JStr DISCOVERY_PATH)]"

text \<open>\<^verbatim>\<open>html.escape\<close>.\<close>

definition escape_char :: "char \<Rightarrow> pystr" where
  "escape_char c =
     (if c = CHR ''&'' then ''&amp;'' else if c = CHR ''<'' then ''&lt;'' else if c = CHR ''>'' then ''&gt;''
      else if c = CHR 0x22 then ''&quot;'' else if c = CHR 0x27 then ''&#x27;'' else [c])"

definition escape :: "pystr \<Rightarrow> pystr" where
  "escape s = concat (map escape_char s)"

definition attr :: "pystr \<Rightarrow> pystr \<Rightarrow> pystr" where
  "attr k v = k @ ''='' @ [CHR 0x22] @ v @ [CHR 0x22]"

text \<open>The encoding of an HTML response, and the long dash in it.\<close>

definition utf8_char :: "char \<Rightarrow> pystr" where
  "utf8_char c = (let n = (of_char c :: nat) in
     if n < 128 then [c] else [char_of (192 + n div 64), char_of (128 + n mod 64)])"

definition utf8 :: "pystr \<Rightarrow> pystr" where
  "utf8 s = concat (map utf8_char s)"

definition EM_DASH :: pystr where "EM_DASH = [CHR 0xE2, CHR 0x80, CHR 0x94]"

text \<open>A page: the lines of the template, each ended by a newline.\<close>

definition page_lines :: "pystr list \<Rightarrow> pystr" where
  "page_lines ls = concat (map (\<lambda>l. l @ [CHR 0x0A]) ls)"

definition page_head :: "pystr \<Rightarrow> pystr list" where
  "page_head title =
     [''<!DOCTYPE html>'', ''<html '' @ attr ''lang'' ''en'' @ ''>'', ''<head>'', ''  <meta '' @ attr ''charset'' ''utf-8'' @ ''>'',
      ''  <title>'' @ title @ ''</title>'', ''</head>'', ''<body>'']"

definition discovery_link :: "pystr \<Rightarrow> pystr" where
  "discovery_link d = ''  <p>SSF discovery: <a '' @ attr ''href'' d @ ''>'' @ d @ ''</a></p>''"

definition discovery_html :: "environ \<Rightarrow> pystr" where
  "discovery_html env =
     page_lines (page_head SERVICE_NAME @
       [''  <h1>'' @ SERVICE_NAME @ ''</h1>'', ''  <p>Version '' @ utf8 (escape (app_version env)) @ ''</p>'',
        discovery_link (escape DISCOVERY_PATH), ''</body>'', ''</html>''])"

definition not_found_html :: "pystr \<Rightarrow> pystr" where
  "not_found_html path =
     page_lines (page_head (''Not Found '' @ EM_DASH @ '' '' @ SERVICE_NAME) @
       [''  <h1>Not Found</h1>'', ''  <p>No route for <code>'' @ utf8 (escape path) @ ''</code>.</p>'',
        discovery_link (escape DISCOVERY_PATH), ''</body>'', ''</html>''])"

definition service_root :: "environ \<Rightarrow> web_request \<Rightarrow> web_response" where
  "service_root env r =
     (if wants_html r then make_response 200 [] (Html (discovery_html env))
      else make_response 200 [] (JsonBody (discovery_payload env)))"

definition ssf_configuration :: "settings \<Rightarrow> json" where
  "ssf_configuration cfg =
     JObj [(''issuer'', JStr (ssf_issuer cfg)), (''jwks_uri'', JStr (public_url cfg ''/jwks.json'')),
       (''delivery_methods_supported'', JArr [JStr ''urn:ietf:rfc:8935'']),
       (''configuration_endpoint'', JStr (public_url cfg ''/ssf/streams'')),
       (''add_subject_endpoint'', JStr (public_url cfg ''/ssf/streams/subjects:add'')),
       (''remove_subject_endpoint'', JStr (public_url cfg ''/ssf/streams/subjects:remove'')),
       (''status_endpoint'', JStr (public_url cfg ''/ssf/status'')),
       (''verification_endpoint'', JStr (public_url cfg ''/ssf/verification'')),
       (''authorization_schemes'', JArr [JObj [(''spec_urn'', JStr ''urn:ietf:rfc:6750'')]]),
       (''critical_subject_members'', JArr []), (''spec_version'', JStr ''1_0'')]"

definition jwks :: "key_files \<Rightarrow> response" where
  "jwks kf = (case load_jwks kf of Inr v \<Rightarrow> Resp 200 v | Inl _ \<Rightarrow> Crash)"

section \<open>Errors\<close>

text \<open>An exception a route or the router raised: status, detail, headers.\<close>

record http_exception =
  x_status :: int
  x_detail :: json
  x_headers :: "(pystr \<times> pystr) list"

definition is_unmatched_route :: "http_exception \<Rightarrow> bool" where
  "is_unmatched_route e \<longleftrightarrow> x_status e = 404 \<and> x_detail e = JStr ''Not Found''"

definition http_exception_handler :: "web_request \<Rightarrow> http_exception \<Rightarrow> web_response" where
  "http_exception_handler r e =
     (if is_unmatched_route e then
        (if wants_html r then make_response 404 (x_headers e) (Html (not_found_html (wr_path r)))
         else make_response 404 (x_headers e) (JsonBody (not_found_payload (wr_path r))))
      else make_response (x_status e) (x_headers e) (JsonBody (JObj [(''detail'', x_detail e)])))"

section \<open>Middleware\<close>

definition set_header :: "pystr \<Rightarrow> pystr \<Rightarrow> web_response \<Rightarrow> web_response" where
  "set_header k v p = p\<lparr>wp_headers := AList.update k v (wp_headers p)\<rparr>"

definition DOCS_HTML_PATHS :: "pystr list" where
  "DOCS_HTML_PATHS = [''/docs'', ''/redoc'', ''/docs/oauth2-redirect'']"

definition CSP :: pystr where
  "CSP = ''default-src '' @ repr_str ''none'' @ ''; style-src '' @ repr_str ''unsafe-inline'' @ ''; frame-ancestors '' @ repr_str ''none''"

definition security_headers :: "web_request \<Rightarrow> web_response \<Rightarrow> web_response" where
  "security_headers r p0 =
     (let p = set_header ''cache-control'' ''no-store'' (set_header ''referrer-policy'' ''no-referrer''
                (set_header ''x-frame-options'' ''DENY'' (set_header ''x-content-type-options'' ''nosniff'' p0)))
      in if contains (header (wp_headers p) ''content-type'') ''text/html'' \<and> wr_path r \<notin> set DOCS_HTML_PATHS
         then set_header ''content-security-policy'' CSP p else p)"

text \<open>The identifier of the request is the client's, or the first eight characters of a fresh one.\<close>

definition request_id :: "pystr \<Rightarrow> web_request \<Rightarrow> web_response \<Rightarrow> web_response" where
  "request_id uuid r p =
     (let given = header (wr_headers r) ''x-request-id'' in
      set_header ''x-request-id'' (if given \<noteq> [] then given else take 8 uuid) p)"

text \<open>The security headers are outermost.\<close>

definition respond_through :: "pystr \<Rightarrow> web_request \<Rightarrow> web_response \<Rightarrow> web_response" where
  "respond_through uuid r p = security_headers r (request_id uuid r p)"

section \<open>Escaping\<close>

text \<open>What a browser makes of the entities that the escaping writes.\<close>

fun unescape_html :: "pystr \<Rightarrow> pystr" where
  "unescape_html [] = []"
| "unescape_html (c # s) =
     (if c = CHR ''&'' then
        (if startswith s ''amp;'' then CHR ''&'' # unescape_html (drop 4 s)
         else if startswith s ''lt;'' then CHR ''<'' # unescape_html (drop 3 s)
         else if startswith s ''gt;'' then CHR ''>'' # unescape_html (drop 3 s)
         else if startswith s ''quot;'' then CHR 0x22 # unescape_html (drop 5 s)
         else if startswith s ''#x27;'' then CHR 0x27 # unescape_html (drop 5 s)
         else c # unescape_html s)
      else c # unescape_html s)"

lemma unescape_escape: "unescape_html (escape s) = s"
  by (induction s) (simp_all add: escape_def escape_char_def startswith_def)

lemma escape_safe: "set (escape s) \<inter> {CHR ''<'', CHR ''>'', CHR 0x22, CHR 0x27} = {}"
  by (induction s) (auto simp: escape_def escape_char_def)

text \<open>The bytes of an encoded character above 127 are above 127 themselves.\<close>

lemma utf8_char_ascii:
  assumes "b \<in> set (utf8_char c)" "(of_char b :: nat) < 128"
  shows "b = c"
proof (rule ccontr)
  assume "b \<noteq> c"
  define n where "n = (of_char c :: nat)"
  have "n < 256" unfolding n_def by (rule of_char_less)
  from assms(1) \<open>b \<noteq> c\<close> have "b = char_of (192 + n div 64) \<or> b = char_of (128 + n mod 64)"
    by (auto simp: utf8_char_def Let_def n_def split: if_splits)
  with \<open>n < 256\<close> assms(2) show False by (auto simp: of_char_of take_bit_eq_mod)
qed

lemma utf8_ascii: "(of_char b :: nat) < 128 \<Longrightarrow> b \<notin> set s \<Longrightarrow> b \<notin> set (utf8 s)"
  by (auto simp: utf8_def dest: utf8_char_ascii)

lemma utf8_escape_safe: "set (utf8 (escape s)) \<inter> {CHR ''<'', CHR ''>'', CHR 0x22, CHR 0x27} = {}"
  using escape_safe [of s] by (auto dest: utf8_ascii [of _ "escape s", rotated])

lemma header_set [simp]: "header (wp_headers (set_header k v p)) k' = (if k' = k then v else header (wp_headers p) k')"
  by (simp add: set_header_def header_def update_conv')

lemma set_header_keeps [simp]: "wp_body (set_header k v p) = wp_body p" "wp_status (set_header k v p) = wp_status p"
  by (simp_all add: set_header_def)

lemma page_lines_append: "page_lines (xs @ ys) = page_lines xs @ page_lines ys"
  by (simp add: page_lines_def)

section \<open>Properties\<close>

text \<open>
  C40. The not-found page cannot be used to inject markup: whatever path was requested, the page is
  a fixed text around the encoding of the escaped path, which has none of the bytes that open or
  close a tag or an attribute, and a browser shows exactly the requested path. The response carries
  the content security policy that forbids scripts unless the path is one of the three of the
  interactive documentation, for which the middleware sets none even when they are not served.
\<close>

theorem not_found_page_safe:
  assumes "wants_html r" "is_unmatched_route e" "x_headers e = []"
  shows "\<exists>before after shown. (\<forall>r'. not_found_html (wr_path r') = before @ utf8 (escape (wr_path r')) @ after)
    \<and> wp_body (respond_through uuid r (http_exception_handler r e)) = Html (before @ utf8 shown @ after)
    \<and> set (utf8 shown) \<inter> {CHR ''<'', CHR ''>'', CHR 0x22, CHR 0x27} = {} \<and> unescape_html shown = wr_path r
    \<and> header (wp_headers (respond_through uuid r (http_exception_handler r e))) ''content-security-policy''
      = (if wr_path r \<in> {''/docs'', ''/redoc'', ''/docs/oauth2-redirect''} then []
         else ''default-src '' @ repr_str ''none'' @ ''; style-src '' @ repr_str ''unsafe-inline'' @ ''; frame-ancestors '' @ repr_str ''none'')"
proof -
  let ?b = "page_lines (page_head (''Not Found '' @ EM_DASH @ '' '' @ SERVICE_NAME) @ [''  <h1>Not Found</h1>'']) @ ''  <p>No route for <code>''"
  let ?a = "''</code>.</p>'' @ [CHR 0x0A] @ page_lines [discovery_link (escape DISCOVERY_PATH), ''</body>'', ''</html>'']"
  have page: "not_found_html p = ?b @ utf8 (escape p) @ ?a" for p
    by (simp add: not_found_html_def page_lines_def)
  have "wp_body (respond_through uuid r (http_exception_handler r e)) = Html (?b @ utf8 (escape (wr_path r)) @ ?a)"
    using assms by (simp add: respond_through_def security_headers_def request_id_def Let_def http_exception_handler_def make_response_def page)
  moreover have "contains ''text/html; charset=utf-8'' ''text/html''" by code_simp
  then have "header (wp_headers (respond_through uuid r (http_exception_handler r e))) ''content-security-policy''
      = (if wr_path r \<in> set DOCS_HTML_PATHS then [] else CSP)"
    using assms by (simp add: respond_through_def security_headers_def request_id_def Let_def http_exception_handler_def make_response_def
        header_def [of "[_]"] content_type_of_def)
  ultimately show ?thesis
    using page utf8_escape_safe [of "wr_path r"] unescape_escape [of "wr_path r"]
    by (intro exI [of _ ?b] exI [of _ ?a] exI [of _ "escape (wr_path r)"]) (simp add: DOCS_HTML_PATHS_def CSP_def)
qed

definition hostile_request :: web_request where
  "hostile_request = \<lparr>wr_path = ''/<script>'', wr_headers = [(''accept'', ''text/html'')]\<rparr>"

theorem not_found_page_safe_witness:
  "\<exists>before after shown. wp_body (respond_through ''0123456789'' hostile_request (http_exception_handler hostile_request
       \<lparr>x_status = 404, x_detail = JStr ''Not Found'', x_headers = []\<rparr>)) = Html (before @ utf8 shown @ after)
     \<and> CHR ''<'' \<notin> set (utf8 shown) \<and> unescape_html shown = ''/<script>''"
proof -
  have "wants_html hostile_request" by code_simp
  from not_found_page_safe [OF this, of "\<lparr>x_status = 404, x_detail = JStr ''Not Found'', x_headers = []\<rparr>" "''0123456789''"]
  show ?thesis by (auto simp: is_unmatched_route_def hostile_request_def)
qed

end
