(* ===== verification/Webhook.thy ===== *)
theory Webhook
  imports Stream_Api Mapper
begin

text \<open>
  \<^verbatim>\<open>app/routes/webhook.py\<close>: reception of an Authentik webhook. A request carries its headers and
  the chunks of its body; bytes are characters below 256. HMAC-SHA256 (\<^verbatim>\<open>hmac\<close>, \<^verbatim>\<open>hashlib\<close>) and the
  decoding of the body's bytes to text inside \<^verbatim>\<open>json.loads\<close> are parameters: no law about them is
  assumed. Log lines are left out; no branch depends on them.
\<close>

type_synonym bytes = string

record webhook_lib =
  hmac_sha256 :: "pystr \<Rightarrow> bytes \<Rightarrow> pystr"    \<comment> \<open>key, message; hexadecimal digest\<close>
  decode_body :: "bytes \<Rightarrow> pystr option"        \<comment> \<open>\<open>None\<close>: \<^verbatim>\<open>UnicodeDecodeError\<close>\<close>

record webhook_request =
  q_content_length :: "pystr option"
  q_authorization :: "pystr option"
  q_signature :: "pystr option"
  q_chunks :: "bytes list"

definition MAX_BODY_BYTES :: nat where
  "MAX_BODY_BYTES = 64 * 1024"

section \<open>Authentication\<close>

definition verify_bearer_token :: "settings \<Rightarrow> pystr option \<Rightarrow> bool" where
  "verify_bearer_token cfg authorization =
     (case nonempty authorization of
        None \<Rightarrow> False
      | Some h \<Rightarrow>
         (let (scheme, token) = partition_at (CHR '' '') h in
          if lower scheme \<noteq> ''bearer'' \<or> token = [] then False
          else case nonempty (ssf_webhook_token cfg) of
            None \<Rightarrow> False
          | Some expected \<Rightarrow> token = expected))"

definition is_ascii :: "pystr \<Rightarrow> bool" where
  "is_ascii s = list_all (\<lambda>c. (of_char c :: nat) < 128) s"

text \<open>\<^verbatim>\<open>hmac.compare_digest\<close> on two strings: \<open>None\<close> is its \<^verbatim>\<open>TypeError\<close> for a string that is not ASCII.\<close>

definition compare_digest :: "pystr \<Rightarrow> pystr \<Rightarrow> bool option" where
  "compare_digest a b = (if is_ascii a \<and> is_ascii b then Some (a = b) else None)"

definition verify_hmac_signature :: "webhook_lib \<Rightarrow> settings \<Rightarrow> bytes \<Rightarrow> pystr option \<Rightarrow> bool option" where
  "verify_hmac_signature wl cfg raw_body signature =
     (case nonempty signature of
        None \<Rightarrow> Some False
      | Some s \<Rightarrow>
          if \<not> startswith s ''sha256='' then Some False
          else compare_digest (hmac_sha256 wl (ssf_webhook_secret cfg) raw_body) (removeprefix s ''sha256=''))"

definition pii_key :: "settings \<Rightarrow> pystr" where
  "pii_key cfg = (if pii_pepper cfg \<noteq> [] then pii_pepper cfg else ssf_management_token cfg)"

text \<open>The response to give instead of going on, or \<open>None\<close>.\<close>

definition authenticate_webhook :: "webhook_lib \<Rightarrow> settings \<Rightarrow> webhook_request \<Rightarrow> bytes \<Rightarrow> response option" where
  "authenticate_webhook wl cfg q raw_body =
     (let mode = ssf_webhook_auth_mode cfg in
      if mode = ''bearer'' then
        (if \<not> verify_bearer_token cfg (q_authorization q) then Some (HttpError 401 ''Unauthorized'') else None)
      else if mode = ''hmac'' then
        (case verify_hmac_signature wl cfg raw_body (q_signature q) of
           None \<Rightarrow> Some Crash
         | Some False \<Rightarrow> Some (HttpError 401 ''Unauthorized'')
         | Some True \<Rightarrow> None)
      else if mode = ''unsigned'' then None
      else Some (HttpError 500 ''Invalid webhook auth configuration''))"

section \<open>Body\<close>

fun read_chunks :: "nat \<Rightarrow> bytes list \<Rightarrow> bytes list \<Rightarrow> bytes option" where
  "read_chunks n chunks [] = Some (concat chunks)"
| "read_chunks n chunks (c # cs) =
     (let n' = n + length c in
      if n' > MAX_BODY_BYTES then None else read_chunks n' (chunks @ [c]) cs)"

definition read_body_within_limit :: "webhook_request \<Rightarrow> bytes option" where
  "read_body_within_limit q =
     (let declared_oversized =
        (case q_content_length q of
           None \<Rightarrow> False
         | Some n \<Rightarrow> (case int_of_str n of None \<Rightarrow> False | Some i \<Rightarrow> i > int MAX_BODY_BYTES))
      in if declared_oversized then None else read_chunks 0 [] (q_chunks q))"

definition parse_webhook_json :: "webhook_lib \<Rightarrow> bytes \<Rightarrow> pydict option" where
  "parse_webhook_json wl raw_body =
     (case decode_body wl raw_body of
        None \<Rightarrow> None
      | Some text \<Rightarrow> (case json_loads text of Some (JObj payload) \<Rightarrow> Some payload | _ \<Rightarrow> None))"

section \<open>The handler\<close>

definition ignored :: "pystr \<Rightarrow> response" where
  "ignored reason = Resp 200 (JObj [(''status'', JStr ''ignored''), (''reason'', JStr reason)])"

definition accepted :: "nat \<Rightarrow> response" where
  "accepted queued = Resp 200 (JObj [(''status'', JStr ''accepted''), (''queued'', JInt (int queued))])"

definition queue_response :: "enqueue_error \<Rightarrow> response" where
  "queue_response e =
     (case e of
        QueueError OutboxFull \<Rightarrow> HttpError 503 ''Delivery queue is full; retry the webhook later''
      | QueueError StreamGone \<Rightarrow>
          HttpError 503 ''Stream configuration changed before delivery could be queued; retry the webhook''
      | QueueError StreamChanged \<Rightarrow>
          HttpError 503 ''Stream configuration changed before delivery could be queued; retry the webhook''
      | _ \<Rightarrow> Crash)"

text \<open>The part after parsing; the tables may change between reading the streams and queueing.\<close>

definition dispatch_events :: "service \<Rightarrow> call \<Rightarrow> pydict \<Rightarrow> world \<Rightarrow> response \<times> world" where
  "dispatch_events sv c payload w =
     (let events = map_authentik_event (c_now c) payload in
      if events = [] then (ignored ''unmapped_event'', w)
      else case extract_email payload of
        None \<Rightarrow> (ignored ''missing_email'', w)
      | Some email \<Rightarrow>
         (case list_streams (sv_lib sv) (sv_cfg sv) (w_db w) of
            Inl _ \<Rightarrow> (Crash, w)
          | Inr sts \<Rightarrow>
             (let enabled_streams = filter (\<lambda>st. status st = ''enabled'') sts;
                  w1 = w\<lparr>w_db := c_others c (w_db w)\<rparr>
              in if enabled_streams = [] then (ignored ''no_enabled_stream'', w)
                 else case enqueue_events (sv_lib sv) (sv_cfg sv) (sv_keys sv) (c_fresh c) (c_now c) (c_nonce c)
                         enabled_streams events email (w_db w1) of
                   Inl e \<Rightarrow> (queue_response e, w1)
                 | Inr (queued, d) \<Rightarrow> (accepted queued, w1\<lparr>w_db := d\<rparr>))))"

definition authentik_webhook :: "webhook_lib \<Rightarrow> service \<Rightarrow> call \<Rightarrow> webhook_request \<Rightarrow> world \<Rightarrow> response \<times> world" where
  "authentik_webhook wl sv c q w =
     (case read_body_within_limit q of
        None \<Rightarrow> (HttpError 413 ''Request body too large'', w)
      | Some raw_body \<Rightarrow>
         (case authenticate_webhook wl (sv_cfg sv) q raw_body of
            Some r \<Rightarrow> (r, w)
          | None \<Rightarrow>
             (case parse_webhook_json wl raw_body of
                None \<Rightarrow> (HttpError 400 ''Invalid JSON body'', w)
              | Some payload \<Rightarrow> dispatch_events sv c payload w)))"

section \<open>Lemmas\<close>

text \<open>The body is read whole or refused, by its real size.\<close>

lemma read_chunks_iff:
  "n \<le> MAX_BODY_BYTES \<Longrightarrow> read_chunks n chunks cs =
     (if n + length (concat cs) \<le> MAX_BODY_BYTES then Some (concat chunks @ concat cs) else None)"
  by (induction n chunks cs rule: read_chunks.induct) (auto simp: Let_def)

lemma read_body_Some:
  "read_body_within_limit q = Some raw \<Longrightarrow> raw = concat (q_chunks q) \<and> length raw \<le> MAX_BODY_BYTES"
  by (auto simp: read_body_within_limit_def read_chunks_iff Let_def split: if_splits)

text \<open>
  What it takes to be let in, per authentication mode. The mode \<^verbatim>\<open>unsigned\<close> is the operator's choice to do
  without authentication, documented for development only; any other mode lets nothing in.
\<close>

definition webhook_authentic :: "webhook_lib \<Rightarrow> settings \<Rightarrow> webhook_request \<Rightarrow> bytes \<Rightarrow> bool" where
  "webhook_authentic wl cfg q raw \<longleftrightarrow>
     ssf_webhook_auth_mode cfg = ''bearer''
       \<and> (\<exists>scheme token. q_authorization q = Some (scheme @ '' '' @ token) \<and> lower scheme = ''bearer''
            \<and> ssf_webhook_token cfg = Some token \<and> token \<noteq> [])
     \<or> ssf_webhook_auth_mode cfg = ''hmac''
       \<and> q_signature q = Some (''sha256='' @ hmac_sha256 wl (ssf_webhook_secret cfg) raw)
       \<and> is_ascii (hmac_sha256 wl (ssf_webhook_secret cfg) raw)
     \<or> ssf_webhook_auth_mode cfg = ''unsigned''"

lemma partition_at_eq:
  assumes "partition_at c s = (a, b)" "b \<noteq> []"
  shows "s = a @ c # b"
proof -
  have "s = takeWhile (\<lambda>x. x \<noteq> c) s @ dropWhile (\<lambda>x. x \<noteq> c) s" by simp
  moreover have "dropWhile (\<lambda>x. x \<noteq> c) s \<noteq> []" using assms unfolding partition_at_def by (metis list.sel(2) prod.inject)
  moreover from this have "hd (dropWhile (\<lambda>x. x \<noteq> c) s) = c" by (metis (mono_tags, lifting) hd_dropWhile)
  ultimately show ?thesis using assms(1) unfolding partition_at_def by (metis list.collapse prod.inject)
qed

lemma verify_bearer_tokenD:
  assumes "verify_bearer_token cfg auth"
  shows "\<exists>scheme token. auth = Some (scheme @ '' '' @ token) \<and> lower scheme = ''bearer''
    \<and> ssf_webhook_token cfg = Some token \<and> token \<noteq> []"
proof -
  from assms obtain h where h: "nonempty auth = Some h"
    by (cases "nonempty auth") (auto simp: verify_bearer_token_def)
  obtain a b where p: "partition_at (CHR '' '') h = (a, b)" by fastforce
  have "lower a = ''bearer'' \<and> b \<noteq> [] \<and> nonempty (ssf_webhook_token cfg) = Some b"
    using assms by (auto simp: verify_bearer_token_def h p split: option.splits if_splits)
  then show ?thesis using h partition_at_eq [OF p] by (auto simp: nonempty_Some)
qed

lemma verify_hmac_signatureD:
  assumes "verify_hmac_signature wl cfg raw sig = Some True"
  shows "sig = Some (''sha256='' @ hmac_sha256 wl (ssf_webhook_secret cfg) raw) \<and> is_ascii (hmac_sha256 wl (ssf_webhook_secret cfg) raw)"
proof -
  from assms obtain s where s: "nonempty sig = Some s" by (cases "nonempty sig") (auto simp: verify_hmac_signature_def)
  with assms have st: "startswith s ''sha256=''"
    and c: "compare_digest (hmac_sha256 wl (ssf_webhook_secret cfg) raw) (removeprefix s ''sha256='') = Some True"
    by (auto simp: verify_hmac_signature_def split: if_splits)
  from st obtain t where t: "s = ''sha256='' @ t" unfolding startswith_iff by blast
  have "removeprefix s ''sha256='' = t" by (simp only: t removeprefix_append)
  with c s t show ?thesis by (simp add: compare_digest_def nonempty_Some split: if_splits)
qed

lemma authenticate_webhookD: "authenticate_webhook wl cfg q raw = None \<Longrightarrow> webhook_authentic wl cfg q raw"
  using verify_bearer_tokenD [of cfg "q_authorization q"] verify_hmac_signatureD [of wl cfg raw "q_signature q"]
  by (auto simp: authenticate_webhook_def webhook_authentic_def Let_def split: if_splits option.splits bool.splits)

lemma dispatch_sent: "w_sent (snd (dispatch_events sv c payload w)) = w_sent w"
  by (auto simp: dispatch_events_def Let_def split: option.splits sum.splits prod.splits)

text \<open>The handler by its outcomes: refused with nothing done, or dispatched with an authentic body.\<close>

lemma webhook_outcomes:
  assumes "authentik_webhook wl sv c q w = (r, w')"
  obtains (refused) "code_of r \<in> {400, 401, 413, 500}" "w' = w"
  | (dispatched) payload where "parse_webhook_json wl (concat (q_chunks q)) = Some payload"
      "webhook_authentic wl (sv_cfg sv) q (concat (q_chunks q))" "length (concat (q_chunks q)) \<le> MAX_BODY_BYTES"
      "dispatch_events sv c payload w = (r, w')"
proof (cases "read_body_within_limit q")
  case None
  with assms refused show ?thesis by (auto simp: authentik_webhook_def code_of_def)
next
  case (Some raw)
  note body = read_body_Some [OF Some]
  show ?thesis
  proof (cases "authenticate_webhook wl (sv_cfg sv) q raw")
    case None
    then show ?thesis
      using assms Some body refused dispatched authenticate_webhookD [OF None]
      by (cases "parse_webhook_json wl raw") (auto simp: authentik_webhook_def code_of_def)
  next
    case (Some e)
    then have "code_of e \<in> {400, 401, 413, 500}"
      by (auto simp: authenticate_webhook_def Let_def code_of_def split: if_splits option.splits bool.splits)
    then show ?thesis using assms \<open>read_body_within_limit q = Some raw\<close> Some refused by (auto simp: authentik_webhook_def)
  qed
qed

lemma dispatch_accepted:
  assumes "dispatch_events sv c payload w = (accepted k, w')"
  obtains email sts where "extract_email payload = Some email" "map_authentik_event (c_now c) payload \<noteq> []"
    "list_streams (sv_lib sv) (sv_cfg sv) (w_db w) = Inr sts"
    "enqueue_events (sv_lib sv) (sv_cfg sv) (sv_keys sv) (c_fresh c) (c_now c) (c_nonce c)
       (filter (\<lambda>st. status st = ''enabled'') sts) (map_authentik_event (c_now c) payload) email (c_others c (w_db w))
     = Inr (k, w_db w')"
  using assms
  by (auto simp: dispatch_events_def Let_def ignored_def accepted_def queue_response_def
      split: if_splits option.splits sum.splits enqueue_error.splits db_error.splits)

section \<open>Properties\<close>

text \<open>
  C13. The gate of the webhook, per configured mode: unless the body is at most 64 KiB and the request
  is admitted by the mode, the handler answers 400, 401, 413 or 500 and the world is as before. The mode
  \<^verbatim>\<open>bearer\<close> admits the configured nonempty token only; \<^verbatim>\<open>hmac\<close> admits the HMAC of exactly the bytes received
  under the shared secret only; \<^verbatim>\<open>unsigned\<close>, for development, admits every request, as its documentation
  says; no other mode admits anything. No webhook sends a request to the receiver itself.
\<close>

theorem webhook_gate:
  fixes sv q
  defines "mode \<equiv> ssf_webhook_auth_mode (sv_cfg sv)" and "body \<equiv> concat (q_chunks q)"
  assumes "authentik_webhook wl sv c q w = (r, w')"
  shows "w_sent w' = w_sent w
    \<and> ((code_of r \<in> {400, 401, 413, 500} \<and> w' = w)
       \<or> (length body \<le> 65536
          \<and> (if mode = ''bearer''
             then \<exists>scheme token. q_authorization q = Some (scheme @ '' '' @ token) \<and> lower scheme = ''bearer''
                    \<and> ssf_webhook_token (sv_cfg sv) = Some token \<and> token \<noteq> []
             else if mode = ''hmac''
             then q_signature q = Some (''sha256='' @ hmac_sha256 wl (ssf_webhook_secret (sv_cfg sv)) body)
             else mode = ''unsigned'')))"
  using assms(3)
proof (cases rule: webhook_outcomes)
  case (dispatched payload)
  then show ?thesis using dispatch_sent [of sv c payload w]
    by (auto simp: MAX_BODY_BYTES_def mode_def body_def webhook_authentic_def)
qed simp

text \<open>A digest for the witnesses: the key and the length of the message in decimal.\<close>

definition toy_webhook :: webhook_lib where
  "toy_webhook = \<lparr>hmac_sha256 = (\<lambda>k m. k @ nat_str (length m)), decode_body = Some\<rparr>"

definition logout_body :: bytes where
  "logout_body = json_dumps (JObj [(''action'', JStr ''authentik.core.auth.logout''), (''pk'', JStr ''txn-1''),
     (''user'', JObj [(''email'', JStr ''a@b.c'')])])"

definition hmac_service :: service where
  "hmac_service = example_service\<lparr>sv_cfg := example_settings\<lparr>ssf_webhook_auth_mode := ''hmac'', ssf_webhook_secret := ''k''\<rparr>\<rparr>"

definition forged_request :: webhook_request where
  "forged_request = \<lparr>q_content_length = None, q_authorization = None, q_signature = Some ''sha256=00'', q_chunks = [logout_body]\<rparr>"

theorem webhook_gate_witness:
  "authentik_webhook toy_webhook hmac_service example_call forged_request \<lparr>w_db = saved_db, w_sent = []\<rparr>
     = (HttpError 401 ''Unauthorized'', \<lparr>w_db = saved_db, w_sent = []\<rparr>)
   \<and> \<not> webhook_authentic toy_webhook (sv_cfg hmac_service) forged_request (concat (q_chunks forged_request))"
proof -
  obtain r w' where c: "authentik_webhook toy_webhook hmac_service example_call forged_request \<lparr>w_db = saved_db, w_sent = []\<rparr> = (r, w')"
    by fastforce
  have "length logout_body < 150" by code_simp
  then have b: "length logout_body \<le> 65536" by simp
  have n: "\<not> webhook_authentic toy_webhook (sv_cfg hmac_service) forged_request (concat (q_chunks forged_request))"
    by (simp add: webhook_authentic_def hmac_service_def forged_request_def toy_webhook_def)
  have "read_body_within_limit forged_request = Some logout_body"
    using b by (simp add: read_body_within_limit_def forged_request_def MAX_BODY_BYTES_def Let_def)
  moreover have "authenticate_webhook toy_webhook (sv_cfg hmac_service) forged_request logout_body
      = Some (HttpError 401 ''Unauthorized'')"
    by (simp add: forged_request_def hmac_service_def) code_simp
  ultimately have "authentik_webhook toy_webhook hmac_service example_call forged_request \<lparr>w_db = saved_db, w_sent = []\<rparr>
      = (HttpError 401 ''Unauthorized'', \<lparr>w_db = saved_db, w_sent = []\<rparr>)"
    by (simp add: authentik_webhook_def)
  with n webhook_gate [OF c] c show ?thesis by simp
qed

text \<open>
  C7. An accepted webhook is a durable promise: the count it reports is the number of rows appended
  to the queue as it then was, one per wanted pair of enabled stream and mapped event, and each row
  holds a token for the user's address that delivery will push as long as the stream is unchanged.
\<close>

theorem webhook_accepted_durable:
  assumes "authentik_webhook wl sv c q w = (accepted k, w')" "fernet_laws (sv_lib sv)"
    and "\<forall>sts. list_streams (sv_lib sv) (sv_cfg sv) (w_db w) = Inr sts \<longrightarrow>
           (\<forall>st \<in> set sts. list_all is_str (events_requested st))"
  shows "\<exists>payload email sts rows.
      parse_webhook_json wl (concat (q_chunks q)) = Some payload \<and> extract_email payload = Some email
    \<and> list_streams (sv_lib sv) (sv_cfg sv) (w_db w) = Inr sts
    \<and> outbox (w_db w') = outbox (c_others c (w_db w)) @ rows \<and> length rows = k
    \<and> list_all2 (\<lambda>(st, e) r. \<exists>m tok. sign_mapped (sv_lib sv) (sv_cfg sv) (sv_keys sv) (c_fresh c m) st e email = Inr tok
         \<and> get_stream_by_id (sv_lib sv) (sv_cfg sv) (o_stream_id r) (w_db w') = Inr (Some st) \<and> due (c_now c) r \<and> o_attempts r = 0
         \<and> deliverable (sv_lib sv) (sv_cfg sv) st tok r)
        (wanted_pairs (filter (\<lambda>st. status st = ''enabled'') sts) (map_authentik_event (c_now c) payload)) rows"
  using assms(1)
proof (cases rule: webhook_outcomes)
  case refused
  then show ?thesis by (simp add: accepted_def code_of_def)
next
  case (dispatched payload)
  from dispatch_accepted [OF dispatched(4)] obtain email sts where e: "extract_email payload = Some email"
    "list_streams (sv_lib sv) (sv_cfg sv) (w_db w) = Inr sts"
    and q: "enqueue_events (sv_lib sv) (sv_cfg sv) (sv_keys sv) (c_fresh c) (c_now c) (c_nonce c)
       (filter (\<lambda>st. status st = ''enabled'') sts) (map_authentik_event (c_now c) payload) email (c_others c (w_db w))
     = Inr (k, w_db w')" by blast
  have "\<forall>st \<in> set (filter (\<lambda>st. status st = ''enabled'') sts). list_all is_str (events_requested st)"
    using assms(3) e(2) by auto
  from enqueue_events_rows [OF assms(2) this q] obtain rows where
    "k = length (wanted_pairs (filter (\<lambda>st. status st = ''enabled'') sts) (map_authentik_event (c_now c) payload))"
    "outbox (w_db w') = outbox (c_others c (w_db w)) @ rows"
    "list_all2 (\<lambda>(st, e) r. \<exists>m tok. sign_mapped (sv_lib sv) (sv_cfg sv) (sv_keys sv) (c_fresh c m) st e email = Inr tok
         \<and> get_stream_by_id (sv_lib sv) (sv_cfg sv) (o_stream_id r) (w_db w') = Inr (Some st) \<and> due (c_now c) r \<and> o_attempts r = 0
         \<and> deliverable (sv_lib sv) (sv_cfg sv) st tok r)
        (wanted_pairs (filter (\<lambda>st. status st = ''enabled'') sts) (map_authentik_event (c_now c) payload)) rows"
    by blast
  with dispatched(1) e list_all2_lengthD [OF this(3)] show ?thesis
    by (intro exI [of _ payload] exI [of _ email] exI [of _ sts] exI [of _ rows] conjI) simp_all
qed

definition bearer_request :: webhook_request where
  "bearer_request = \<lparr>q_content_length = Some ''111'', q_authorization = Some ''bearer fedcba9876543210fedcba9876543210'',
     q_signature = None, q_chunks = [logout_body]\<rparr>"

definition webhook_call :: call where
  "webhook_call = example_call\<lparr>c_now := 200, c_nonce := 1\<rparr>"

lemma list_saved: "list_streams toy_lib example_settings saved_db = Inr [example_stream]"
  using row_to_stream_stored [OF toy_lib_laws storable_example]
  by (simp add: saved_db_def list_streams_def ordered_streams_def save_stream_def)

lemma example_webhook:
  "authentik_webhook toy_webhook example_service webhook_call bearer_request \<lparr>w_db = saved_db, w_sent = []\<rparr>
     = (accepted 1, \<lparr>w_db = pushed_db, w_sent = []\<rparr>)"
proof -
  have "length logout_body < 150" by code_simp
  moreover have "int_of_str ''111'' = Some 111" by code_simp
  ultimately have "read_body_within_limit bearer_request = Some logout_body"
    by (simp add: read_body_within_limit_def bearer_request_def MAX_BODY_BYTES_def Let_def)
  moreover have "authenticate_webhook toy_webhook example_settings bearer_request logout_body = None"
    unfolding bearer_request_def by code_simp
  moreover obtain payload where p: "parse_webhook_json toy_webhook logout_body = Some payload"
    "map_authentik_event 200 payload = [example_event]" "extract_email payload = Some ''a@b.c''"
  proof
    show "parse_webhook_json toy_webhook logout_body = Some [(''action'', JStr ''authentik.core.auth.logout''),
        (''pk'', JStr ''txn-1''), (''user'', JObj [(''email'', JStr ''a@b.c'')])]" by code_simp
    show "map_authentik_event 200 [(''action'', JStr ''authentik.core.auth.logout''),
        (''pk'', JStr ''txn-1''), (''user'', JObj [(''email'', JStr ''a@b.c'')])] = [example_event]" by code_simp
    show "extract_email [(''action'', JStr ''authentik.core.auth.logout''),
        (''pk'', JStr ''txn-1''), (''user'', JObj [(''email'', JStr ''a@b.c'')])] = Some ''a@b.c''" by code_simp
  qed
  moreover have "status example_stream = ''enabled''" by (simp add: example_stream_def)
  ultimately show ?thesis
    using example_enqueue_events list_saved
    by (simp add: authentik_webhook_def dispatch_events_def example_service_def webhook_call_def example_call_def Let_def)
qed

theorem webhook_accepted_durable_witness:
  "\<exists>rows. outbox pushed_db = outbox saved_db @ rows \<and> length rows = 1"
  using webhook_accepted_durable [OF example_webhook] toy_lib_laws list_saved example_stream_strings
  by (auto simp: example_service_def webhook_call_def example_call_def)

text \<open>A signature header with a character outside ASCII is answered 500, not 401: the comparison of the digests raises.\<close>

lemma hmac_non_ascii_crashes:
  assumes "ssf_webhook_auth_mode (sv_cfg sv) = ''hmac''" "q_signature q = Some (''sha256='' @ s)" "\<not> is_ascii s"
    and "read_body_within_limit q = Some raw"
  shows "authentik_webhook wl sv c q w = (Crash, w)"
  using assms
  by (simp add: authentik_webhook_def authenticate_webhook_def verify_hmac_signature_def nonempty_def compare_digest_def
      startswith_def removeprefix_def)

end
