(* ===== verification/Scim_Source.thy ===== *)
theory Scim_Source
  imports Scim_Client
begin

text \<open>
  \<^verbatim>\<open>app/scim/authentik.py\<close>: the users of the identity provider, read page by page and mapped to SCIM.
  The provider is a parameter that answers an address from the addresses requested before, for a
  given \<^verbatim>\<open>Authorization\<close> header. The pages are followed as long as the provider names a next one; a
  provider that always does keeps the loop from returning, which is the value \<open>None\<close>.
\<close>

section \<open>Mapping\<close>

text \<open>\<^verbatim>\<open>u.get(k) or ""\<close>, used as a string.\<close>

definition str_field :: "pydict \<Rightarrow> pystr \<Rightarrow> scim_error + pystr" where
  "str_field u k = (case py_or (dget u k) (JStr []) of JStr s \<Rightarrow> Inr s | _ \<Rightarrow> Inl ScimCrash)"

definition login_field :: "pydict \<Rightarrow> scim_error + pystr" where
  "login_field u = (case py_or (dget u ''email'') (dget_or u ''username'' (JStr [])) of JStr s \<Rightarrow> Inr s | _ \<Rightarrow> Inl ScimCrash)"

definition map_to_scim :: "pydict \<Rightarrow> scim_error + pydict" where
  "map_to_scim user =
     ebind (str_field user ''name'') (\<lambda>full_name.
     ebind (if has_key user ''pk'' then Inr (py_str (dget user ''pk'')) else Inl ScimCrash) (\<lambda>pk.
     ebind (login_field user) (\<lambda>login.
     ebind (str_field user ''email'') (\<lambda>email.
       Inr [(''schemas'', JArr [JStr ''urn:ietf:params:scim:schemas:core:2.0:User'']),
            (''externalId'', JStr pk),
            (''userName'', JStr (strip login)),
            (''name'', JObj [(''givenName'', JStr (fst (partition_at CHR '' '' full_name))),
                             (''familyName'', JStr (snd (partition_at CHR '' '' full_name))),
                             (''formatted'', JStr full_name)]),
            (''emails'', JArr [JObj [(''value'', JStr (strip email)), (''primary'', JBool True), (''type'', JStr ''work'')]]),
            (''active'', dget_or user ''is_active'' (JBool True))]))))"

definition filter_user :: "json \<Rightarrow> scim_error + pydict option" where
  "filter_user v =
     (case v of
        JObj u \<Rightarrow>
          if \<not> truthy (dget u ''pk'') then Inr None
          else ebind (str_field u ''email'') (\<lambda>email.
               if strip email = [] then Inr None
               else ebind (str_field u ''name'') (\<lambda>name. ebind (map_to_scim u) (\<lambda>m. Inr (Some m))))
      | _ \<Rightarrow> Inl ScimCrash)"

fun filter_and_map_users :: "json list \<Rightarrow> scim_error + pydict list" where
  "filter_and_map_users [] = Inr []"
| "filter_and_map_users (v # vs) =
     ebind (filter_user v) (\<lambda>m.
     ebind (filter_and_map_users vs) (\<lambda>ms. Inr (case m of None \<Rightarrow> ms | Some x \<Rightarrow> x # ms)))"

section \<open>Reading\<close>

definition build_initial_users_url :: "pystr \<Rightarrow> pystr \<Rightarrow> pystr" where
  "build_initial_users_url base group_id =
     (if group_id \<noteq> []
      then base @ ''/api/v3/core/users/?groups_by_pk='' @ group_id @ ''&type=internal&page_size=500''
      else base @ ''/api/v3/core/users/?type=internal&page_size=500'')"

type_synonym source_net = "pystr list \<Rightarrow> pystr \<Rightarrow> scim_reply"

text \<open>
  What a page adds to the users, \<^verbatim>\<open>all_users.extend(data.get("results", []))\<close>, and the next address.
  Extending by a dictionary or a string adds its keys or characters.
\<close>

definition page_of :: "json \<Rightarrow> (json list \<times> json) option" where
  "page_of data =
     (case data of
        JObj d \<Rightarrow>
          (case dget_or d ''results'' (JArr []) of
             JArr xs \<Rightarrow> Some (xs, dget d ''next'')
           | JObj kvs \<Rightarrow> Some (map (JStr \<circ> fst) kvs, dget d ''next'')
           | JStr s \<Rightarrow> Some (map (\<lambda>c. JStr [c]) s, dget d ''next'')
           | _ \<Rightarrow> None)
      | _ \<Rightarrow> None)"

partial_function (option) fetch_all_users :: "source_net \<Rightarrow> pystr list \<Rightarrow> json \<Rightarrow> json list \<Rightarrow> (scim_error + json list option) option" where
  "fetch_all_users net tr url all_users =
     (if \<not> truthy url then Some (Inr (Some all_users))
      else case url of
        JStr u \<Rightarrow>
          (case net tr u of
             NetError \<Rightarrow> Some (Inr None)
           | Reply st body \<Rightarrow>
               if st \<noteq> 200 then Some (Inr None)
               else case body of
                 None \<Rightarrow> Some (Inr None)
               | Some data \<Rightarrow>
                   (case page_of data of
                      None \<Rightarrow> Some (Inl ScimCrash)
                    | Some (results, nxt) \<Rightarrow> fetch_all_users net (tr @ [u]) nxt (all_users @ results)))
      | _ \<Rightarrow> Some (Inl ScimCrash))"

declare fetch_all_users.simps [code]

definition get_users :: "(pystr \<Rightarrow> source_net) \<Rightarrow> settings \<Rightarrow> (scim_error + pydict list option) option" where
  "get_users net cfg =
     (case (nonempty (authentik_url cfg), nonempty (authentik_token cfg)) of
        (Some url, Some token) \<Rightarrow>
          (let base = rstrip (\<lambda>c. c = CHR ''/'') url;
               group_id = strip (opt_str (apple_scim_group_id cfg));
               first = build_initial_users_url base group_id
           in case fetch_all_users (net (''Bearer '' @ token)) [] (JStr first) [] of
                None \<Rightarrow> None
              | Some (Inl e) \<Rightarrow> Some (Inl e)
              | Some (Inr None) \<Rightarrow> Some (Inr None)
              | Some (Inr (Some all_users)) \<Rightarrow> Some (ebind (filter_and_map_users all_users) (\<lambda>ms. Inr (Some ms))))
      | _ \<Rightarrow> Some (Inr None))"

text \<open>
  The reference, which does not use the code's reading of a page: what the answer of the provider says.
  A page is an object whose member \<^verbatim>\<open>results\<close> is the list of users and whose member \<^verbatim>\<open>next\<close> is the address
  of the next page; the last two cases of \<^verbatim>\<open>results\<close> are what extending a list by it means in Python.
\<close>

definition page_lists :: "json \<Rightarrow> json list \<Rightarrow> json \<Rightarrow> bool" where
  "page_lists data users nxt \<longleftrightarrow>
     (\<exists>members. data = JObj members
        \<and> nxt = (case map_of members ''next'' of Some v \<Rightarrow> v | None \<Rightarrow> JNull)
        \<and> (case map_of members ''results'' of
              None \<Rightarrow> users = []
            | Some v \<Rightarrow> v = JArr users \<or> (\<exists>kvs. v = JObj kvs \<and> users = map (\<lambda>(k, _). JStr k) kvs)
                \<or> (\<exists>t. v = JStr t \<and> users = map (\<lambda>c. JStr [c]) t)))"

lemma page_of_lists: "page_of data = Some (users, nxt) \<longleftrightarrow> page_lists data users nxt"
  by (auto simp: page_of_def page_lists_def dget_or_def dget_def case_prod_beta comp_def split: json.splits option.splits)

text \<open>A chain of answered pages from an address to the last one, each the reply to its address after the ones before it.\<close>

fun chain :: "source_net \<Rightarrow> pystr list \<Rightarrow> json \<Rightarrow> json list list \<Rightarrow> bool" where
  "chain net tr url [] = (\<not> truthy url)"
| "chain net tr url (r # rs) =
     (\<exists>u data nxt. url = JStr u \<and> u \<noteq> [] \<and> net tr u = Reply 200 (Some data) \<and> page_lists data r nxt
        \<and> chain net (tr @ [u]) nxt rs)"

lemma fetch_chain: "chain net tr url rs \<Longrightarrow> fetch_all_users net tr url us = Some (Inr (Some (us @ concat rs)))"
proof (induction rs arbitrary: tr url us)
  case Nil
  then show ?case by (simp add: fetch_all_users.simps)
next
  case (Cons r rs)
  then obtain u data nxt where "url = JStr u" "u \<noteq> []" "net tr u = Reply 200 (Some data)" "page_of data = Some (r, nxt)"
    "chain net (tr @ [u]) nxt rs" by (auto simp: page_of_lists)
  with Cons.IH [of "tr @ [u]" nxt "us @ r"] show ?case by (simp add: fetch_all_users.simps [of net tr "JStr u"])
qed

lemma chain_end: "\<not> truthy url \<Longrightarrow> \<exists>rs. chain net tr url rs \<and> us = us @ concat rs"
  by (rule exI [of _ "[]"]) simp

lemma chain_step:
  assumes "\<exists>rs. chain net (tr @ [u]) nxt rs \<and> xs = (us @ r) @ concat rs"
    and "u \<noteq> []" "net tr u = Reply 200 (Some data)" "page_of data = Some (r, nxt)"
  shows "\<exists>rs. chain net tr (JStr u) rs \<and> xs = us @ concat rs"
proof -
  from assms(1) obtain rs where "chain net (tr @ [u]) nxt rs" "xs = (us @ r) @ concat rs" by blast
  with assms(2-) show ?thesis by (intro exI [of _ "r # rs"]) (auto simp: page_of_lists)
qed

lemma fetch_only_chain:
  assumes "fetch_all_users net tr url us = Some (Inr (Some xs))"
  shows "\<exists>rs. chain net tr url rs \<and> xs = us @ concat rs"
proof -
  have "\<forall>xs. r = Inr (Some xs) \<longrightarrow> (\<exists>rs. chain net tr url rs \<and> xs = us @ concat rs)"
    if "fetch_all_users net tr url us = Some r" for r
    using that
  proof (rule fetch_all_users.raw_induct [rotated])
    fix f :: "source_net \<Rightarrow> pystr list \<Rightarrow> json \<Rightarrow> json list \<Rightarrow> (scim_error + json list option) option" and net tr url us r
    assume IH: "\<And>net tr url us r. f net tr url us = Some r \<Longrightarrow>
        \<forall>xs. r = Inr (Some xs) \<longrightarrow> (\<exists>rs. chain net tr url rs \<and> xs = us @ concat rs)"
    assume "(if \<not> truthy url then Some (Inr (Some us))
      else case url of
        JStr u \<Rightarrow>
          (case net tr u of
             NetError \<Rightarrow> Some (Inr None)
           | Reply st body \<Rightarrow>
               if st \<noteq> 200 then Some (Inr None)
               else case body of
                 None \<Rightarrow> Some (Inr None)
               | Some data \<Rightarrow>
                   (case page_of data of
                      None \<Rightarrow> Some (Inl ScimCrash)
                    | Some (results, nxt) \<Rightarrow> f net (tr @ [u]) nxt (us @ results)))
      | _ \<Rightarrow> Some (Inl ScimCrash)) = Some r"
    then show "\<forall>xs. r = Inr (Some xs) \<longrightarrow> (\<exists>rs. chain net tr url rs \<and> xs = us @ concat rs)"
      by (auto split: if_splits json.splits scim_reply.splits option.splits
          intro: chain_end dest!: IH intro!: chain_step)
  qed
  with assms show ?thesis by blast
qed

section \<open>Faithful mapping\<close>

definition eligible :: "pydict \<Rightarrow> bool" where
  "eligible u \<longleftrightarrow> truthy (dget u ''pk'') \<and> str_or_empty (dget u ''email'') \<noteq> []"

text \<open>What a SCIM user says of the Authentik user it was made from.\<close>

definition represents :: "pydict \<Rightarrow> pydict \<Rightarrow> bool" where
  "represents u m \<longleftrightarrow>
     dget m ''externalId'' = JStr (py_str (dget u ''pk''))
     \<and> dget m ''userName'' = JStr (str_or_empty (dget u ''email''))
     \<and> dget m ''emails'' = JArr [JObj [(''value'', JStr (str_or_empty (dget u ''email''))), (''primary'', JBool True), (''type'', JStr ''work'')]]
     \<and> dget m ''active'' = dget_or u ''is_active'' (JBool True)
     \<and> (\<exists>given family formatted. dget m ''name'' = JObj [(''givenName'', JStr given), (''familyName'', JStr family), (''formatted'', JStr formatted)]
          \<and> formatted = py_str (py_or (dget u ''name'') (JStr []))
          \<and> CHR '' '' \<notin> set given
          \<and> (if CHR '' '' \<in> set formatted then formatted = given @ CHR '' '' # family else formatted = given \<and> family = []))"

lemma partition_join:
  "partition_at c s = (a, b) \<Longrightarrow> c \<notin> set a \<and> (if c \<in> set s then s = a @ c # b else s = a \<and> b = [])"
  by (induction s arbitrary: a) (auto simp: partition_at_def split: if_splits)

lemma str_field_ok: "str_field u k = Inr s \<longleftrightarrow> py_or (dget u k) (JStr []) = JStr s"
  by (auto simp: str_field_def split: json.splits)

lemma str_field_strip: "str_field u k = Inr s \<Longrightarrow> strip s = str_or_empty (dget u k)"
  by (simp add: str_field_ok str_or_empty_def)

lemma login_is_email: "str_field u ''email'' = Inr s \<Longrightarrow> strip s \<noteq> [] \<Longrightarrow> login_field u = Inr s"
  by (auto simp: str_field_ok login_field_def py_or_def split: if_splits)

lemma map_to_scim_represents:
  assumes "truthy (dget u ''pk'')" "str_field u ''email'' = Inr e" "strip e \<noteq> []" "str_field u ''name'' = Inr n"
  shows "\<exists>m. map_to_scim u = Inr m \<and> represents u m \<and> has_username m"
proof -
  obtain given family where p: "partition_at CHR '' '' n = (given, family)" by fastforce
  have "has_key u ''pk''" using assms(1) by (auto simp: has_key_def dget_def split: option.splits)
  then obtain m where m: "map_to_scim u = Inr m"
    "m = [(''schemas'', JArr [JStr ''urn:ietf:params:scim:schemas:core:2.0:User'']), (''externalId'', JStr (py_str (dget u ''pk''))),
       (''userName'', JStr (strip e)),
       (''name'', JObj [(''givenName'', JStr given), (''familyName'', JStr family), (''formatted'', JStr n)]),
       (''emails'', JArr [JObj [(''value'', JStr (strip e)), (''primary'', JBool True), (''type'', JStr ''work'')]]),
       (''active'', dget_or u ''is_active'' (JBool True))]"
    using assms p login_is_email [OF assms(2,3)] by (simp add: map_to_scim_def)
  have "py_str (py_or (dget u ''name'') (JStr [])) = n" using assms(4) by (simp add: str_field_ok)
  then have "represents u m" "has_username m"
    using partition_join [OF p] assms(3) str_field_strip [OF assms(2)]
    by (simp_all add: m(2) represents_def has_username_def dget_def [of "_ # _"])
  with m(1) show ?thesis by blast
qed

lemma filter_user_spec:
  assumes "filter_user v = Inr r"
  obtains u where "v = JObj u" "\<not> eligible u" "r = None"
  | u m where "v = JObj u" "eligible u" "r = Some m" "represents u m" "has_username m"
proof -
  from assms obtain u where u: "v = JObj u" by (auto simp: filter_user_def split: json.splits)
  show thesis
  proof (cases "eligible u")
    case False
    with assms u that(1) [OF u] show thesis
      by (auto simp: filter_user_def eligible_def ebind_def str_field_strip split: if_splits sum.splits)
  next
    case True
    with assms u obtain e n where e: "str_field u ''email'' = Inr e" "str_field u ''name'' = Inr n" "strip e \<noteq> []"
      "truthy (dget u ''pk'')" "map_option Inr r = Some (map_to_scim u)"
      by (auto simp: filter_user_def eligible_def ebind_def str_field_strip split: if_splits sum.splits)
    with map_to_scim_represents [OF e(4,1,3,2)] that(2) [OF u True] show thesis by auto
  qed
qed

lemma filter_and_map_spec:
  "filter_and_map_users vs = Inr ms \<Longrightarrow>
     (\<forall>v \<in> set vs. is_dict v) \<and> list_all2 represents (filter eligible (map obj_val vs)) ms \<and> list_all has_username ms"
proof (induction vs arbitrary: ms)
  case (Cons v vs)
  then obtain r ms' where r: "filter_user v = Inr r" "filter_and_map_users vs = Inr ms'"
    "ms = (case r of None \<Rightarrow> ms' | Some x \<Rightarrow> x # ms')"
    by (auto simp: ebind_def split: sum.splits)
  with Cons.IH show ?case by (cases rule: filter_user_spec [OF r(1)]) (auto simp: is_dict_def)
qed simp

lemma get_users_chain:
  assumes "nonempty (authentik_url cfg) = Some url" "nonempty (authentik_token cfg) = Some token"
    and "first = build_initial_users_url (rstrip (\<lambda>c. c = CHR ''/'') url) (strip (opt_str (apple_scim_group_id cfg)))"
  shows "get_users net cfg = Some (Inr (Some ms)) \<longleftrightarrow>
    (\<exists>rs. chain (net (''Bearer '' @ token)) [] (JStr first) rs \<and> filter_and_map_users (concat rs) = Inr ms)"
    (is "?l = ?r")
proof
  assume ?l
  with assms obtain xs where "fetch_all_users (net (''Bearer '' @ token)) [] (JStr first) [] = Some (Inr (Some xs))"
    "filter_and_map_users xs = Inr ms"
    by (auto simp: get_users_def Let_def ebind_def split: option.splits sum.splits)
  with fetch_only_chain show ?r by fastforce
next
  assume ?r
  with assms fetch_chain [where us = "[]"] show ?l by (fastforce simp: get_users_def Let_def)
qed

section \<open>Properties\<close>

text \<open>
  C22. All pages of the directory are read, or none count. The address of the first page is that of the
  users of internal type under the configured base, whatever number of slashes ends it, restricted to
  the configured group when there is one. The provider's users are returned exactly when the pages from
  there, each naming the next, form a chain that ends, each answered with status 200 and JSON, and then
  they are the users of all pages in order. In particular the loop returns for every chain that ends.
\<close>

theorem authentik_pages_followed:
  assumes "authentik_url cfg = Some (base @ replicate n (CHR ''/''))" "base \<noteq> []" "last base \<noteq> CHR ''/''"
    and "authentik_token cfg = Some token" "token \<noteq> []" "gid = strip (opt_str (apple_scim_group_id cfg))"
    and "first = base @ ''/api/v3/core/users/?'' @ (if gid = [] then [] else ''groups_by_pk='' @ gid @ ''&'') @ ''type=internal&page_size=500''"
  shows "get_users net cfg = Some (Inr (Some ms)) \<longleftrightarrow>
    (\<exists>pages. chain (net (''Bearer '' @ token)) [] (JStr first) pages \<and> filter_and_map_users (concat pages) = Inr ms)"
proof (rule get_users_chain)
  show "nonempty (authentik_url cfg) = Some (base @ replicate n (CHR ''/''))" "nonempty (authentik_token cfg) = Some token"
    using assms(1-5) by (simp_all add: nonempty_Some)
  have "rstrip (\<lambda>c. c = CHR ''/'') (base @ replicate n (CHR ''/'')) = base"
  proof -
    have "dropWhile (\<lambda>c. c = CHR ''/'') (replicate n (CHR ''/'') @ xs) = dropWhile (\<lambda>c. c = CHR ''/'') xs" for xs
      by (induction n) simp_all
    moreover have "dropWhile (\<lambda>c. c = CHR ''/'') (rev base) = rev base"
      using assms(2,3) by (simp add: dropWhile_eq_self_iff hd_rev)
    ultimately show ?thesis by (simp add: rstrip_def)
  qed
  then show "first = build_initial_users_url (rstrip (\<lambda>c. c = CHR ''/'') (base @ replicate n (CHR ''/''))) (strip (opt_str (apple_scim_group_id cfg)))"
    using assms(6,7) by (simp add: build_initial_users_url_def)
qed

definition source_settings :: settings where
  "source_settings = example_settings\<lparr>authentik_url := Some ''https://idp'', authentik_token := Some ''t'',
     apple_scim_client_id := Some ''id'', apple_scim_client_secret := Some ''secret''\<rparr>"

definition authentik_user :: "int \<Rightarrow> pystr \<Rightarrow> pystr \<Rightarrow> json" where
  "authentik_user pk name email = JObj [(''pk'', JInt pk), (''name'', JStr name), (''email'', JStr email), (''is_active'', JBool True)]"

definition paged_source :: source_net where
  "paged_source tr url =
     (if tr = [] then Reply 200 (Some (JObj [(''results'', JArr [authentik_user 7 ''Xena Q Amphi'' '' x@e.org'']), (''next'', JStr ''https://idp/2'')]))
      else if tr = [''https://idp/api/v3/core/users/?type=internal&page_size=500''] \<and> url = ''https://idp/2''
      then Reply 200 (Some (JObj [(''results'', JArr [authentik_user 8 ''No Mail'' []]), (''next'', JNull)]))
      else NetError)"

lemma example_chain:
  "chain paged_source [] (JStr ''https://idp/api/v3/core/users/?type=internal&page_size=500'')
     [[authentik_user 7 ''Xena Q Amphi'' '' x@e.org''], [authentik_user 8 ''No Mail'' []]]"
  by (simp add: paged_source_def page_of_lists [symmetric] page_of_def dget_or_def dget_def)

definition mapped_user :: pydict where
  "mapped_user = (case map_to_scim (obj_val (authentik_user 7 ''Xena Q Amphi'' '' x@e.org'')) of Inr m \<Rightarrow> m | Inl _ \<Rightarrow> [])"

lemma example_mapping:
  "filter_and_map_users [authentik_user 7 ''Xena Q Amphi'' '' x@e.org'', authentik_user 8 ''No Mail'' []] = Inr [mapped_user]"
  by code_simp

theorem authentik_pages_followed_witness: "get_users (\<lambda>_. paged_source) source_settings = Some (Inr (Some [mapped_user]))"
proof -
  have u: "authentik_url source_settings = Some (''https://idp'' @ replicate 0 (CHR ''/''))" "''https://idp'' \<noteq> []"
    "last ''https://idp'' \<noteq> CHR ''/''" "authentik_token source_settings = Some ''t''" "''t'' \<noteq> []"
    "[] = strip (opt_str (apple_scim_group_id source_settings))"
    "''https://idp/api/v3/core/users/?type=internal&page_size=500''
       = ''https://idp'' @ ''/api/v3/core/users/?'' @ (if [] = [] then [] else ''groups_by_pk='' @ [] @ ''&'') @ ''type=internal&page_size=500''"
    by code_simp+
  from example_chain example_mapping show ?thesis unfolding authentik_pages_followed [OF u]
    by (intro exI [of _ "[[authentik_user 7 ''Xena Q Amphi'' '' x@e.org''], [authentik_user 8 ''No Mail'' []]]"]) simp
qed

text \<open>
  C23. The mapping to SCIM is faithful: the mapped users are exactly those with an identifier and an
  e-mail address, in order, each with the identifier as externalId, the trimmed address as userName
  and as its only e-mail, the active flag, and the display name split at its first space so that the
  parts make up the whole again. Every mapped user has a userName the synchronisation accepts.
\<close>

theorem mapped_users_faithful:
  assumes "filter_and_map_users vs = Inr ms"
  shows "list_all2 represents (filter eligible (map obj_val vs)) ms \<and> list_all has_username ms"
  using filter_and_map_spec [OF assms] by blast

theorem mapped_users_faithful_witness:
  "list_all2 represents [obj_val (authentik_user 7 ''Xena Q Amphi'' '' x@e.org'')] [mapped_user] \<and> has_username mapped_user"
proof -
  have f: "filter eligible (map obj_val [authentik_user 7 ''Xena Q Amphi'' '' x@e.org'', authentik_user 8 ''No Mail'' []])
     = [obj_val (authentik_user 7 ''Xena Q Amphi'' '' x@e.org'')]" by code_simp
  show ?thesis using mapped_users_faithful [OF example_mapping] unfolding f by simp
qed

end
