(* ===== verification/Scim_Coordination.thy ===== *)
theory Scim_Coordination
  imports Config Complex_Main
begin

text \<open>
  The parts that keep the Apple connection orderly: the coordinator of \<^verbatim>\<open>app/scim/coordination.py\<close>
  as a state machine over tasks of one event loop, the store of pending OAuth states of
  \<^verbatim>\<open>app/routes/apple_scim.py\<close>, and the rate-limited alerts of \<^verbatim>\<open>app/alerts.py\<close>. Times of the
  monotonic clock are exact reals. A task runs without interruption between two awaits.
\<close>

section \<open>Coordinator\<close>

record coordinator =
  busy :: bool
  idle :: bool
  token_lock :: "nat option"

definition new_coordinator :: coordinator where
  "new_coordinator = \<lparr>busy = False, idle = True, token_lock = None\<rparr>"

definition claim :: "coordinator \<Rightarrow> coordinator" where
  "claim c = c\<lparr>busy := True, idle := False\<rparr>"

definition release :: "coordinator \<Rightarrow> coordinator" where
  "release c = c\<lparr>busy := False, idle := True\<rparr>"

text \<open>One round of the loop at the start of \<^verbatim>\<open>operation\<close>.\<close>

datatype entry = AppleScimBusy | AwaitIdle | Entered coordinator

definition try_enter :: "bool \<Rightarrow> coordinator \<Rightarrow> entry" where
  "try_enter wait c = (if busy c then (if \<not> wait then AppleScimBusy else AwaitIdle) else Entered (claim c))"

text \<open>The coordinator of the running event loop; another loop gets a new one.\<close>

definition get_coordinator :: "nat \<Rightarrow> (nat \<times> coordinator) option \<Rightarrow> coordinator \<times> (nat \<times> coordinator) option" where
  "get_coordinator loop store =
     (case store of
        Some (l, c) \<Rightarrow> if l = loop then (c, store) else (new_coordinator, Some (loop, new_coordinator))
      | None \<Rightarrow> (new_coordinator, Some (loop, new_coordinator)))"

text \<open>
  Tasks: outside, suspended in \<^verbatim>\<open>idle.wait()\<close>, woken and about to test again, or inside. The flag \<open>idle\<close>
  is that of an \<^verbatim>\<open>asyncio.Event\<close>: waiting for it suspends only while it is cleared, and only setting
  it when it was cleared wakes those that wait, all of them, also when another task claims the
  connection first. The token lock may be taken by any task that runs; a task gives it back before
  it leaves the operation.
\<close>

datatype phase = Outside | Suspended | Woken | Inside

type_synonym coord_state = "coordinator \<times> (nat \<Rightarrow> phase)"

definition wake :: "phase \<Rightarrow> phase" where
  "wake p = (if p = Suspended then Woken else p)"

definition notified :: "coordinator \<Rightarrow> coordinator \<Rightarrow> (nat \<Rightarrow> phase) \<Rightarrow> nat \<Rightarrow> phase" where
  "notified c c' ph = (if \<not> idle c \<and> idle c' then (\<lambda>t. wake (ph t)) else ph)"

definition waiting_phase :: "coordinator \<Rightarrow> phase" where
  "waiting_phase c = (if idle c then Woken else Suspended)"

inductive coord_step :: "coord_state \<Rightarrow> coord_state \<Rightarrow> bool" where
  enter: "ph t \<in> {Outside, Woken} \<Longrightarrow> try_enter w c = Entered c' \<Longrightarrow> coord_step (c, ph) (c', notified c c' (ph(t := Inside)))"
| refuse: "ph t = Outside \<Longrightarrow> try_enter False c = AppleScimBusy \<Longrightarrow> coord_step (c, ph) (c, ph)"
| await: "ph t \<in> {Outside, Woken} \<Longrightarrow> try_enter True c = AwaitIdle \<Longrightarrow> coord_step (c, ph) (c, ph(t := waiting_phase c))"
| lock: "ph t \<noteq> Suspended \<Longrightarrow> token_lock c = None \<Longrightarrow> coord_step (c, ph) (c\<lparr>token_lock := Some t\<rparr>, ph)"
| unlock: "token_lock c = Some t \<Longrightarrow> coord_step (c, ph) (c\<lparr>token_lock := None\<rparr>, ph)"
| leave: "ph t = Inside \<Longrightarrow> token_lock c \<noteq> Some t \<Longrightarrow> coord_step (c, ph) (release c, notified c (release c) (ph(t := Outside)))"
| cancel: "ph t \<in> {Suspended, Woken} \<Longrightarrow> coord_step (c, ph) (c, ph(t := Outside))"

inductive_cases coord_stepE: "coord_step s s'"

definition coord_start :: "coord_state \<Rightarrow> bool" where
  "coord_start s \<longleftrightarrow> s = (new_coordinator, (\<lambda>_. Outside))"

definition coord_ok :: "coord_state \<Rightarrow> bool" where
  "coord_ok s = (case s of (c, ph) \<Rightarrow>
     idle c = (\<not> busy c) \<and> (busy c \<longleftrightarrow> (\<exists>t. ph t = Inside)) \<and> (\<forall>t t'. ph t = Inside \<and> ph t' = Inside \<longrightarrow> t = t')
     \<and> (\<forall>t. ph t = Suspended \<longrightarrow> busy c))"

lemma inside_upd: "ph t \<noteq> Inside \<Longrightarrow> p \<noteq> Inside \<Longrightarrow> (ph(t := p)) x = Inside \<longleftrightarrow> ph x = Inside"
  by auto

lemma coord_step_ok: "coord_step s s' \<Longrightarrow> coord_ok s \<Longrightarrow> coord_ok s'"
proof (induction rule: coord_step.induct)
  case (enter ph t w c c')
  then show ?case by (auto simp: coord_ok_def try_enter_def claim_def notified_def split: if_splits)
next
  case (await ph t c)
  then have "ph t \<noteq> Inside" "busy c" by (auto simp: try_enter_def split: if_splits)
  with await(3) show ?case by (simp add: coord_ok_def waiting_phase_def inside_upd del: fun_upd_apply)
next
  case (leave ph t c)
  then show ?case by (auto simp: coord_ok_def release_def notified_def wake_def)
next
  case (cancel ph t c)
  then have "ph t \<noteq> Inside" by auto
  with cancel(2) show ?case by (auto simp: coord_ok_def inside_upd simp del: fun_upd_apply) (auto split: if_splits)
qed (auto simp: coord_ok_def)

interpretation coordination: machine coord_start coord_step coord_ok
proof
  show "coord_ok s" if "coord_start s" for s
    using that by (simp add: coord_start_def coord_ok_def new_coordinator_def)
qed (rule coord_step_ok)

section \<open>Pending OAuth states\<close>

definition STATE_TTL_SECONDS :: real where "STATE_TTL_SECONDS = 600"

type_synonym pending_states = "(pystr \<times> real) list"

definition cleanup_expired_states :: "real \<Rightarrow> pending_states \<Rightarrow> pending_states" where
  "cleanup_expired_states now ps = filter (\<lambda>(s, ts). \<not> (now - ts > STATE_TTL_SECONDS)) ps"

definition add_state :: "real \<Rightarrow> pystr \<Rightarrow> pending_states \<Rightarrow> pending_states" where
  "add_state now state ps = AList.update state now (cleanup_expired_states now ps)"

definition consume_state :: "real \<Rightarrow> pystr \<Rightarrow> pending_states \<Rightarrow> bool \<times> pending_states" where
  "consume_state now state ps =
     (let ps' = cleanup_expired_states now ps in
      if map_of ps' state = None then (False, ps') else (True, AList.delete state ps'))"

definition is_valid_state :: "real \<Rightarrow> pystr \<Rightarrow> pending_states \<Rightarrow> bool \<times> pending_states" where
  "is_valid_state now state ps =
     (let ps' = cleanup_expired_states now ps in (map_of ps' state \<noteq> None, ps'))"

text \<open>A history of uses of the store, and the abstract view: when was a state last issued and not consumed since.\<close>

datatype state_event = Issue real pystr | Consume real pystr | Check real pystr

fun event_time :: "state_event \<Rightarrow> real" where
  "event_time (Issue t s) = t"
| "event_time (Consume t s) = t"
| "event_time (Check t s) = t"

fun play :: "state_event \<Rightarrow> pending_states \<Rightarrow> pending_states" where
  "play (Issue t s) ps = add_state t s ps"
| "play (Consume t s) ps = snd (consume_state t s ps)"
| "play (Check t s) ps = snd (is_valid_state t s ps)"

definition store_after :: "state_event list \<Rightarrow> pending_states" where
  "store_after evs = foldl (\<lambda>ps e. play e ps) [] evs"

fun issued_step :: "pystr \<Rightarrow> state_event \<Rightarrow> real option \<Rightarrow> real option" where
  "issued_step s (Issue t s') v = (if s' = s then Some t else v)"
| "issued_step s (Consume t s') v = (if s' = s then None else v)"
| "issued_step s (Check t s') v = v"

definition issued :: "pystr \<Rightarrow> state_event list \<Rightarrow> real option" where
  "issued s evs = foldl (\<lambda>v e. issued_step s e v) None evs"

definition fresh_at :: "real \<Rightarrow> real option \<Rightarrow> bool" where
  "fresh_at now v = (case v of Some t \<Rightarrow> now - t \<le> STATE_TTL_SECONDS | None \<Rightarrow> False)"

lemma map_of_filter_values:
  "distinct (map fst ps) \<Longrightarrow> map_of (filter (\<lambda>(k, v). P v) ps) s = (case map_of ps s of Some v \<Rightarrow> if P v then Some v else None | None \<Rightarrow> None)"
  by (induction ps) (auto split: option.splits simp: map_of_eq_None_iff)

lemma cleanup_lookup:
  "distinct (map fst ps) \<Longrightarrow> map_of (cleanup_expired_states now ps) s = (if fresh_at now (map_of ps s) then map_of ps s else None)"
  using map_of_filter_values [of ps "\<lambda>ts. \<not> (now - ts > STATE_TTL_SECONDS)" s]
  by (auto simp: cleanup_expired_states_def fresh_at_def split: option.splits)

lemma cleanup_distinct: "distinct (map fst ps) \<Longrightarrow> distinct (map fst (cleanup_expired_states now ps))"
  by (simp add: cleanup_expired_states_def distinct_map_filter)

lemma play_distinct: "distinct (map fst ps) \<Longrightarrow> distinct (map fst (play e ps))"
  by (cases e) (auto simp: add_state_def consume_state_def is_valid_state_def Let_def cleanup_distinct distinct_update distinct_delete)

lemma play_lookup:
  "distinct (map fst ps) \<Longrightarrow> map_of (play e ps) s =
     issued_step s e (if fresh_at (event_time e) (map_of ps s) then map_of ps s else None)"
  by (cases e) (auto simp: add_state_def consume_state_def is_valid_state_def Let_def cleanup_lookup cleanup_distinct
      update_conv' delete_conv')

lemma fresh_earlier: "fresh_at now v \<Longrightarrow> t \<le> now \<Longrightarrow> fresh_at t v"
  by (auto simp: fresh_at_def split: option.splits)

text \<open>At any later time the store and the abstract view agree on which states are fresh.\<close>

lemma store_view:
  assumes "sorted (map event_time evs)"
  shows "distinct (map fst (store_after evs)) \<and>
    (\<forall>now s. (\<forall>e \<in> set evs. event_time e \<le> now) \<longrightarrow>
       fresh_at now (map_of (store_after evs) s) = fresh_at now (issued s evs))"
  using assms
proof (induction evs rule: rev_induct)
  case Nil
  then show ?case by (simp add: store_after_def issued_def)
next
  case (snoc e evs)
  then have IH: "distinct (map fst (store_after evs))"
    "\<And>now s. (\<forall>e \<in> set evs. event_time e \<le> now) \<Longrightarrow> fresh_at now (map_of (store_after evs) s) = fresh_at now (issued s evs)"
    by (auto simp: sorted_append)
  have before: "\<forall>x \<in> set evs. event_time x \<le> event_time e" using snoc.prems by (auto simp: sorted_append)
  have st: "store_after (evs @ [e]) = play e (store_after evs)" and i: "\<And>s. issued s (evs @ [e]) = issued_step s e (issued s evs)"
    by (simp_all add: store_after_def issued_def)
  have "fresh_at now (map_of (store_after (evs @ [e])) s) = fresh_at now (issued s (evs @ [e]))"
    if now: "\<forall>x \<in> set (evs @ [e]). event_time x \<le> now" for now s
  proof -
    have n: "event_time e \<le> now" "\<forall>x \<in> set evs. event_time x \<le> now" using now by auto
    have "fresh_at now (if fresh_at (event_time e) (map_of (store_after evs) s) then map_of (store_after evs) s else None)
        = fresh_at now (issued s evs)"
      using IH(2) [OF n(2), of s] fresh_earlier [OF _ n(1), of "map_of (store_after evs) s"]
      by (auto simp: fresh_at_def [of _ None])
    then show ?thesis unfolding st i play_lookup [OF IH(1)] by (cases e) auto
  qed
  then show ?case using play_distinct [OF IH(1)] st by auto
qed

section \<open>Alerts\<close>

definition ALERT_COOLDOWN :: real where "ALERT_COOLDOWN = 3600"

datatype alert_reply = AlertReached int | AlertHttpError | AlertOtherError

record alert_call =
  a_event :: pystr
  a_message :: pystr
  a_severity :: pystr
  a_now :: real
  a_iso :: pystr
  a_reply :: alert_reply

definition alert_payload :: "settings \<Rightarrow> alert_call \<Rightarrow> json" where
  "alert_payload cfg c = JObj [(''event'', JStr (a_event c)), (''severity'', JStr (a_severity c)), (''message'', JStr (a_message c)),
     (''authorize_url'', JStr (public_url cfg ''/apple-scim/authorize'')), (''timestamp'', JStr (a_iso c))]"

text \<open>The request posted, if any, and the times of the last alerts.\<close>

definition send_alert :: "settings \<Rightarrow> alert_call \<Rightarrow> (pystr \<rightharpoonup> real) \<Rightarrow> (pystr \<times> json) option \<times> (pystr \<rightharpoonup> real)" where
  "send_alert cfg c sent =
     (case nonempty (apple_scim_alert_webhook_url cfg) of
        None \<Rightarrow> (None, sent)
      | Some url \<Rightarrow>
          if (case sent (a_event c) of Some prev \<Rightarrow> a_now c - prev < ALERT_COOLDOWN | None \<Rightarrow> False) then (None, sent)
          else (Some (url, alert_payload cfg c),
                case a_reply c of AlertReached st \<Rightarrow> sent(a_event c \<mapsto> a_now c) | _ \<Rightarrow> sent))"

text \<open>The alerts of a run that reached the server, with their times.\<close>

fun alerts_reached :: "settings \<Rightarrow> alert_call list \<Rightarrow> (pystr \<rightharpoonup> real) \<Rightarrow> (pystr \<times> real) list" where
  "alerts_reached cfg [] sent = []"
| "alerts_reached cfg (c # cs) sent =
     (case send_alert cfg c sent of
        (p, sent') \<Rightarrow> (if p \<noteq> None \<and> (\<exists>st. a_reply c = AlertReached st) then [(a_event c, a_now c)] else []) @ alerts_reached cfg cs sent')"

lemma alerts_after:
  assumes "sorted (map a_now cs)" "\<forall>c \<in> set cs. \<forall>t. sent (a_event c) = Some t \<longrightarrow> t \<le> a_now c"
    and "(ev, t) \<in> set (alerts_reached cfg cs sent)" "sent ev = Some t0"
  shows "t - t0 \<ge> ALERT_COOLDOWN"
  using assms
proof (induction cs arbitrary: sent t0)
  case (Cons c cs)
  obtain p sent' where s: "send_alert cfg c sent = (p, sent')" by fastforce
  from s have sent': "sent' = sent \<or> p \<noteq> None \<and> sent' = sent(a_event c \<mapsto> a_now c)"
    and gap: "p \<noteq> None \<Longrightarrow> sent (a_event c) = Some t0 \<Longrightarrow> a_now c - t0 \<ge> ALERT_COOLDOWN" for t0
    by (auto simp: send_alert_def split: option.splits if_splits alert_reply.splits)
  have later: "\<forall>x \<in> set cs. a_now c \<le> a_now x" using Cons.prems(1) by auto
  have inv: "\<forall>x \<in> set cs. \<forall>t. sent' (a_event x) = Some t \<longrightarrow> t \<le> a_now x"
    using sent' later Cons.prems(2) by (auto split: if_splits)
  from Cons.prems(3) s consider "p \<noteq> None" "ev = a_event c" "t = a_now c" | "(ev, t) \<in> set (alerts_reached cfg cs sent')"
    by (auto split: if_splits)
  then show ?case
  proof cases
    case 1
    with gap Cons.prems(4) show ?thesis by simp
  next
    case 2
    show ?thesis
    proof (cases "sent' ev = Some t0")
      case True
      from Cons.IH [OF _ inv 2 this] Cons.prems(1) show ?thesis by simp
    next
      case False
      with sent' Cons.prems(4) have e: "p \<noteq> None" "ev = a_event c" "sent' ev = Some (a_now c)" by (auto split: if_splits)
      from Cons.IH [OF _ inv 2 e(3)] Cons.prems(1) gap [OF e(1)] e(2) Cons.prems(4) show ?thesis by (auto simp: ALERT_COOLDOWN_def)
    qed
  qed
qed simp

lemma alerts_spaced:
  assumes "sorted (map a_now cs)" "\<forall>c \<in> set cs. \<forall>t. sent (a_event c) = Some t \<longrightarrow> t \<le> a_now c"
  shows "sorted_wrt (\<lambda>(e, t) (e', t'). e = e' \<longrightarrow> t' - t \<ge> ALERT_COOLDOWN) (alerts_reached cfg cs sent)"
  using assms
proof (induction cs arbitrary: sent)
  case (Cons c cs)
  obtain p sent' where s: "send_alert cfg c sent = (p, sent')" by fastforce
  then have sent': "sent' = sent \<or> sent' = sent(a_event c \<mapsto> a_now c)"
    and reached: "p \<noteq> None \<Longrightarrow> a_reply c = AlertReached st \<Longrightarrow> sent' (a_event c) = Some (a_now c)" for st
    by (auto simp: send_alert_def split: option.splits if_splits alert_reply.splits)
  have "\<forall>x \<in> set cs. a_now c \<le> a_now x" using Cons.prems(1) by auto
  then have inv: "\<forall>x \<in> set cs. \<forall>t. sent' (a_event x) = Some t \<longrightarrow> t \<le> a_now x"
    using sent' Cons.prems(2) by (auto split: if_splits)
  have tail: "sorted_wrt (\<lambda>(e, t) (e', t'). e = e' \<longrightarrow> t' - t \<ge> ALERT_COOLDOWN) (alerts_reached cfg cs sent')"
    using Cons.IH [OF _ inv] Cons.prems(1) by simp
  show ?case
    using s tail alerts_after [OF _ inv] reached Cons.prems(1) by (auto simp: sorted_wrt_append)
qed simp

section \<open>Properties\<close>

text \<open>The task inside can leave, and a task that waited can then go in.\<close>

lemma leaves_and_enters:
  assumes "ph h = Inside" "ph t = Suspended" "\<not> idle c"
  shows "\<exists>s'. coord_step\<^sup>*\<^sup>* (c, ph) s' \<and> snd s' t = Inside"
proof -
  have "\<exists>c'. coord_step\<^sup>*\<^sup>* (c, ph) (c', ph) \<and> token_lock c' = None \<and> \<not> idle c'"
  proof (cases "token_lock c")
    case (Some k)
    from r_into_rtranclp [of coord_step, OF coord_step.unlock [of c k ph, OF Some]] assms(3) show ?thesis
      by (intro exI [of _ "c\<lparr>token_lock := None\<rparr>"]) simp
  qed (use assms(3) in blast)
  then obtain c' where c': "coord_step\<^sup>*\<^sup>* (c, ph) (c', ph)" "token_lock c' = None" "\<not> idle c'" by blast
  let ?ph = "notified c' (release c') (ph(h := Outside))"
  have "coord_step (c', ph) (release c', ?ph)" using coord_step.leave [of ph h c'] assms(1) c'(2) by simp
  moreover have "coord_step (release c', ?ph) (claim (release c'), notified (release c') (claim (release c')) (?ph(t := Inside)))"
    by (rule coord_step.enter [of _ _ True]) (use assms(1,2) c'(3) in \<open>auto simp: notified_def release_def wake_def try_enter_def\<close>)
  ultimately have "coord_step\<^sup>*\<^sup>* (c, ph) (claim (release c'), notified (release c') (claim (release c')) (?ph(t := Inside)))"
    using c'(1) by (metis (no_types) rtranclp.rtrancl_into_rtrancl)
  moreover have "notified (release c') (claim (release c')) (?ph(t := Inside)) t = Inside"
    by (simp add: notified_def claim_def)
  ultimately show ?thesis by (metis snd_conv)
qed

text \<open>
  C14. At most one synchronisation or authorisation uses the Apple connection, whatever tasks enter,
  wait, are cancelled or leave: two tasks inside are the same task, a caller that does not wait is
  refused exactly while a task is inside, and the event that the others wait for is set exactly while
  none is. No wake-up is lost: a task is never asleep while the connection is free, whoever leaves,
  and a task that waits can always get in after the one inside.
\<close>

theorem coordinator_exclusive:
  assumes "coord_step\<^sup>*\<^sup>* (new_coordinator, \<lambda>_. Outside) (c, ph)"
  shows "(\<forall>t t'. ph t = Inside \<longrightarrow> ph t' = Inside \<longrightarrow> t = t')
    \<and> (try_enter False c = AppleScimBusy \<longleftrightarrow> (\<exists>t. ph t = Inside))
    \<and> (idle c \<longleftrightarrow> (\<nexists>t. ph t = Inside))
    \<and> (\<forall>t. ph t = Suspended \<longrightarrow> (\<exists>h. ph h = Inside) \<and> (\<exists>s'. coord_step\<^sup>*\<^sup>* (c, ph) s' \<and> snd s' t = Inside))"
proof -
  have ok: "coord_ok (c, ph)" by (rule coordination.reachable_inv [OF _ assms]) (simp add: coord_start_def)
  have "(\<exists>h. ph h = Inside) \<and> (\<exists>s'. coord_step\<^sup>*\<^sup>* (c, ph) s' \<and> snd s' t = Inside)" if "ph t = Suspended" for t
  proof -
    from ok that obtain h where h: "ph h = Inside" "\<not> idle c" by (auto simp: coord_ok_def)
    with leaves_and_enters [of ph h t c] that show ?thesis by blast
  qed
  with ok show ?thesis by (simp add: coord_ok_def try_enter_def)
qed

theorem coordinator_exclusive_witness:
  "coord_step\<^sup>*\<^sup>* (new_coordinator, \<lambda>_. Outside) (claim new_coordinator, (\<lambda>_. Outside)(1 := Inside, 2 := Suspended))
   \<and> try_enter False (claim new_coordinator) = AppleScimBusy"
proof -
  have "coord_step (new_coordinator, \<lambda>_. Outside) (claim new_coordinator, (\<lambda>_. Outside)(1 := Inside))"
    using coord_step.enter [of "\<lambda>_. Outside" 1 True new_coordinator "claim new_coordinator"]
    by (simp add: try_enter_def new_coordinator_def claim_def notified_def)
  moreover have "coord_step (claim new_coordinator, (\<lambda>_. Outside)(1 := Inside))
      (claim new_coordinator, (\<lambda>_. Outside)(1 := Inside, 2 := Suspended))"
    using coord_step.await [of "(\<lambda>_. Outside)(1 := Inside)" 2 "claim new_coordinator"]
    by (simp add: try_enter_def claim_def waiting_phase_def)
  ultimately have r: "coord_step\<^sup>*\<^sup>* (new_coordinator, \<lambda>_. Outside) (claim new_coordinator, (\<lambda>_. Outside)(1 := Inside, 2 := Suspended))"
    by (rule rtranclp.rtrancl_into_rtrancl [OF r_into_rtranclp])
  have "\<exists>t. ((\<lambda>_. Outside)(1 := Inside, 2 := Suspended)) (t :: nat) = Inside" by (rule exI [of _ 1]) simp
  with conjunct1 [OF conjunct2 [OF coordinator_exclusive [OF r]]] r show ?thesis by blast
qed

lemma oauth_state_facts:
  assumes "sorted (map event_time evs)" "\<forall>e \<in> set evs. event_time e \<le> now" "now \<le> later"
  shows "fst (consume_state now s (store_after evs)) \<longleftrightarrow> (\<exists>t. issued s evs = Some t \<and> now - t \<le> 600)"
    "fst (is_valid_state now s (store_after evs)) = fst (consume_state now s (store_after evs))"
    "\<not> fst (consume_state later s (snd (consume_state now s (store_after evs))))"
proof -
  note v = store_view [OF assms(1)]
  have d: "distinct (map fst (store_after evs))" and f: "fresh_at now (map_of (store_after evs) s) = fresh_at now (issued s evs)"
    using v assms(2) by blast+
  show "fst (consume_state now s (store_after evs)) \<longleftrightarrow> (\<exists>t. issued s evs = Some t \<and> now - t \<le> 600)"
    using cleanup_lookup [OF d, of now s] f
    by (auto simp: consume_state_def Let_def fresh_at_def STATE_TTL_SECONDS_def split: option.splits if_splits)
  show "fst (is_valid_state now s (store_after evs)) = fst (consume_state now s (store_after evs))"
    by (simp add: is_valid_state_def consume_state_def Let_def)
  have "map_of (snd (consume_state now s (store_after evs))) s = None"
    by (simp add: consume_state_def Let_def delete_conv')
  moreover have "distinct (map fst (snd (consume_state now s (store_after evs))))"
    using play_distinct [OF d, of "Consume now s"] by simp
  ultimately show "\<not> fst (consume_state later s (snd (consume_state now s (store_after evs))))"
    by (simp add: consume_state_def [of later] Let_def cleanup_lookup)
qed

text \<open>
  C38. An OAuth state is good for one callback within ten minutes: after any history of issuing,
  checking and consuming states, consuming one succeeds exactly when it was issued at most 600
  seconds ago and not consumed since, the check that precedes it agrees, and consuming it again
  fails.
\<close>

theorem oauth_state_single_use:
  assumes "sorted (map event_time evs)" "\<forall>e \<in> set evs. event_time e \<le> now" "now \<le> later"
  shows "(fst (consume_state now s (store_after evs)) \<longleftrightarrow> (\<exists>t. issued s evs = Some t \<and> now - t \<le> 600))
    \<and> fst (is_valid_state now s (store_after evs)) = fst (consume_state now s (store_after evs))
    \<and> \<not> fst (consume_state later s (snd (consume_state now s (store_after evs))))"
  using oauth_state_facts [OF assms] by blast

theorem oauth_state_single_use_witness:
  "fst (consume_state 650 ''x'' (store_after [Issue 100 ''x'', Issue 640 ''y''])) = True
   \<and> \<not> fst (consume_state 701 ''x'' (snd (consume_state 650 ''x'' (store_after [Issue 100 ''x'', Issue 640 ''y'']))))"
  using oauth_state_single_use [of "[Issue 100 ''x'', Issue 640 ''y'']" 650 701 "''x''"] by (simp add: issued_def)

text \<open>
  Alerts of one kind are at least an hour apart: in any run of alert calls, one after another, on a monotonic
  clock, two alerts of the same event that reached the server lie 3600 seconds or more apart. An
  unreachable server does not start the pause.
\<close>

theorem alert_cooldown:
  assumes "sorted (map a_now cs)" "i < j" "j < length (alerts_reached cfg cs Map.empty)"
    and "alerts_reached cfg cs Map.empty ! i = (e, t)" "alerts_reached cfg cs Map.empty ! j = (e, t')"
  shows "t' - t \<ge> 3600"
  using sorted_wrt_nth_less [OF alerts_spaced [OF assms(1), of Map.empty cfg] assms(2,3)] assms(4,5)
  by (simp add: ALERT_COOLDOWN_def)

definition alert_at :: "real \<Rightarrow> alert_call" where
  "alert_at t = \<lparr>a_event = ''scim_no_valid_token'', a_message = [], a_severity = ''error'', a_now = t, a_iso = [],
     a_reply = AlertReached 200\<rparr>"

definition alert_settings :: settings where
  "alert_settings = example_settings\<lparr>apple_scim_alert_webhook_url := Some ''https://ntfy.example.com''\<rparr>"

theorem alert_cooldown_witness:
  "alerts_reached alert_settings [alert_at 0, alert_at 60, alert_at 4000] Map.empty
     = [(''scim_no_valid_token'', 0), (''scim_no_valid_token'', 4000)] \<and> (4000 :: real) - 0 \<ge> 3600"
proof -
  have r: "alerts_reached alert_settings [alert_at 0, alert_at 60, alert_at 4000] Map.empty
     = [(''scim_no_valid_token'', 0), (''scim_no_valid_token'', 4000)]"
    by (simp add: send_alert_def alert_settings_def example_settings_def alert_at_def nonempty_def ALERT_COOLDOWN_def)
  with alert_cooldown [of "[alert_at 0, alert_at 60, alert_at 4000]" 0 1 alert_settings "''scim_no_valid_token''" 0 4000]
  show ?thesis by (simp add: alert_at_def)
qed

end
