(* ===== verification/Scim_Service.thy ===== *)
theory Scim_Service
  imports Scim_Sync Scim_Source Scim_Coordination Stream_Api
begin

text \<open>
  The Apple connection as a whole: the stored tokens of \<^verbatim>\<open>app/scim/token.py\<close>, the routes of
  \<^verbatim>\<open>app/routes/apple_scim.py\<close> and the scheduled run of \<^verbatim>\<open>app/main.py\<close>. An operation takes the settings,
  what it draws from its environment (\<open>scim_env\<close>) and the world, and returns its result with the new
  world. The token operations run under the token lock and only inside an operation of the
  coordinator, so each is one step on the stored row.
\<close>

section \<open>State\<close>

record token_row =
  access_token :: pystr
  refresh_token :: "pystr option"
  expires_at :: int
  updated_at :: int

datatype outgoing = TokenPost pystr "(pystr \<times> pystr) list" | AlertPost pystr json

record scim_world =
  m_tokens :: "token_row option"
  m_alerts :: "pystr \<rightharpoonup> real"
  m_states :: pending_states
  m_coord :: coordinator
  m_sent :: "outgoing list"
  m_apple :: "scim_request list"

text \<open>
  The clock when a token is checked and when it is saved, the reply of the token endpoint, the time
  and the reply of an alert, and the text SQLite stores for a float in a text column.
\<close>

record scim_env =
  e_now :: int
  e_saved :: int
  e_reply :: scim_reply
  e_alert :: "pystr \<Rightarrow> real \<times> pystr \<times> alert_reply"
  e_real_text :: "pystr \<Rightarrow> pystr option"

section \<open>Values of the token response\<close>

text \<open>\<^verbatim>\<open>int(v)\<close>: a number, an exception the caller catches, or \<^verbatim>\<open>OverflowError\<close> of an infinite float.\<close>

datatype int_conv = IntValue int | NotAnInt | IntOverflow

text \<open>A float is its decimal text; its integer part is cut off, and a value beyond the doubles is infinite.\<close>

definition float_int :: "pystr \<Rightarrow> int_conv" where
  "float_int t =
     (if t = ''nan'' then NotAnInt
      else if t = ''inf'' \<or> t = ''-inf'' then IntOverflow
      else
        (let (mant, ex) = partition_at CHR ''e'' (lower (removeprefix t ''-''));
             (ip, fp) = partition_at CHR ''.'' mant;
             m = int (digits_val (ip @ fp));
             e = (case int_of_str ex of Some i \<Rightarrow> i | None \<Rightarrow> 0) - int (length fp);
             v = (if e \<ge> 0 then m * 10 ^ nat e else m div 10 ^ nat (- e))
         in if v \<ge> 2 ^ 1024 - 2 ^ 970 then IntOverflow
            else IntValue (if startswith t ''-'' then - v else v)))"

definition py_int :: "json \<Rightarrow> int_conv" where
  "py_int v =
     (case v of
        JInt i \<Rightarrow> IntValue i
      | JBool b \<Rightarrow> IntValue (if b then 1 else 0)
      | JFloat t \<Rightarrow> float_int t
      | JStr s \<Rightarrow> (case int_of_str s of Some i \<Rightarrow> IntValue i | None \<Rightarrow> NotAnInt)
      | _ \<Rightarrow> NotAnInt)"

text \<open>The lifetime of a token, 3600 seconds when the response has none that is positive; \<open>None\<close> is a crash.\<close>

definition expires_of :: "json \<Rightarrow> int option" where
  "expires_of raw =
     (case py_int raw of
        IntValue i \<Rightarrow> Some (if i \<le> 0 then 3600 else i)
      | NotAnInt \<Rightarrow> Some 3600
      | IntOverflow \<Rightarrow> None)"

text \<open>The value a text column stores for a parameter; \<open>None\<close> is an exception of the driver.\<close>

definition int64 :: "int \<Rightarrow> bool" where
  "int64 i \<longleftrightarrow> - (2 ^ 63) \<le> i \<and> i < 2 ^ 63"

definition sql_text :: "(pystr \<Rightarrow> pystr option) \<Rightarrow> json \<Rightarrow> pystr option option" where
  "sql_text real_text v =
     (case v of
        JNull \<Rightarrow> Some None
      | JBool b \<Rightarrow> Some (Some (if b then ''1'' else ''0''))
      | JInt i \<Rightarrow> if int64 i then Some (Some (int_str i)) else None
      | JFloat t \<Rightarrow> Some (real_text t)
      | JStr s \<Rightarrow> Some (Some s)
      | _ \<Rightarrow> None)"

section \<open>Stored tokens\<close>

definition safety_margin :: "int \<Rightarrow> int" where
  "safety_margin expires_in = min 60 (max (expires_in div 2) 0)"

text \<open>The upsert of the only row, which keeps the refresh token when the new one is null. \<open>None\<close> is a crash.\<close>

definition save_tokens :: "(pystr \<Rightarrow> pystr option) \<Rightarrow> int \<Rightarrow> json \<Rightarrow> json \<Rightarrow> int \<Rightarrow> token_row option \<Rightarrow> token_row option" where
  "save_tokens real_text now access refresh expires_in old =
     (let expires = now + expires_in - safety_margin expires_in in
      case (sql_text real_text access, sql_text real_text refresh) of
        (Some (Some a), Some r) \<Rightarrow>
          if \<not> int64 expires \<or> \<not> int64 now then None
          else Some \<lparr>access_token = a,
                 refresh_token = (case r of Some _ \<Rightarrow> r | None \<Rightarrow> Option.bind old refresh_token),
                 expires_at = expires, updated_at = now\<rparr>
      | _ \<Rightarrow> None)"

definition alert :: "settings \<Rightarrow> scim_env \<Rightarrow> pystr \<Rightarrow> pystr \<Rightarrow> pystr \<Rightarrow> scim_world \<Rightarrow> scim_world" where
  "alert cfg env event msg severity w =
     (case e_alert env event of (now, stamp, reply) \<Rightarrow>
        (case send_alert cfg \<lparr>a_event = event, a_message = msg, a_severity = severity, a_now = now, a_iso = stamp, a_reply = reply\<rparr> (m_alerts w) of
           (post, sent) \<Rightarrow>
             w\<lparr>m_alerts := sent, m_sent := m_sent w @ (case post of None \<Rightarrow> [] | Some (url, body) \<Rightarrow> [AlertPost url body])\<rparr>))"

definition refresh_form :: "settings \<Rightarrow> pystr \<Rightarrow> (pystr \<times> pystr) list" where
  "refresh_form cfg rt =
     [(''grant_type'', ''refresh_token''), (''refresh_token'', rt), (''client_id'', opt_str (apple_scim_client_id cfg)),
      (''client_secret'', opt_str (apple_scim_client_secret cfg))]"

text \<open>\<^verbatim>\<open>resp.json().get("error", "")\<close>, and the errors that mean that the client
  secret is no longer good (a hyphen stands for the long dash of the message).\<close>

definition error_code_of :: "json option \<Rightarrow> json" where
  "error_code_of body = (case body of Some (JObj d) \<Rightarrow> dget_or d ''error'' (JStr []) | _ \<Rightarrow> JStr [])"

definition alert_if_rejected :: "settings \<Rightarrow> scim_env \<Rightarrow> json option \<Rightarrow> scim_world \<Rightarrow> scim_world" where
  "alert_if_rejected cfg env body w =
     (if error_code_of body \<in> {JStr ''invalid_client'', JStr ''invalid_grant'', JStr ''unauthorized_client''}
      then alert cfg env ''scim_client_secret_expired''
        ''Apple SCIM client_secret has expired - generate a new secret in Apple Business Manager, update APPLE_SCIM_CLIENT_SECRET and re-authorize''
        ''critical'' w
      else w)"

definition refresh :: "settings \<Rightarrow> scim_env \<Rightarrow> pystr option \<Rightarrow> scim_world \<Rightarrow> (scim_error + pystr option) \<times> scim_world" where
  "refresh cfg env rt w0 =
     (case nonempty rt of
        None \<Rightarrow> (Inr None, w0)
      | Some t \<Rightarrow>
          (let w = w0\<lparr>m_sent := m_sent w0 @ [TokenPost (apple_scim_token_url cfg) (refresh_form cfg t)]\<rparr> in
           case e_reply env of
             NetError \<Rightarrow> (Inr None, w)
           | Reply st body \<Rightarrow>
               if st \<noteq> 200 then (Inr None, alert_if_rejected cfg env body w)
               else case body of
                 None \<Rightarrow> (Inr None, w)
               | Some (JObj data) \<Rightarrow>
                   (case dget data ''access_token'' of
                      JStr a \<Rightarrow>
                        if a = [] then (Inr None, w)
                        else (case expires_of (dget data ''expires_in'') of
                                None \<Rightarrow> (Inl ScimCrash, w)
                              | Some e \<Rightarrow>
                                  (case save_tokens (e_real_text env) (e_saved env) (JStr a) (dget data ''refresh_token'') e (m_tokens w) of
                                     None \<Rightarrow> (Inl ScimCrash, w)
                                   | Some row \<Rightarrow> (Inr (Some a), w\<lparr>m_tokens := Some row\<rparr>)))
                    | _ \<Rightarrow> (Inr None, w))
               | Some _ \<Rightarrow> (Inl ScimCrash, w)))"

definition get_valid_access_token :: "settings \<Rightarrow> scim_env \<Rightarrow> scim_world \<Rightarrow> (scim_error + pystr option) \<times> scim_world" where
  "get_valid_access_token cfg env w =
     (case m_tokens w of
        None \<Rightarrow> (Inr None, w)
      | Some row \<Rightarrow>
          if e_now env < expires_at row then (Inr (Some (access_token row)), w)
          else refresh cfg env (refresh_token row) w)"

section \<open>Authorisation\<close>

definition quote_plus :: "pystr \<Rightarrow> pystr" where
  "quote_plus s = concat (map (\<lambda>c. if c = CHR '' '' then ''+'' else quote_char c) s)"

fun urlencode :: "(pystr \<times> pystr) list \<Rightarrow> pystr" where
  "urlencode [] = []"
| "urlencode [(k, v)] = quote_plus k @ ''='' @ quote_plus v"
| "urlencode ((k, v) # ps) = quote_plus k @ ''='' @ quote_plus v @ ''&'' @ urlencode ps"

definition not_configured :: response where
  "not_configured = HttpError 503 ''Apple SCIM sync is not configured. Set APPLE_SCIM_CLIENT_ID, APPLE_SCIM_CLIENT_SECRET, AUTHENTIK_URL and AUTHENTIK_TOKEN.''"

definition callback_url :: "settings \<Rightarrow> pystr" where
  "callback_url cfg = public_url cfg ''/apple-scim/callback''"

text \<open>The error response, or the address of the redirection (status 307), for a fresh random state.\<close>

definition authorize :: "settings \<Rightarrow> real \<Rightarrow> pystr \<Rightarrow> scim_world \<Rightarrow> (response + pystr) \<times> scim_world" where
  "authorize cfg now state w =
     (if \<not> apple_scim_enabled cfg then (Inl not_configured, w)
      else (Inr (apple_scim_authorize_url cfg @ ''?'' @
                 urlencode [(''client_id'', opt_str (apple_scim_client_id cfg)), (''redirect_uri'', callback_url cfg),
                            (''response_type'', ''code''), (''state'', state)]),
            w\<lparr>m_states := add_state now state (m_states w)\<rparr>))"

definition code_form :: "settings \<Rightarrow> pystr \<Rightarrow> (pystr \<times> pystr) list" where
  "code_form cfg code =
     [(''grant_type'', ''authorization_code''), (''code'', code), (''redirect_uri'', callback_url cfg),
      (''client_id'', opt_str (apple_scim_client_id cfg)), (''client_secret'', opt_str (apple_scim_client_secret cfg))]"

definition exchange_authorization_code :: "settings \<Rightarrow> scim_env \<Rightarrow> pystr \<Rightarrow> scim_world \<Rightarrow> (response + int \<times> bool) \<times> scim_world" where
  "exchange_authorization_code cfg env code w0 =
     (let w = w0\<lparr>m_sent := m_sent w0 @ [TokenPost (apple_scim_token_url cfg) (code_form cfg code)]\<rparr> in
      case e_reply env of
        NetError \<Rightarrow> (Inl (HttpError 502 ''Network error contacting Apple token endpoint''), w)
      | Reply st body \<Rightarrow>
          if st \<noteq> 200 then (Inl (HttpError 502 (''Apple token endpoint returned '' @ int_str st)), w)
          else case body of
            Some (JObj data) \<Rightarrow>
              (case expires_of (dget data ''expires_in'') of
                 None \<Rightarrow> (Inl Crash, w)
               | Some e \<Rightarrow>
                   if \<not> truthy (dget data ''access_token'')
                   then (Inl (HttpError 502 ''Apple did not return an access_token''), w)
                   else (case save_tokens (e_real_text env) (e_saved env) (dget data ''access_token'') (dget data ''refresh_token'') e (m_tokens w) of
                           None \<Rightarrow> (Inl Crash, w)
                         | Some row \<Rightarrow> (Inr (e, truthy (dget data ''refresh_token'')), w\<lparr>m_tokens := Some row\<rparr>)))
          | _ \<Rightarrow> (Inl Crash, w))"

record callback_query =
  q_code :: "pystr option"
  q_state :: "pystr option"
  q_error :: "pystr option"

definition invalid_state :: response where
  "invalid_state = HttpError 400 ''Invalid or expired OAuth state parameter''"

definition authorized_response :: "int \<Rightarrow> bool \<Rightarrow> response" where
  "authorized_response expires_in has_refresh =
     Resp 200 (JObj [(''status'', JStr ''authorized''), (''expires_in'', JInt expires_in), (''has_refresh_token'', JBool has_refresh),
       (''message'', JStr ''Authorization successful. Initial sync scheduled automatically.'')])"

text \<open>Leaving the coordinator's operation, whatever happened inside.\<close>

definition leave_operation :: "scim_world \<Rightarrow> scim_world" where
  "leave_operation w = w\<lparr>m_coord := release (m_coord w)\<rparr>"

text \<open>The part of the callback inside the operation.\<close>

definition callback_operation :: "settings \<Rightarrow> scim_env \<Rightarrow> real \<Rightarrow> pystr \<Rightarrow> pystr \<Rightarrow> scim_world \<Rightarrow> (response + int \<times> bool) \<times> scim_world" where
  "callback_operation cfg env now code state w =
     (case consume_state now state (m_states w) of
        (False, ps) \<Rightarrow> (Inl invalid_state, w\<lparr>m_states := ps\<rparr>)
      | (True, ps) \<Rightarrow> exchange_authorization_code cfg env code (w\<lparr>m_states := ps\<rparr>))"

text \<open>The response, whether the initial synchronisation is started, and the world.\<close>

definition callback :: "settings \<Rightarrow> scim_env \<Rightarrow> real \<Rightarrow> real \<Rightarrow> callback_query \<Rightarrow> scim_world \<Rightarrow> (response \<times> bool) \<times> scim_world" where
  "callback cfg env checked consumed q w =
     (if \<not> apple_scim_enabled cfg then ((not_configured, False), w)
      else case nonempty (q_error q) of
        Some err \<Rightarrow> ((HttpError 400 (''Apple returned an OAuth error: '' @ err), False), w)
      | None \<Rightarrow>
          (case (nonempty (q_code q), nonempty (q_state q)) of
             (None, _) \<Rightarrow> ((HttpError 400 (''Missing '' @ repr_str ''code'' @ '' parameter in callback''), False), w)
           | (Some code, None) \<Rightarrow> ((invalid_state, False), w)
           | (Some code, Some state) \<Rightarrow>
               (case is_valid_state checked state (m_states w) of
                  (False, ps) \<Rightarrow> ((invalid_state, False), w\<lparr>m_states := ps\<rparr>)
                | (True, ps) \<Rightarrow>
                    (case try_enter False (m_coord w) of
                       Entered c \<Rightarrow>
                         (case callback_operation cfg env consumed code state (w\<lparr>m_states := ps, m_coord := c\<rparr>) of
                            (Inl e, w') \<Rightarrow> ((e, False), leave_operation w')
                          | (Inr (expires_in, has_refresh), w') \<Rightarrow> ((authorized_response expires_in has_refresh, True), leave_operation w'))
                     | _ \<Rightarrow> ((HttpError 409 ''Another Apple SCIM operation is in progress. Retry this callback or start authorization again.'', False),
                             w\<lparr>m_states := ps\<rparr>)))))"

section \<open>Synchronisation\<close>

datatype sync_outcome = NoToken | SourceFailed | SyncRaised scim_error | Synced sync_result

text \<open>
  The work inside the operation, the same for the three callers: a token, the users of the provider,
  the update of Apple's directory. \<open>None\<close> when reading the provider's pages does not end.
\<close>

definition run_sync :: "settings \<Rightarrow> scim_env \<Rightarrow> (pystr \<Rightarrow> scim_net) \<Rightarrow> (pystr \<Rightarrow> source_net) \<Rightarrow> scim_world \<Rightarrow> (sync_outcome \<times> scim_world) option" where
  "run_sync cfg env apple source w0 =
     (case get_valid_access_token cfg env w0 of
        (Inl e, w) \<Rightarrow> Some (SyncRaised e, w)
      | (Inr t, w) \<Rightarrow>
          (case nonempty t of
             None \<Rightarrow> Some (NoToken, w)
           | Some token \<Rightarrow>
               (case get_users source cfg of
                  None \<Rightarrow> None
                | Some (Inl e) \<Rightarrow> Some (SyncRaised e, w)
                | Some (Inr None) \<Rightarrow> Some (SourceFailed, w)
                | Some (Inr (Some users)) \<Rightarrow>
                    (case sync_users (apple token) cfg users (m_apple w) of
                       (Inl e, tr) \<Rightarrow> Some (SyncRaised e, w\<lparr>m_apple := tr\<rparr>)
                     | (Inr res, tr) \<Rightarrow> Some (Synced res, w\<lparr>m_apple := tr\<rparr>)))))"

definition sync_counts :: "settings \<Rightarrow> sync_result \<Rightarrow> json" where
  "sync_counts cfg res =
     JObj [(''status'', JStr ''ok''), (''created'', JInt (int (created res))), (''updated'', JInt (int (updated res))),
       (''unchanged'', JInt (int (unchanged res))), (''conflicts'', JInt (int (conflicts res))), (''errors'', JInt (int (errors res))),
       (''update_400_invalid_request'', JInt (int (update_400_invalid_request res))),
       (''out_of_scope_diffs'', JInt (int (out_of_scope_diffs res))), (''update_mode'', JStr (apple_scim_update_mode cfg))]"

definition sync_response :: "settings \<Rightarrow> sync_outcome \<Rightarrow> response" where
  "sync_response cfg oc =
     (case oc of
        NoToken \<Rightarrow> HttpError 401 ''No valid Apple access token. Visit /apple-scim/authorize to connect.''
      | SourceFailed \<Rightarrow> HttpError 502 ''Could not fetch users from Authentik''
      | SyncRaised ScimCrash \<Rightarrow> Crash
      | SyncRaised _ \<Rightarrow> HttpError 502 ''Could not reach Apple Business Manager or obtain a complete user list''
      | Synced res \<Rightarrow> Resp 200 (sync_counts cfg res))"

definition sync_endpoint :: "settings \<Rightarrow> scim_env \<Rightarrow> (pystr \<Rightarrow> scim_net) \<Rightarrow> (pystr \<Rightarrow> source_net) \<Rightarrow> scim_world \<Rightarrow> (response \<times> scim_world) option" where
  "sync_endpoint cfg env apple source w =
     (if \<not> apple_scim_enabled cfg then Some (not_configured, w)
      else case try_enter False (m_coord w) of
        Entered c \<Rightarrow> map_option (\<lambda>(oc, w'). (sync_response cfg oc, leave_operation w')) (run_sync cfg env apple source (w\<lparr>m_coord := c\<rparr>))
      | _ \<Rightarrow> Some (HttpError 409 ''Another Apple SCIM operation is in progress'', w))"

text \<open>
  The run after an authorisation and the scheduled run wait for the connection and keep every
  exception to themselves; the scheduled run alerts when there is no token.
\<close>

datatype sync_run = WaitsForConnection | Unfinished | Finished scim_world

definition background_sync :: "settings \<Rightarrow> scim_env \<Rightarrow> (pystr \<Rightarrow> scim_net) \<Rightarrow> (pystr \<Rightarrow> source_net) \<Rightarrow> scim_world \<Rightarrow> sync_run" where
  "background_sync cfg env apple source w =
     (case try_enter True (m_coord w) of
        Entered c \<Rightarrow>
          (case run_sync cfg env apple source (w\<lparr>m_coord := c\<rparr>) of
             None \<Rightarrow> Unfinished
           | Some (oc, w') \<Rightarrow> Finished (leave_operation w'))
      | _ \<Rightarrow> WaitsForConnection)"

definition run_scheduled_apple_scim_sync :: "settings \<Rightarrow> scim_env \<Rightarrow> (pystr \<Rightarrow> scim_net) \<Rightarrow> (pystr \<Rightarrow> source_net) \<Rightarrow> scim_world \<Rightarrow> sync_run" where
  "run_scheduled_apple_scim_sync cfg env apple source w =
     (case try_enter True (m_coord w) of
        Entered c \<Rightarrow>
          (case run_sync cfg env apple source (w\<lparr>m_coord := c\<rparr>) of
             None \<Rightarrow> Unfinished
           | Some (NoToken, w') \<Rightarrow>
               Finished (leave_operation (alert cfg env ''scim_no_valid_token''
                 ''Apple SCIM sync skipped - no valid token. Visit /apple-scim/authorize to re-authorize'' ''error'' w'))
           | Some (oc, w') \<Rightarrow> Finished (leave_operation w'))
      | _ \<Rightarrow> WaitsForConnection)"

section \<open>Status\<close>

definition scim_status :: "settings \<Rightarrow> int \<Rightarrow> token_row option \<Rightarrow> response" where
  "scim_status cfg now tokens =
     (if \<not> apple_scim_enabled cfg then Resp 200 (JObj [(''enabled'', JBool False), (''reason'', JStr ''not_configured'')])
      else case tokens of
        None \<Rightarrow> Resp 200 (JObj [(''enabled'', JBool True), (''authorized'', JBool False), (''reason'', JStr ''Visit /apple-scim/authorize to connect'')])
      | Some row \<Rightarrow>
          Resp 200 (JObj [(''enabled'', JBool True), (''authorized'', JBool True), (''token_valid'', JBool (now < expires_at row)),
            (''token_expires_at'', JInt (expires_at row)), (''token_expires_in_seconds'', JInt (max 0 (expires_at row - now))),
            (''has_refresh_token'', JBool (nonempty (refresh_token row) \<noteq> None)), (''last_updated'', JInt (updated_at row)),
            (''alert_webhook_configured'', JBool (nonempty (apple_scim_alert_webhook_url cfg) \<noteq> None))]))"

section \<open>Effects\<close>

lemma alert_keeps [simp]:
  "m_tokens (alert cfg env ev msg sv w) = m_tokens w" "m_coord (alert cfg env ev msg sv w) = m_coord w"
  "m_states (alert cfg env ev msg sv w) = m_states w" "m_apple (alert cfg env ev msg sv w) = m_apple w"
  by (simp_all add: alert_def split: prod.splits)

lemma alert_if_rejected_keeps [simp]:
  "m_tokens (alert_if_rejected cfg env b w) = m_tokens w" "m_coord (alert_if_rejected cfg env b w) = m_coord w"
  "m_states (alert_if_rejected cfg env b w) = m_states w" "m_apple (alert_if_rejected cfg env b w) = m_apple w"
  by (simp_all add: alert_if_rejected_def)

lemma leave_operation_simps [simp]:
  "m_tokens (leave_operation w) = m_tokens w" "m_states (leave_operation w) = m_states w"
  "m_sent (leave_operation w) = m_sent w" "m_apple (leave_operation w) = m_apple w"
  "busy (m_coord (leave_operation w)) = False"
  by (simp_all add: leave_operation_def release_def)

lemma safety_margin_pos: "0 < e \<Longrightarrow> safety_margin e = min 60 (e div 2)"
  by (simp add: safety_margin_def)

lemma expires_of_pos: "expires_of v = Some e \<Longrightarrow> 0 < e"
  by (auto simp: expires_of_def split: int_conv.splits if_splits)

lemma save_tokens_row:
  assumes "save_tokens rt now a r e old = Some row"
  shows "expires_at row = now + e - safety_margin e" "updated_at row = now"
    "a = JStr s \<Longrightarrow> access_token row = s"
    "r = JNull \<Longrightarrow> refresh_token row = Option.bind old refresh_token"
  using assms by (auto simp: save_tokens_def Let_def sql_text_def split: option.splits if_splits)

lemma refresh_effect:
  assumes "refresh cfg env rt w = (r, w')"
  shows "m_apple w' = m_apple w \<and> m_coord w' = m_coord w \<and> m_states w' = m_states w
    \<and> (case r of
         Inr (Some a) \<Rightarrow> \<exists>row e. m_tokens w' = Some row \<and> access_token row = a \<and> a \<noteq> [] \<and> 0 < e \<and> updated_at row = e_saved env
           \<and> expires_at row = e_saved env + e - safety_margin e
       | _ \<Rightarrow> m_tokens w' = m_tokens w)"
  using assms save_tokens_row
  by (auto simp: refresh_def Let_def split: option.splits scim_reply.splits if_splits json.splits) (metis expires_of_pos)

lemma get_valid_access_token_effect:
  assumes "get_valid_access_token cfg env w = (r, w')"
  shows "m_apple w' = m_apple w \<and> m_coord w' = m_coord w \<and> m_states w' = m_states w
    \<and> (case r of
         Inr (Some a) \<Rightarrow> \<exists>row. m_tokens w' = Some row \<and> access_token row = a \<and>
           (w' = w \<and> e_now env < expires_at row
            \<or> (\<exists>e > 0. updated_at row = e_saved env \<and> expires_at row = e_saved env + e - safety_margin e))
       | _ \<Rightarrow> m_tokens w' = m_tokens w)"
  using assms refresh_effect [of cfg env _ w r w']
  by (auto simp: get_valid_access_token_def split: option.splits if_splits sum.splits) blast

lemma run_sync_apple:
  assumes "run_sync cfg env apple source w = Some (oc, w')"
  shows "m_apple w' = m_apple w \<and> (oc = NoToken \<or> oc = SourceFailed \<or> (\<exists>e. oc = SyncRaised e))
    \<or> (\<exists>token users r. get_users source cfg = Some (Inr (Some users)) \<and> sync_users (apple token) cfg users (m_apple w) = (r, m_apple w')
         \<and> (\<forall>e. r = Inl e \<longrightarrow> oc = SyncRaised e) \<and> (\<forall>res. r = Inr res \<longrightarrow> oc = Synced res))"
proof -
  obtain r1 w1 where g: "get_valid_access_token cfg env w = (r1, w1)" by fastforce
  have a: "m_apple w1 = m_apple w" using get_valid_access_token_effect [OF g] by blast
  with g assms show ?thesis
    by (fastforce simp: run_sync_def split: option.splits sum.splits prod.splits)
qed

lemma exchange_effect:
  assumes "exchange_authorization_code cfg env code w = (r, w')"
  shows "m_states w' = m_states w" "m_coord w' = m_coord w" "m_apple w' = m_apple w"
    "(\<exists>b. r = Inr b) \<or> m_tokens w' = m_tokens w"
  using assms
  by (auto simp: exchange_authorization_code_def Let_def split: option.splits scim_reply.splits if_splits json.splits)

lemma exchange_never_ok: "exchange_authorization_code cfg env code w = (Inl e, w') \<Longrightarrow> e \<noteq> Resp 200 j"
  by (auto simp: exchange_authorization_code_def Let_def split: option.splits scim_reply.splits if_splits json.splits)

lemma consumed_gone: "consume_state now s ps = (b, ps') \<Longrightarrow> map_of ps' s = None"
  by (auto simp: consume_state_def Let_def delete_conv' split: if_splits)

lemma callback_operation_effect:
  assumes "callback_operation cfg env now code s w = (r, w')"
  shows "m_coord w' = m_coord w" "map_of (m_states w') s = None" "m_apple w' = m_apple w"
    "r = Inl e \<Longrightarrow> e \<noteq> Resp 200 j"
  using assms exchange_effect exchange_never_ok consumed_gone
  by (fastforce simp: callback_operation_def invalid_state_def split: prod.splits bool.splits)+

section \<open>Properties\<close>

text \<open>
  An access token is never handed out at or after its expiry, and a refresh token is not lost:
  a token saved at one time for a positive lifetime is returned, without asking Apple, as long as
  more than the safety margin of its lifetime is left (60 seconds, or half the lifetime when that is
  shorter), later the refresh token is used; saving without a refresh token keeps the stored one.
\<close>

theorem token_lifetime_margin:
  assumes "save_tokens rt saved (JStr a) r e old = Some row" "0 < e" "m_tokens w = Some row"
  shows "(saved + e - e_now env > min 60 (e div 2) \<longrightarrow> get_valid_access_token cfg env w = (Inr (Some a), w))
    \<and> (saved + e - e_now env \<le> min 60 (e div 2) \<longrightarrow> get_valid_access_token cfg env w = refresh cfg env (refresh_token row) w)
    \<and> (r = JNull \<longrightarrow> refresh_token row = Option.bind old refresh_token)"
  using assms save_tokens_row [OF assms(1)] by (auto simp: get_valid_access_token_def safety_margin_pos)

definition example_row :: token_row where
  "example_row = \<lparr>access_token = ''abc'', refresh_token = Some ''r1'', expires_at = 4540, updated_at = 1000\<rparr>"

definition example_world :: scim_world where
  "example_world = \<lparr>m_tokens = Some example_row, m_alerts = Map.empty, m_states = [(''x'', 0)], m_coord = new_coordinator, m_sent = [], m_apple = []\<rparr>"

definition example_env_at :: "int \<Rightarrow> scim_env" where
  "example_env_at now = \<lparr>e_now = now, e_saved = now,
     e_reply = Reply 200 (Some (JObj [(''access_token'', JStr ''def''), (''expires_in'', JInt 3600)])),
     e_alert = (\<lambda>_. (0, [], AlertReached 200)), e_real_text = (\<lambda>_. None)\<rparr>"

lemma example_save:
  "save_tokens (\<lambda>_. None) 1000 (JStr ''abc'') JNull 3600 (Some (example_row\<lparr>access_token := ''old'', expires_at := 900, updated_at := 1\<rparr>)) = Some example_row"
  by (simp add: save_tokens_def sql_text_def int64_def safety_margin_def example_row_def)

lemma example_world_row: "m_tokens example_world = Some example_row"
  by (simp add: example_world_def)

theorem token_lifetime_margin_witness:
  "get_valid_access_token source_settings (example_env_at 4539) example_world = (Inr (Some ''abc''), example_world)
   \<and> get_valid_access_token source_settings (example_env_at 4540) example_world
       = refresh source_settings (example_env_at 4540) (Some ''r1'') example_world"
  using token_lifetime_margin [OF example_save _ example_world_row, where env = "example_env_at 4539" and cfg = source_settings]
    token_lifetime_margin [OF example_save _ example_world_row, where env = "example_env_at 4540" and cfg = source_settings]
  by (simp add: example_env_at_def example_row_def)

text \<open>
  What the synchronisation uses is stored: a token it is given is the one in the database, and
  either that one was stored before and has not expired, or it was just obtained and will expire
  its lifetime less the margin after it was saved. When there is no token, the stored row is the
  same as before, and asking for a token sends nothing to Apple's directory service.
\<close>

theorem access_token_stored:
  assumes "get_valid_access_token cfg env w = (r, w')"
  shows "(\<forall>a. r = Inr (Some a) \<longrightarrow> (\<exists>row. m_tokens w' = Some row \<and> access_token row = a \<and>
      (w' = w \<and> e_now env < expires_at row
       \<or> (\<exists>e > 0. updated_at row = e_saved env \<and> expires_at row = e_saved env + e - min 60 (e div 2)))))
    \<and> ((\<forall>a. r \<noteq> Inr (Some a)) \<longrightarrow> m_tokens w' = m_tokens w)
    \<and> m_apple w' = m_apple w"
  using get_valid_access_token_effect [OF assms] safety_margin_pos
  by (auto split: sum.splits option.splits)

theorem access_token_stored_witness:
  "\<exists>w' row. get_valid_access_token source_settings (example_env_at 5000) example_world = (Inr (Some ''def''), w')
     \<and> m_tokens w' = Some row \<and> access_token row = ''def''"
proof -
  have "fst (get_valid_access_token source_settings (example_env_at 5000) example_world) = Inr (Some ''def'')"
    by code_simp
  then obtain w' where g: "get_valid_access_token source_settings (example_env_at 5000) example_world = (Inr (Some ''def''), w')"
    by (cases "get_valid_access_token source_settings (example_env_at 5000) example_world") auto
  with access_token_stored [OF g] show ?thesis by blast
qed

text \<open>
  C12. A callback changes the connection only for a state this service issued: tokens are requested
  or stored, and the initial synchronisation is started, only when the feature is configured, Apple
  reported no error, the state is pending and not expired and the connection was free; the state is
  gone afterwards. Success is reported exactly when the synchronisation is started, and the
  connection is as free or busy as before.
\<close>

theorem callback_guarded:
  assumes "callback cfg env t1 t2 q w = ((resp, started), w')"
  shows "(m_tokens w' \<noteq> m_tokens w \<or> m_sent w' \<noteq> m_sent w \<or> started \<longrightarrow>
      apple_scim_enabled cfg \<and> nonempty (q_error q) = None \<and> \<not> busy (m_coord w)
      \<and> (\<exists>s. q_state q = Some s \<and> fst (is_valid_state t1 s (m_states w)) \<and> map_of (m_states w') s = None))
    \<and> (started \<longleftrightarrow> (\<exists>j. resp = Resp 200 j))
    \<and> busy (m_coord w') = busy (m_coord w)"
proof (cases "apple_scim_enabled cfg \<and> nonempty (q_error q) = None \<and> \<not> busy (m_coord w) \<and>
    (\<exists>c s ps. nonempty (q_code q) = Some c \<and> nonempty (q_state q) = Some s \<and> is_valid_state t1 s (m_states w) = (True, ps))")
  case False
  with assms show ?thesis
    by (auto simp: callback_def not_configured_def invalid_state_def try_enter_def split: option.splits prod.splits bool.splits if_splits)
next
  case True
  then obtain c s ps where g: "nonempty (q_code q) = Some c" "nonempty (q_state q) = Some s"
    "is_valid_state t1 s (m_states w) = (True, ps)" by blast
  obtain r w1 where o: "callback_operation cfg env t2 c s (w\<lparr>m_states := ps, m_coord := claim (m_coord w)\<rparr>) = (r, w1)" by fastforce
  note e = callback_operation_effect [OF o]
  show ?thesis
  proof (cases r)
    case (Inl x)
    with True g o assms have "resp = x" "\<not> started" "w' = leave_operation w1" by (simp_all add: callback_def try_enter_def)
    with True g e Inl show ?thesis by (simp add: nonempty_Some)
  next
    case (Inr p)
    with True g o assms obtain a b where "resp = authorized_response a b" "started" "w' = leave_operation w1"
      by (cases p) (auto simp: callback_def try_enter_def)
    with True g e show ?thesis by (simp add: authorized_response_def nonempty_Some)
  qed
qed

definition example_query :: callback_query where
  "example_query = \<lparr>q_code = Some ''c'', q_state = Some ''x'', q_error = None\<rparr>"

theorem callback_guarded_witness:
  "\<exists>resp w'. callback source_settings (example_env_at 5000) 10 11 example_query example_world = ((resp, True), w')
     \<and> map_of (m_states w') ''x'' = None"
proof -
  obtain resp b w' where c: "callback source_settings (example_env_at 5000) 10 11 example_query example_world = ((resp, b), w')"
    by (metis prod.collapse)
  have "snd (fst (callback source_settings (example_env_at 5000) 10 11 example_query example_world))"
    by (simp add: callback_def source_settings_def apple_scim_enabled_def nonempty_def example_query_def example_world_def
        is_valid_state_def consume_state_def cleanup_expired_states_def STATE_TTL_SECONDS_def try_enter_def new_coordinator_def
        callback_operation_def exchange_authorization_code_def example_env_at_def dget_def expires_of_def py_int_def save_tokens_def
        sql_text_def int64_def safety_margin_def)
  with c callback_guarded [OF c] show ?thesis by (auto simp: example_query_def)
qed

text \<open>
  A requested synchronisation answers by what happened and touches Apple's directory only with
  a token and a complete user list: it is refused with 503 or 409 without any change when the
  feature is not configured or the connection is in use; otherwise, when it returns, the connection
  is free again, the answer is 200 exactly when all users were worked through, and requests to the
  directory were sent only after the provider's users had been read completely.
\<close>

theorem sync_endpoint_answers:
  assumes "sync_endpoint cfg env apple source w = Some (resp, w')"
  shows "if \<not> apple_scim_enabled cfg then resp = not_configured \<and> w' = w
    else if busy (m_coord w) then code_of resp = 409 \<and> w' = w
    else \<not> busy (m_coord w')
      \<and> (m_apple w' \<noteq> m_apple w \<or> code_of resp = 200 \<longrightarrow>
           (\<exists>token users r. get_users source cfg = Some (Inr (Some users)) \<and> sync_users (apple token) cfg users (m_apple w) = (r, m_apple w')
              \<and> (code_of resp = 200 \<longleftrightarrow> (\<exists>res. r = Inr res \<and> resp = Resp 200 (sync_counts cfg res)))))"
proof (cases "apple_scim_enabled cfg \<and> \<not> busy (m_coord w)")
  case False
  with assms show ?thesis by (auto simp: sync_endpoint_def try_enter_def code_of_def split: if_splits)
next
  case True
  with assms obtain oc w1 where r: "run_sync cfg env apple source (w\<lparr>m_coord := claim (m_coord w)\<rparr>) = Some (oc, w1)"
    "resp = sync_response cfg oc" "w' = leave_operation w1"
    by (auto simp: sync_endpoint_def try_enter_def)
  from run_sync_apple [OF r(1)] show ?thesis
  proof
    assume "m_apple w1 = m_apple (w\<lparr>m_coord := claim (m_coord w)\<rparr>) \<and> (oc = NoToken \<or> oc = SourceFailed \<or> (\<exists>e. oc = SyncRaised e))"
    with True r(2,3) show ?thesis by (auto simp: sync_response_def code_of_def split: scim_error.splits)
  next
    assume "\<exists>token users q. get_users source cfg = Some (Inr (Some users))
      \<and> sync_users (apple token) cfg users (m_apple (w\<lparr>m_coord := claim (m_coord w)\<rparr>)) = (q, m_apple w1)
      \<and> (\<forall>e. q = Inl e \<longrightarrow> oc = SyncRaised e) \<and> (\<forall>res. q = Inr res \<longrightarrow> oc = Synced res)"
    then obtain token users q where s: "get_users source cfg = Some (Inr (Some users))"
      "sync_users (apple token) cfg users (m_apple w) = (q, m_apple w')"
      "\<forall>e. q = Inl e \<longrightarrow> oc = SyncRaised e" "\<forall>res. q = Inr res \<longrightarrow> oc = Synced res" using r(3) by auto
    then have "code_of resp = 200 \<longleftrightarrow> (\<exists>res. q = Inr res \<and> resp = Resp 200 (sync_counts cfg res))"
      using r(2) by (cases q) (auto simp: sync_response_def code_of_def split: scim_error.splits)
    with s True r(3) show ?thesis by auto
  qed
qed

lemma example_endpoint:
  "map_option (code_of \<circ> fst) (sync_endpoint source_settings (example_env_at 1000) (\<lambda>_. patching_net) (\<lambda>_. paged_source) example_world) = Some 200"
  by code_simp

theorem sync_endpoint_answers_witness:
  "\<exists>users r tr. get_users (\<lambda>_. paged_source) source_settings = Some (Inr (Some users))
     \<and> sync_users patching_net source_settings users [] = (r, tr) \<and> (\<exists>res. r = Inr res)"
proof -
  obtain resp w' where r: "sync_endpoint source_settings (example_env_at 1000) (\<lambda>_. patching_net) (\<lambda>_. paged_source) example_world = Some (resp, w')"
    "code_of resp = 200" using example_endpoint by auto
  have "apple_scim_enabled source_settings" "\<not> busy (m_coord example_world)" by code_simp+
  with sync_endpoint_answers [OF r(1)] r(2) show ?thesis by (auto simp: example_world_def)
qed

section \<open>End to end\<close>

text \<open>An Apple account that stands for an Authentik user.\<close>

definition belongs :: "settings \<Rightarrow> pydict \<Rightarrow> pydict \<Rightarrow> bool" where
  "belongs cfg a u \<longleftrightarrow> ext_of a = py_str (dget u ''pk'')
     \<or> ext_of a = [] \<and> apple_scim_allow_username_recovery cfg \<and> name_of a = normalize_identifier (dget u ''email'')"

lemma digit_not_space: "is_digit c \<Longrightarrow> \<not> is_space c"
  by (auto simp: is_digit_def is_space_def Let_def)

lemma dropWhile_none: "\<forall>x \<in> set xs. \<not> p x \<Longrightarrow> dropWhile p xs = xs"
  by (cases xs) auto

lemma strip_no_space: "\<forall>c \<in> set s. \<not> is_space c \<Longrightarrow> strip s = s"
  by (simp add: strip_def lstrip_def rstrip_def dropWhile_none)

lemma int_str_no_space: "\<forall>c \<in> set (int_str i). \<not> is_space c"
  using nat_str_digits digit_not_space by (auto simp: int_str_def is_space_def)

lemma int_str_nonempty: "int_str i \<noteq> []"
  by (simp add: int_str_def nat_str_nonempty)

lemma represents_identity:
  assumes "represents u m" "dget u ''pk'' = JInt i"
  shows "ext_of m = int_str i" "name_of m = normalize_identifier (dget u ''email'')"
  using assms strip_no_space [OF int_str_no_space]
  by (simp_all add: represents_def ext_of_def name_of_def normalize_identifier_def)

lemma linked_belongs: "represents u m \<Longrightarrow> dget u ''pk'' = JInt i \<Longrightarrow> linked cfg a m \<Longrightarrow> belongs cfg a u"
  by (auto simp: linked_def belongs_def represents_identity)

lemma mapped_from_source:
  assumes "filter_and_map_users vs = Inr ms" "\<forall>v \<in> set vs. \<exists>i. dget (obj_val v) ''pk'' = JInt i" "m \<in> set ms"
  shows "has_username m \<and> (\<exists>v \<in> set vs. eligible (obj_val v) \<and> represents (obj_val v) m)"
proof -
  note f = filter_and_map_spec [OF assms(1)]
  from f assms(3) obtain k where k: "k < length ms" "m = ms ! k" by (metis in_set_conv_nth)
  let ?us = "filter eligible (map obj_val vs)"
  from f k have "represents (?us ! k) m" "k < length ?us" by (auto simp: list_all2_conv_all_nth)
  moreover from this(2) have "?us ! k \<in> set ?us" by (rule nth_mem)
  ultimately show ?thesis using f assms(3) by (auto simp: list_all_iff)
qed

lemma scheduled_sync_apple:
  assumes "run_scheduled_apple_scim_sync cfg env apple source w = Finished w'" "m_apple w' \<noteq> m_apple w"
  obtains token users r where "get_users source cfg = Some (Inr (Some users))" "sync_users (apple token) cfg users (m_apple w) = (r, m_apple w')"
proof -
  from assms(1) obtain oc w1 where r: "run_sync cfg env apple source (w\<lparr>m_coord := claim (m_coord w)\<rparr>) = Some (oc, w1)" "m_apple w' = m_apple w1"
    by (auto simp: run_scheduled_apple_scim_sync_def try_enter_def split: if_splits entry.splits option.splits sync_outcome.splits)
  from run_sync_apple [OF r(1)] assms(2) r(2) that show thesis by auto
qed

text \<open>
  C5. End to end, a scheduled run changes Apple's directory only on behalf of Authentik users: with
  a provider whose users have integer identifiers, every account it creates is the SCIM form of a
  listed user with an e-mail address, and every account it changes was reported by Apple before and
  carries the identifier of such a user as externalId, or none while recovery is allowed and it has
  the user's e-mail address as userName.
\<close>

theorem scheduled_sync_end_to_end:
  assumes "run_scheduled_apple_scim_sync cfg env apple source w = Finished w'" "m_apple w = []" "m_apple w' = pre @ q # post"
    and "nonempty (authentik_url cfg) = Some url" "nonempty (authentik_token cfg) = Some tok"
    and "first = build_initial_users_url (rstrip (\<lambda>c. c = CHR ''/'') url) (strip (opt_str (apple_scim_group_id cfg)))"
    and "\<forall>rs. chain (source (''Bearer '' @ tok)) [] (JStr first) rs \<longrightarrow> (\<forall>v \<in> set (concat rs). \<exists>i. dget (obj_val v) ''pk'' = JInt i)"
  shows "\<exists>rs token. chain (source (''Bearer '' @ tok)) [] (JStr first) rs \<and>
    (case q of
       Get _ \<Rightarrow> True
     | Post addr body \<Rightarrow> \<exists>v \<in> set (concat rs). \<exists>m. eligible (obj_val v) \<and> represents (obj_val v) m \<and> body = JObj m
     | Put addr _ \<Rightarrow> \<exists>v \<in> set (concat rs). \<exists>a. seen (apple token) pre a \<and> addr = user_url (str_val (dget a ''id''))
         \<and> eligible (obj_val v) \<and> belongs cfg a (obj_val v)
     | Patch addr _ \<Rightarrow> \<exists>v \<in> set (concat rs). \<exists>a. seen (apple token) pre a \<and> addr = user_url (str_val (dget a ''id''))
         \<and> eligible (obj_val v) \<and> belongs cfg a (obj_val v))"
proof -
  have "m_apple w' \<noteq> m_apple w" using assms(2,3) by simp
  from scheduled_sync_apple [OF assms(1) this] obtain token users r
    where u: "get_users source cfg = Some (Inr (Some users))" "sync_users (apple token) cfg users [] = (r, m_apple w')"
    unfolding assms(2) .
  from u(1) obtain rs where rs: "chain (source (''Bearer '' @ tok)) [] (JStr first) rs" "filter_and_map_users (concat rs) = Inr users"
    unfolding get_users_chain [OF assms(4-6)] by blast
  note pk = assms(7) [rule_format, OF rs(1)]
  have from_source: "has_username m \<and> (\<exists>v \<in> set (concat rs). eligible (obj_val v) \<and> represents (obj_val v) m)" if "m \<in> set users" for m
    using mapped_from_source [OF rs(2) _ that] pk by blast
  have "\<forall>m \<in> set users. ext_of m \<noteq> [] \<and> has_username m"
    using from_source pk represents_identity(1) int_str_nonempty by metis
  from sync_users_trace_ok [OF this u(2)] assms(3) have w: "write_ok (apple token) cfg users pre q" by (simp add: trace_ok_def)
  have change: "\<exists>v \<in> set (concat rs). \<exists>a. seen (apple token) pre a \<and> addr = user_url (str_val (dget a ''id''))
         \<and> eligible (obj_val v) \<and> belongs cfg a (obj_val v)"
    if "\<exists>m \<in> set users. \<exists>a. seen (apple token) pre a \<and> addr = user_url (str_val (dget a ''id'')) \<and> linked cfg a m" for addr
    using that from_source pk linked_belongs by blast
  show ?thesis
    by (rule exI [of _ rs], rule exI [of _ token])
      (use rs(1) w change from_source in \<open>auto simp: write_ok_def split: scim_request.splits\<close>)
qed

lemma example_scheduled:
  "(case run_scheduled_apple_scim_sync source_settings (example_env_at 1000) (\<lambda>_. patching_net) (\<lambda>_. paged_source) example_world of
      Finished w' \<Rightarrow> (case m_apple w' of [Get u, Patch v b] \<Rightarrow> v = user_url ''a1'' | _ \<Rightarrow> False) | _ \<Rightarrow> False)"
  by code_simp

lemma example_provider_ids:
  assumes "chain paged_source [] (JStr ''https://idp/api/v3/core/users/?type=internal&page_size=500'') rs" "v \<in> set (concat rs)"
  shows "\<exists>i. dget (obj_val v) ''pk'' = JInt i"
proof -
  have "concat rs = [authentik_user 7 ''Xena Q Amphi'' '' x@e.org'', authentik_user 8 ''No Mail'' []]"
    using fetch_chain [OF assms(1), of "[]"] fetch_chain [OF example_chain, of "[]"] by simp
  with assms(2) show ?thesis by (auto simp: authentik_user_def dget_def)
qed

theorem scheduled_sync_end_to_end_witness:
  "\<exists>pre v a. seen patching_net pre a \<and> user_url ''a1'' = user_url (str_val (dget a ''id'')) \<and> belongs source_settings a (obj_val v)"
proof -
  let ?r = "run_scheduled_apple_scim_sync source_settings (example_env_at 1000) (\<lambda>_. patching_net) (\<lambda>_. paged_source) example_world"
  obtain w' u b where s: "?r = Finished w'" "m_apple w' = [Get u] @ Patch (user_url ''a1'') b # []"
    using example_scheduled by (auto split: sync_run.splits list.splits scim_request.splits)
  have n: "m_apple example_world = []" "nonempty (authentik_url source_settings) = Some ''https://idp''"
    "nonempty (authentik_token source_settings) = Some ''t''"
    "''https://idp/api/v3/core/users/?type=internal&page_size=500''
       = build_initial_users_url (rstrip (\<lambda>c. c = CHR ''/'') ''https://idp'') (strip (opt_str (apple_scim_group_id source_settings)))"
    by code_simp+
  show ?thesis
    using scheduled_sync_end_to_end [OF s(1) n(1) s(2) n(2-4)] example_provider_ids by auto
qed

end
