(* ===== verification/Api_Routes.thy ===== *)
theory Api_Routes
  imports Auth Web Webhook Scim_Service
begin

text \<open>
  From a request to its handler: the endpoints as their decorators declare them, the routers that
  \<^verbatim>\<open>create_app\<close> includes, the rate limits of \<^verbatim>\<open>app/rate_limit.py\<close>, and the order in which the default
  limit, the bearer check of the router, the limit of the endpoint and the handler run. Matching a
  path and parsing a body belong to the framework: an \<open>operation\<close> is a matched endpoint with its
  parsed arguments. The limiter's counting belongs to its library and is the parameter \<open>limiter\<close>,
  with its documented behaviour inside one window as the hypothesis \<open>counts_hits\<close>.
\<close>

section \<open>Endpoints as declared\<close>

text \<open>
  The limit of an endpoint and the scope that shares it; without a scope every path has its own
  count. The errors are the statuses that the decorator documents.
\<close>

record endpoint =
  ep_method :: pystr
  ep_path :: pystr
  ep_status :: int
  ep_errors :: "int list"
  ep_limit :: "(pystr \<times> pystr option) option"
  ep_auth :: bool

definition plain_endpoint :: "pystr \<Rightarrow> pystr \<Rightarrow> endpoint" where
  "plain_endpoint m p = \<lparr>ep_method = m, ep_path = p, ep_status = 200, ep_errors = [], ep_limit = None, ep_auth = False\<rparr>"

definition create_stream_route :: endpoint where
  "create_stream_route = (plain_endpoint ''POST'' ''/streams'')
     \<lparr>ep_status := 201, ep_errors := [400, 502], ep_limit := Some (''10/minute'', None)\<rparr>"

definition get_stream_route :: endpoint where
  "get_stream_route = (plain_endpoint ''GET'' ''/streams'')\<lparr>ep_errors := [404]\<rparr>"

definition get_stream_by_id_route :: endpoint where
  "get_stream_by_id_route = (plain_endpoint ''GET'' ''/streams/{stream_id}'')\<lparr>ep_errors := [404]\<rparr>"

definition patch_stream_route :: endpoint where
  "patch_stream_route = (plain_endpoint ''PATCH'' ''/streams'')
     \<lparr>ep_errors := [400, 404], ep_limit := Some (''20/minute'', Some ''patch_stream'')\<rparr>"

definition patch_stream_by_id_route :: endpoint where
  "patch_stream_by_id_route = (plain_endpoint ''PATCH'' ''/streams/{stream_id}'')
     \<lparr>ep_errors := [400, 404], ep_limit := Some (''20/minute'', Some ''patch_stream'')\<rparr>"

definition delete_stream_route :: endpoint where
  "delete_stream_route = (plain_endpoint ''DELETE'' ''/streams'')\<lparr>ep_status := 204\<rparr>"

definition delete_stream_by_id_route :: endpoint where
  "delete_stream_by_id_route = (plain_endpoint ''DELETE'' ''/streams/{stream_id}'')\<lparr>ep_status := 204, ep_errors := [404]\<rparr>"

definition add_subject_route :: endpoint where
  "add_subject_route = plain_endpoint ''POST'' ''/streams/subjects:add''"

definition remove_subject_route :: endpoint where
  "remove_subject_route = plain_endpoint ''POST'' ''/streams/subjects:remove''"

definition stream_status_route :: endpoint where
  "stream_status_route = plain_endpoint ''GET'' ''/status''"

definition delivery_status_route :: endpoint where
  "delivery_status_route = plain_endpoint ''GET'' ''/delivery/status''"

definition retry_blocked_route :: endpoint where
  "retry_blocked_route = (plain_endpoint ''POST'' ''/delivery/retry-blocked'')\<lparr>ep_limit := Some (''10/minute'', None)\<rparr>"

definition discard_pending_route :: endpoint where
  "discard_pending_route = (plain_endpoint ''DELETE'' ''/delivery/pending'')\<lparr>ep_limit := Some (''10/minute'', None)\<rparr>"

definition discard_blocked_route :: endpoint where
  "discard_blocked_route = (plain_endpoint ''DELETE'' ''/delivery/blocked'')\<lparr>ep_limit := Some (''10/minute'', None)\<rparr>"

definition stream_status_by_id_route :: endpoint where
  "stream_status_by_id_route = (plain_endpoint ''GET'' ''/streams/{stream_id}/status'')\<lparr>ep_errors := [404]\<rparr>"

definition verify_stream_by_id_route :: endpoint where
  "verify_stream_by_id_route = (plain_endpoint ''POST'' ''/streams/{stream_id}/verify'')\<lparr>ep_status := 202, ep_errors := [404, 502]\<rparr>"

definition trigger_verification_route :: endpoint where
  "trigger_verification_route = (plain_endpoint ''POST'' ''/verification'')\<lparr>ep_status := 202, ep_errors := [404, 502]\<rparr>"

definition webhook_route :: endpoint where
  "webhook_route = (plain_endpoint ''POST'' ''/webhook/authentik'')
     \<lparr>ep_errors := [400, 401, 413, 500, 503], ep_limit := Some (''60/minute'', None)\<rparr>"

text \<open>The decorator of \<^verbatim>\<open>authorize\<close> declares no status: the redirection it returns brings its own.\<close>

definition authorize_route :: endpoint where
  "authorize_route = (plain_endpoint ''GET'' ''/authorize'')\<lparr>ep_errors := [503]\<rparr>"

definition callback_route :: endpoint where
  "callback_route = (plain_endpoint ''GET'' ''/callback'')\<lparr>ep_errors := [400, 409, 502, 503]\<rparr>"

definition scim_status_route :: endpoint where
  "scim_status_route = (plain_endpoint ''GET'' ''/status'')\<lparr>ep_auth := True\<rparr>"

definition scim_sync_route :: endpoint where
  "scim_sync_route = (plain_endpoint ''POST'' ''/sync'')\<lparr>ep_errors := [401, 409, 502, 503], ep_auth := True\<rparr>"

definition service_root_route :: endpoint where
  "service_root_route = plain_endpoint ''GET'' ''/''"

definition wellknown_route :: endpoint where
  "wellknown_route = plain_endpoint ''GET'' ''/.well-known/ssf-configuration''"

definition jwks_route :: endpoint where
  "jwks_route = plain_endpoint ''GET'' ''/jwks.json''"

section \<open>Routers\<close>

text \<open>A router prefixes its paths, and its dependencies guard all of its endpoints.\<close>

record router =
  rt_prefix :: pystr
  rt_auth :: bool
  rt_endpoints :: "endpoint list"

definition mounted :: "router \<Rightarrow> endpoint list" where
  "mounted rt = map (\<lambda>ep. ep\<lparr>ep_path := rt_prefix rt @ ep_path ep, ep_auth := ep_auth ep \<or> rt_auth rt\<rparr>) (rt_endpoints rt)"

definition root_router :: router where
  "root_router = \<lparr>rt_prefix = [], rt_auth = False, rt_endpoints = [service_root_route]\<rparr>"

definition wellknown_router :: router where
  "wellknown_router = \<lparr>rt_prefix = [], rt_auth = False, rt_endpoints = [wellknown_route]\<rparr>"

definition jwks_router :: router where
  "jwks_router = \<lparr>rt_prefix = [], rt_auth = False, rt_endpoints = [jwks_route]\<rparr>"

definition streams_router :: router where
  "streams_router = \<lparr>rt_prefix = ''/ssf'', rt_auth = True, rt_endpoints =
     [create_stream_route, get_stream_route, get_stream_by_id_route, patch_stream_route, patch_stream_by_id_route,
      delete_stream_route, delete_stream_by_id_route, add_subject_route, remove_subject_route, stream_status_route,
      delivery_status_route, retry_blocked_route, discard_pending_route, discard_blocked_route,
      stream_status_by_id_route, verify_stream_by_id_route]\<rparr>"

definition verification_router :: router where
  "verification_router = \<lparr>rt_prefix = ''/ssf'', rt_auth = True, rt_endpoints = [trigger_verification_route]\<rparr>"

definition webhook_router :: router where
  "webhook_router = \<lparr>rt_prefix = [], rt_auth = False, rt_endpoints = [webhook_route]\<rparr>"

definition apple_scim_router :: router where
  "apple_scim_router = \<lparr>rt_prefix = ''/apple-scim'', rt_auth = False, rt_endpoints =
     [authorize_route, callback_route, scim_status_route, scim_sync_route]\<rparr>"

definition app_endpoints :: "endpoint list" where
  "app_endpoints = concat (map mounted
     [root_router, wellknown_router, jwks_router, streams_router, verification_router, webhook_router, apple_scim_router])"

section \<open>Requests\<close>

datatype operation =
    ServiceRoot web_request | WellKnown | GetJwks
  | CreateStream stream_create_request | GetStream | GetStreamById pystr
  | PatchStream stream_patch_request | PatchStreamById pystr stream_patch_request
  | DeleteStream | DeleteStreamById pystr | AddSubject pydict | RemoveSubject pydict
  | StreamStatus | DeliveryStatus | RetryBlocked | DiscardPending | DiscardBlocked
  | StreamStatusById pystr | VerifyStreamById pystr | TriggerVerification "pystr option"
  | AuthentikWebhook webhook_request
  | Authorize | Callback callback_query | ScimStatus | ScimSync

text \<open>The router and the endpoint of an operation.\<close>

fun route_of :: "operation \<Rightarrow> router \<times> endpoint" where
  "route_of (ServiceRoot _) = (root_router, service_root_route)"
| "route_of WellKnown = (wellknown_router, wellknown_route)"
| "route_of GetJwks = (jwks_router, jwks_route)"
| "route_of (CreateStream _) = (streams_router, create_stream_route)"
| "route_of GetStream = (streams_router, get_stream_route)"
| "route_of (GetStreamById _) = (streams_router, get_stream_by_id_route)"
| "route_of (PatchStream _) = (streams_router, patch_stream_route)"
| "route_of (PatchStreamById _ _) = (streams_router, patch_stream_by_id_route)"
| "route_of DeleteStream = (streams_router, delete_stream_route)"
| "route_of (DeleteStreamById _) = (streams_router, delete_stream_by_id_route)"
| "route_of (AddSubject _) = (streams_router, add_subject_route)"
| "route_of (RemoveSubject _) = (streams_router, remove_subject_route)"
| "route_of StreamStatus = (streams_router, stream_status_route)"
| "route_of DeliveryStatus = (streams_router, delivery_status_route)"
| "route_of RetryBlocked = (streams_router, retry_blocked_route)"
| "route_of DiscardPending = (streams_router, discard_pending_route)"
| "route_of DiscardBlocked = (streams_router, discard_blocked_route)"
| "route_of (StreamStatusById _) = (streams_router, stream_status_by_id_route)"
| "route_of (VerifyStreamById _) = (streams_router, verify_stream_by_id_route)"
| "route_of (TriggerVerification _) = (verification_router, trigger_verification_route)"
| "route_of (AuthentikWebhook _) = (webhook_router, webhook_route)"
| "route_of Authorize = (apple_scim_router, authorize_route)"
| "route_of (Callback _) = (apple_scim_router, callback_route)"
| "route_of ScimStatus = (apple_scim_router, scim_status_route)"
| "route_of ScimSync = (apple_scim_router, scim_sync_route)"

definition endpoint_of :: "operation \<Rightarrow> endpoint" where
  "endpoint_of op = (case route_of op of (rt, ep) \<Rightarrow> ep\<lparr>ep_path := rt_prefix rt @ ep_path ep, ep_auth := ep_auth ep \<or> rt_auth rt\<rparr>)"

text \<open>
  The limiter: whether it is on, the key of a client address, and one hit on the count of a limit,
  scope and key, which answers whether the limit still holds.
\<close>

record 'l limiter =
  lm_enabled :: bool
  lm_key :: "pystr option \<Rightarrow> pystr"
  lm_hit :: "pystr \<times> pystr \<times> pystr \<Rightarrow> 'l \<Rightarrow> bool \<times> 'l"

definition DEFAULT_LIMITS :: "pystr list" where
  "DEFAULT_LIMITS = [''200/minute'']"

record deployment =
  dp_service :: service
  dp_webhook :: webhook_lib
  dp_environ :: environ
  dp_apple :: "pystr \<Rightarrow> scim_net"
  dp_source :: "pystr \<Rightarrow> source_net"

text \<open>A request: what is asked, its path, its client, and what its handling draws from the environment.\<close>

record api_request =
  rq_op :: operation
  rq_path :: pystr
  rq_host :: "pystr option"
  rq_authorization :: "pystr option"
  rq_time :: real
  rq_call :: call
  rq_scim :: scim_env
  rq_state :: pystr
  rq_consumed :: real

record 'l app_world =
  aw_world :: world
  aw_scim :: scim_world
  aw_failures :: failures
  aw_limits :: 'l
  aw_started :: nat    \<comment> \<open>initial synchronisations started by callbacks\<close>

datatype reply = Answer response | Page web_response | Redirect pystr

definition reply_code :: "reply \<Rightarrow> int" where
  "reply_code r = (case r of Answer a \<Rightarrow> code_of a | Page p \<Rightarrow> wp_status p | Redirect _ \<Rightarrow> 307)"

section \<open>Handling\<close>

text \<open>Handlers of one kind: on the tables, on the Apple connection, or reading only.\<close>

definition on_world :: "response \<times> world \<Rightarrow> 'l app_world \<Rightarrow> reply \<times> 'l app_world" where
  "on_world p w = (case p of (r, v) \<Rightarrow> (Answer r, w\<lparr>aw_world := v\<rparr>))"

definition reading :: "response \<Rightarrow> 'l app_world \<Rightarrow> reply \<times> 'l app_world" where
  "reading r w = (Answer r, w)"

text \<open>\<open>None\<close> when a requested synchronisation does not end.\<close>

fun handle :: "deployment \<Rightarrow> api_request \<Rightarrow> operation \<Rightarrow> 'l app_world \<Rightarrow> (reply \<times> 'l app_world) option" where
  "handle dp rq (ServiceRoot r) w = Some (Page (service_root (dp_environ dp) r), w)"
| "handle dp rq WellKnown w = Some (reading (Resp 200 (ssf_configuration (sv_cfg (dp_service dp)))) w)"
| "handle dp rq GetJwks w = Some (reading (jwks (sv_keys (dp_service dp))) w)"
| "handle dp rq (CreateStream b) w = Some (on_world (create_stream_endpoint (dp_service dp) (rq_call rq) b (aw_world w)) w)"
| "handle dp rq GetStream w = Some (reading (get_stream_endpoint (dp_service dp) (aw_world w)) w)"
| "handle dp rq (GetStreamById i) w = Some (reading (get_stream_by_id_endpoint (dp_service dp) i (aw_world w)) w)"
| "handle dp rq (PatchStream b) w = Some (on_world (patch_stream_endpoint (dp_service dp) (rq_call rq) b (aw_world w)) w)"
| "handle dp rq (PatchStreamById i b) w = Some (on_world (patch_stream_by_id_endpoint (dp_service dp) (rq_call rq) i b (aw_world w)) w)"
| "handle dp rq DeleteStream w = Some (on_world (delete_stream_endpoint (dp_service dp) (rq_call rq) (aw_world w)) w)"
| "handle dp rq (DeleteStreamById i) w = Some (on_world (delete_stream_by_id_endpoint i (aw_world w)) w)"
| "handle dp rq (AddSubject d) w = Some (reading (add_subject d) w)"
| "handle dp rq (RemoveSubject d) w = Some (reading (remove_subject d) w)"
| "handle dp rq StreamStatus w = Some (reading (stream_status_endpoint (dp_service dp) (aw_world w)) w)"
| "handle dp rq DeliveryStatus w = Some (reading (delivery_status (c_now (rq_call rq)) (aw_world w)) w)"
| "handle dp rq RetryBlocked w = Some (on_world (retry_blocked_deliveries (c_now (rq_call rq)) (aw_world w)) w)"
| "handle dp rq DiscardPending w = Some (on_world (discard_pending_deliveries (aw_world w)) w)"
| "handle dp rq DiscardBlocked w = Some (on_world (discard_blocked_deliveries (aw_world w)) w)"
| "handle dp rq (StreamStatusById i) w = Some (reading (stream_status_by_id (dp_service dp) i (aw_world w)) w)"
| "handle dp rq (VerifyStreamById i) w = Some (on_world (verify_stream_by_id (dp_service dp) (rq_call rq) i (aw_world w)) w)"
| "handle dp rq (TriggerVerification st) w = Some (on_world (trigger_verification (dp_service dp) (rq_call rq) st (aw_world w)) w)"
| "handle dp rq (AuthentikWebhook q) w = Some (on_world (authentik_webhook (dp_webhook dp) (dp_service dp) (rq_call rq) q (aw_world w)) w)"
| "handle dp rq Authorize w =
     (case authorize (sv_cfg (dp_service dp)) (rq_time rq) (rq_state rq) (aw_scim w) of
        (r, m) \<Rightarrow> Some (case r of Inl e \<Rightarrow> Answer e | Inr url \<Rightarrow> Redirect url, w\<lparr>aw_scim := m\<rparr>))"
| "handle dp rq (Callback q) w =
     (case callback (sv_cfg (dp_service dp)) (rq_scim rq) (rq_time rq) (rq_consumed rq) q (aw_scim w) of
        ((r, started), m) \<Rightarrow> Some (Answer r, w\<lparr>aw_scim := m, aw_started := aw_started w + (if started then 1 else 0)\<rparr>))"
| "handle dp rq ScimStatus w = Some (reading (scim_status (sv_cfg (dp_service dp)) (c_now (rq_call rq)) (m_tokens (aw_scim w))) w)"
| "handle dp rq ScimSync w =
     map_option (\<lambda>(r, m). (Answer r, w\<lparr>aw_scim := m\<rparr>))
       (sync_endpoint (sv_cfg (dp_service dp)) (rq_scim rq) (dp_apple dp) (dp_source dp) (aw_scim w))"

definition too_many :: response where
  "too_many = HttpError 429 ''Rate limit exceeded''"

definition auth_response :: "auth_error \<Rightarrow> response" where
  "auth_response e =
     (case e of AuthRequired401 \<Rightarrow> HttpError 401 ''Authorization required'' | Forbidden403 \<Rightarrow> HttpError 403 ''Forbidden''
      | RateLimited429 \<Rightarrow> too_many)"

text \<open>All limits must hold; the first that does not ends the evaluation.\<close>

fun hit_all :: "'l limiter \<Rightarrow> (pystr \<times> pystr \<times> pystr) list \<Rightarrow> 'l \<Rightarrow> bool \<times> 'l" where
  "hit_all lm [] l = (True, l)"
| "hit_all lm (b # rest) l = (case lm_hit lm b l of (True, l') \<Rightarrow> hit_all lm rest l' | (False, l') \<Rightarrow> (False, l'))"

definition limited :: "'l limiter \<Rightarrow> (pystr \<times> pystr \<times> pystr) list \<Rightarrow> ('l app_world \<Rightarrow> (reply \<times> 'l app_world) option) \<Rightarrow>
    'l app_world \<Rightarrow> (reply \<times> 'l app_world) option" where
  "limited lm buckets go w =
     (if \<not> lm_enabled lm then go w
      else case hit_all lm buckets (aw_limits w) of
        (True, l) \<Rightarrow> go (w\<lparr>aw_limits := l\<rparr>)
      | (False, l) \<Rightarrow> Some (Answer too_many, w\<lparr>aw_limits := l\<rparr>))"

text \<open>The counts that a request hits before its dependencies, and just before its handler.\<close>

definition default_buckets :: "'l limiter \<Rightarrow> api_request \<Rightarrow> (pystr \<times> pystr \<times> pystr) list" where
  "default_buckets lm rq =
     (if ep_limit (endpoint_of (rq_op rq)) = None then map (\<lambda>l. (l, rq_path rq, lm_key lm (rq_host rq))) DEFAULT_LIMITS else [])"

definition own_buckets :: "'l limiter \<Rightarrow> api_request \<Rightarrow> (pystr \<times> pystr \<times> pystr) list" where
  "own_buckets lm rq =
     (case ep_limit (endpoint_of (rq_op rq)) of
        None \<Rightarrow> []
      | Some (l, scope) \<Rightarrow> [(l, case scope of Some s \<Rightarrow> s | None \<Rightarrow> rq_path rq, lm_key lm (rq_host rq))])"

definition guarded :: "deployment \<Rightarrow> 'l limiter \<Rightarrow> api_request \<Rightarrow> ('l app_world \<Rightarrow> (reply \<times> 'l app_world) option) \<Rightarrow>
    'l app_world \<Rightarrow> (reply \<times> 'l app_world) option" where
  "guarded dp lm rq go w =
     (if \<not> ep_auth (endpoint_of (rq_op rq)) then go w
      else case require_management_auth (sv_cfg (dp_service dp)) (lm_enabled lm) (rq_time rq) (rq_host rq) (rq_authorization rq) (aw_failures w) of
        (Inl e, fs) \<Rightarrow> Some (Answer (auth_response e), w\<lparr>aw_failures := fs\<rparr>)
      | (Inr _, fs) \<Rightarrow> go (w\<lparr>aw_failures := fs\<rparr>))"

text \<open>The middleware with the default limits, the dependencies of the router, the decorator, the handler.\<close>

definition serve :: "deployment \<Rightarrow> 'l limiter \<Rightarrow> api_request \<Rightarrow> 'l app_world \<Rightarrow> (reply \<times> 'l app_world) option" where
  "serve dp lm rq =
     limited lm (default_buckets lm rq)
       (guarded dp lm rq (limited lm (own_buckets lm rq) (handle dp rq (rq_op rq))))"

section \<open>Who may do what\<close>

fun public_operation :: "operation \<Rightarrow> bool" where
  "public_operation (ServiceRoot _) = True"
| "public_operation WellKnown = True"
| "public_operation GetJwks = True"
| "public_operation (AuthentikWebhook _) = True"
| "public_operation Authorize = True"
| "public_operation (Callback _) = True"
| "public_operation _ = False"

lemmas routers = root_router_def wellknown_router_def jwks_router_def streams_router_def verification_router_def
  webhook_router_def apple_scim_router_def

lemmas endpoints = plain_endpoint_def create_stream_route_def get_stream_route_def get_stream_by_id_route_def
  patch_stream_route_def patch_stream_by_id_route_def delete_stream_route_def delete_stream_by_id_route_def
  add_subject_route_def remove_subject_route_def stream_status_route_def delivery_status_route_def
  retry_blocked_route_def discard_pending_route_def discard_blocked_route_def stream_status_by_id_route_def
  verify_stream_by_id_route_def trigger_verification_route_def webhook_route_def authorize_route_def
  callback_route_def scim_status_route_def scim_sync_route_def service_root_route_def wellknown_route_def jwks_route_def

text \<open>Every operation is at an endpoint of the application.\<close>

lemma endpoint_of_mounted: "endpoint_of op \<in> set app_endpoints"
  by (cases op) (simp_all add: endpoint_of_def app_endpoints_def mounted_def routers)

lemma ep_auth_iff: "ep_auth (endpoint_of op) \<longleftrightarrow> \<not> public_operation op"
  by (cases op) (simp_all add: endpoint_of_def routers endpoints)

definition authorised :: "deployment \<Rightarrow> api_request \<Rightarrow> bool" where
  "authorised dp rq \<longleftrightarrow> rq_authorization rq = Some (''Bearer '' @ ssf_management_token (sv_cfg (dp_service dp)))"

lemma guarded_passes: "public_operation (rq_op rq) \<or> authorised dp rq \<Longrightarrow> guarded dp lm rq go w = go w"
  using management_auth_spec [of "sv_cfg (dp_service dp)" "lm_enabled lm" "rq_time rq" "rq_host rq" "rq_authorization rq" "aw_failures w"]
  by (auto simp: guarded_def ep_auth_iff authorised_def split: prod.splits sum.splits)

lemma guarded_refuses:
  assumes "\<not> public_operation (rq_op rq)" "\<not> authorised dp rq"
  shows "\<exists>e fs. guarded dp lm rq go w = Some (Answer (auth_response e), w\<lparr>aw_failures := fs\<rparr>)"
proof -
  obtain q fs where q: "require_management_auth (sv_cfg (dp_service dp)) (lm_enabled lm) (rq_time rq) (rq_host rq) (rq_authorization rq) (aw_failures w) = (q, fs)"
    by fastforce
  with management_auth_spec [of "sv_cfg (dp_service dp)" "lm_enabled lm" "rq_time rq" "rq_host rq" "rq_authorization rq" "aw_failures w"]
    assms(2) have "q \<noteq> Inr ()" by (auto simp: authorised_def)
  then obtain e where "q = Inl e" by (cases q) auto
  with q assms(1) show ?thesis by (auto simp: guarded_def ep_auth_iff)
qed

lemma auth_response_code: "code_of (auth_response e) \<in> {401, 403, 429}"
  by (cases e) (simp_all add: auth_response_def code_of_def too_many_def)

lemma default_or_own: "ep_limit (endpoint_of (rq_op rq)) \<noteq> None \<Longrightarrow> default_buckets lm rq = []"
  by (auto simp: default_buckets_def)

lemma limited_Nil [simp]: "limited lm [] go w = go w"
  by (simp add: limited_def)

lemma limited_cases:
  obtains (admitted) l where "limited lm buckets go w = go (w\<lparr>aw_limits := l\<rparr>)" "buckets = [] \<Longrightarrow> l = aw_limits w"
  | (refused) l where "limited lm buckets go w = Some (Answer too_many, w\<lparr>aw_limits := l\<rparr>)" "buckets \<noteq> []"
proof (cases "lm_enabled lm \<and> buckets \<noteq> []")
  case True
  with that show thesis
    by (cases "hit_all lm buckets (aw_limits w)"; cases "fst (hit_all lm buckets (aw_limits w))") (auto simp: limited_def)
next
  case False
  then show thesis by (intro that(1) [of "aw_limits w"]) (auto simp: limited_def)
qed

section \<open>Statuses\<close>

lemma code_simps [simp]:
  "code_of (Resp k j) = k" "code_of (HttpError k m) = k" "code_of Crash = 500"
  "reply_code (Answer a) = code_of a" "reply_code (Redirect u) = 307" "reply_code (Page p) = wp_status p"
  by (simp_all add: code_of_def reply_code_def)

text \<open>The statuses of the handlers.\<close>

lemma found_code: "get_stream_or_404 sv sid w = Inl e \<Longrightarrow> code_of e \<in> {404, 500}"
  by (auto simp: get_stream_or_404_def split: sum.splits option.splits if_splits)

lemma respond_code: "code_of (respond (get_stream_or_404 sv sid w) (\<lambda>st. Resp 200 (f st))) \<in> {200, 404, 500}"
  using found_code by (fastforce simp: respond_def split: sum.splits)

lemma status_code: "code_of (stream_status_endpoint sv w) \<in> {200, 500}"
  by (simp add: stream_status_endpoint_def split: sum.splits option.splits)

lemma verify_code: "verify_stream sv c (get_stream_or_404 sv sid w) st w = (r, w') \<Longrightarrow> code_of r \<in> {202, 404, 502, 500}"
  by (auto simp: verify_stream_def dest: found_code split: sum.splits push_result.splits bool.splits prod.splits)

lemma create_code: "create_stream_endpoint sv c b w = (r, w') \<Longrightarrow> code_of r \<in> {201, 400, 502, 500}"
  by (auto simp: create_stream_endpoint_def split: sum.splits push_result.splits bool.splits prod.splits)

lemma patch_code: "patch_stream_body sv c b w = (r, w') \<Longrightarrow> code_of r \<in> {200, 400, 404, 500}"
  by (auto simp: patch_stream_body_def split: sum.splits option.splits db_error.splits prod.splits if_splits)

lemma patch_by_id_code: "patch_stream_by_id_endpoint sv c i b w = (r, w') \<Longrightarrow> code_of r \<in> {200, 400, 404, 500}"
  by (auto simp: patch_stream_by_id_endpoint_def dest: found_code patch_code split: sum.splits)

lemma delete_code: "delete_stream_endpoint sv c w = (r, w') \<Longrightarrow> code_of r \<in> {204, 500}"
  by (auto simp: delete_stream_endpoint_def split: sum.splits)

lemma delete_by_id_code: "delete_stream_by_id_endpoint i w = (r, w') \<Longrightarrow> code_of r \<in> {204, 404}"
  by (auto simp: delete_stream_by_id_endpoint_def split: prod.splits if_splits)

lemma authenticate_code: "authenticate_webhook wl cfg q raw = Some r \<Longrightarrow> code_of r \<in> {401, 500}"
  by (auto simp: authenticate_webhook_def Let_def split: if_splits option.splits bool.splits)

lemma dispatch_code: "dispatch_events sv c p w = (r, w') \<Longrightarrow> code_of r \<in> {200, 500, 503}"
  by (auto simp: dispatch_events_def queue_response_def ignored_def accepted_def Let_def
      split: option.splits sum.splits prod.splits enqueue_error.splits db_error.splits if_splits)

lemma webhook_code: "authentik_webhook wl sv c q w = (r, w') \<Longrightarrow> code_of r \<in> {200, 400, 401, 413, 500, 503}"
  by (auto simp: authentik_webhook_def dest: authenticate_code dispatch_code split: option.splits)

lemma authorize_code: "authorize cfg now state w = (Inl e, w') \<Longrightarrow> code_of e = 503"
  by (auto simp: authorize_def not_configured_def split: if_splits)

lemma exchange_code:
  "exchange_authorization_code cfg env code w = (Inl e, w') \<Longrightarrow> code_of e \<in> {502, 500}"
  by (auto simp: exchange_authorization_code_def Let_def split: scim_reply.splits option.splits json.splits if_splits)

lemma callback_operation_code:
  "callback_operation cfg env now code state w = (Inl e, w') \<Longrightarrow> code_of e \<in> {400, 502, 500}"
  by (auto simp: callback_operation_def invalid_state_def dest: exchange_code split: prod.splits bool.splits)

lemma callback_code: "callback cfg env t1 t2 q w = ((r, b), w') \<Longrightarrow> code_of r \<in> {200, 400, 409, 502, 503, 500}"
  by (auto simp: callback_def not_configured_def invalid_state_def authorized_response_def dest: callback_operation_code
      split: option.splits prod.splits bool.splits sum.splits entry.splits if_splits)

lemma scim_status_code: "code_of (scim_status cfg now tokens) = 200"
  by (simp add: scim_status_def split: option.splits)

lemma sync_response_code: "code_of (sync_response cfg oc) \<in> {200, 401, 502, 500}"
  by (simp add: sync_response_def split: sync_outcome.splits scim_error.splits)

lemma sync_code: "sync_endpoint cfg env apple source w = Some (r, w') \<Longrightarrow> code_of r \<in> {200, 401, 409, 502, 503, 500}"
  using sync_response_code
  by (fastforce simp: sync_endpoint_def not_configured_def split: if_splits option.splits entry.splits)

text \<open>What an endpoint may answer: its own status, the errors it documents, and what its guards answer.\<close>

definition documented :: "operation \<Rightarrow> int set" where
  "documented op = (let ep = endpoint_of op in
     {ep_status ep, 500, 429} \<union> set (ep_errors ep) \<union> (if ep_auth ep then {401, 403} else {}))"

definition handler_statuses :: "operation \<Rightarrow> int set" where
  "handler_statuses op = {ep_status (endpoint_of op), 500} \<union> set (ep_errors (endpoint_of op))"

lemmas statuses = handler_statuses_def endpoint_of_def routers endpoints

lemmas handler_codes = verify_code create_code patch_code patch_by_id_code delete_code delete_by_id_code webhook_code
  authorize_code callback_code sync_code

text \<open>The handlers that only read.\<close>

lemma reading_codes:
  "code_of (get_stream_endpoint sv w) \<in> {200, 404, 500}" "code_of (get_stream_by_id_endpoint sv i w) \<in> {200, 404, 500}"
  "code_of (stream_status_by_id sv i w) \<in> {200, 404, 500}" "code_of (stream_status_endpoint sv w) \<in> {200, 500}"
  "code_of (jwks kf) \<in> {200, 500}"
  using respond_code status_code
  by (simp_all add: get_stream_endpoint_def get_stream_by_id_endpoint_def stream_status_by_id_def jwks_def split: sum.splits)

definition reply_documented :: "operation \<Rightarrow> int set \<Rightarrow> reply \<Rightarrow> bool" where
  "reply_documented op codes r \<longleftrightarrow> (case r of Redirect _ \<Rightarrow> op = Authorize | _ \<Rightarrow> reply_code r \<in> codes)"

lemma handle_code:
  assumes "handle dp rq op w = Some (r, w')"
  shows "reply_documented op (handler_statuses op) r"
proof (cases op)
  case GetStream
  with assms reading_codes(1) [of "dp_service dp" "aw_world w"] show ?thesis by (auto simp: reply_documented_def statuses reading_def)
next
  case (GetStreamById i)
  with assms reading_codes(2) [of "dp_service dp" i "aw_world w"] show ?thesis by (auto simp: reply_documented_def statuses reading_def)
next
  case (StreamStatusById i)
  with assms reading_codes(3) [of "dp_service dp" i "aw_world w"] show ?thesis by (auto simp: reply_documented_def statuses reading_def)
next
  case StreamStatus
  with assms reading_codes(4) [of "dp_service dp" "aw_world w"] show ?thesis by (auto simp: reply_documented_def statuses reading_def)
next
  case GetJwks
  with assms reading_codes(5) [of "sv_keys (dp_service dp)"] show ?thesis by (auto simp: reply_documented_def statuses reading_def)
qed (use assms in
   \<open>auto simp: reply_documented_def statuses on_world_def reading_def verify_stream_by_id_def trigger_verification_def patch_stream_endpoint_def
      service_root_def make_response_def add_subject_def remove_subject_def delivery_status_def retry_blocked_deliveries_def
      discard_pending_deliveries_def discard_blocked_deliveries_def count_response_def scim_status_code Let_def
      dest: handler_codes split: sum.splits prod.splits if_splits\<close>)

section \<open>Budgets\<close>

text \<open>
  The documented behaviour of the limiter inside one window: a hit counts, and the limit holds as
  long as the count before was below its amount.
\<close>

definition counts_hits :: "'l limiter \<Rightarrow> (pystr \<Rightarrow> nat) \<Rightarrow> ('l \<Rightarrow> pystr \<times> pystr \<times> pystr \<Rightarrow> nat) \<Rightarrow> bool" where
  "counts_hits lm amount used \<longleftrightarrow>
     (\<forall>b l. fst (lm_hit lm b l) = (used l b < amount (fst b)) \<and> used (snd (lm_hit lm b l)) = (used l)(b := Suc (used l b)))"

fun serve_all :: "deployment \<Rightarrow> 'l limiter \<Rightarrow> api_request list \<Rightarrow> 'l app_world \<Rightarrow> (reply list \<times> 'l app_world) option" where
  "serve_all dp lm [] w = Some ([], w)"
| "serve_all dp lm (rq # rqs) w =
     (case serve dp lm rq w of
        None \<Rightarrow> None
      | Some (r, w') \<Rightarrow> map_option (\<lambda>(rs, w''). (r # rs, w'')) (serve_all dp lm rqs w'))"

fun patch_operation :: "operation \<Rightarrow> bool" where
  "patch_operation (PatchStream _) = True"
| "patch_operation (PatchStreamById _ _) = True"
| "patch_operation _ = False"

definition patches :: "deployment \<Rightarrow> 'l limiter \<Rightarrow> pystr \<Rightarrow> api_request \<Rightarrow> bool" where
  "patches dp lm key rq \<longleftrightarrow> patch_operation (rq_op rq) \<and> authorised dp rq \<and> lm_key lm (rq_host rq) = key"

definition patch_bucket :: "pystr \<Rightarrow> pystr \<times> pystr \<times> pystr" where
  "patch_bucket key = (''20/minute'', ''patch_stream'', key)"

lemma handle_keeps: "handle dp rq op w = Some (r, w') \<Longrightarrow> aw_limits w' = aw_limits w \<and> aw_failures w' = aw_failures w"
  by (cases op) (auto simp: on_world_def reading_def split: prod.splits)

lemma buckets_of:
  "patch_operation (rq_op rq) \<Longrightarrow> default_buckets lm rq = [] \<and> own_buckets lm rq = [patch_bucket (lm_key lm (rq_host rq))]"
  "\<not> patch_operation (rq_op rq) \<Longrightarrow> patch_bucket key \<notin> set (default_buckets lm rq) \<union> set (own_buckets lm rq)"
  subgoal by (cases "rq_op rq") (simp_all add: default_buckets_def own_buckets_def endpoint_of_def routers endpoints patch_bucket_def)
  subgoal by (cases "rq_op rq")
      (simp_all add: default_buckets_def own_buckets_def endpoint_of_def routers endpoints patch_bucket_def DEFAULT_LIMITS_def)
  done

lemma hit_all_other: "counts_hits lm amount used \<Longrightarrow> b \<notin> set buckets \<Longrightarrow> used (snd (hit_all lm buckets l)) b = used l b"
proof (induction buckets arbitrary: l)
  case (Cons c cs)
  obtain q l' where h: "lm_hit lm c l = (q, l')" by fastforce
  with Cons.prems have "used l' = (used l)(c := Suc (used l c))" unfolding counts_hits_def by (metis snd_conv)
  with Cons h show ?case by (cases q) auto
qed simp

lemma limited_other:
  assumes "counts_hits lm amount used" "b \<notin> set buckets" "limited lm buckets go w = Some (r, w')"
    and "\<And>v r v'. go v = Some (r, v') \<Longrightarrow> used (aw_limits v') b = used (aw_limits v) b"
  shows "used (aw_limits w') b = used (aw_limits w) b"
  using assms(3,4) hit_all_other [OF assms(1,2), of "aw_limits w"]
  by (fastforce simp: limited_def split: if_splits prod.splits bool.splits)

lemma guarded_other:
  assumes "guarded dp lm rq go w = Some (r, w')" "\<And>v r v'. go v = Some (r, v') \<Longrightarrow> used (aw_limits v') b = used (aw_limits v) b"
  shows "used (aw_limits w') b = used (aw_limits w) b"
  using assms by (fastforce simp: guarded_def split: if_splits prod.splits sum.splits)

text \<open>An authorised patch takes one unit of the shared budget of its client, or is refused.\<close>

lemma serve_patch:
  assumes "counts_hits lm amount used" "lm_enabled lm" "patch_operation (rq_op rq)" "authorised dp rq"
  obtains l where "used l = (used (aw_limits w))(patch_bucket (lm_key lm (rq_host rq)) := Suc (used (aw_limits w) (patch_bucket (lm_key lm (rq_host rq)))))"
    "serve dp lm rq w = (if used (aw_limits w) (patch_bucket (lm_key lm (rq_host rq))) < amount ''20/minute''
       then handle dp rq (rq_op rq) (w\<lparr>aw_limits := l\<rparr>) else Some (Answer too_many, w\<lparr>aw_limits := l\<rparr>))"
proof -
  let ?b = "patch_bucket (lm_key lm (rq_host rq))"
  obtain q l where h: "lm_hit lm ?b (aw_limits w) = (q, l)" by fastforce
  have "q = (used (aw_limits w) ?b < amount ''20/minute'')" "used l = (used (aw_limits w))(?b := Suc (used (aw_limits w) ?b))"
    using assms(1) h unfolding counts_hits_def by (metis fst_conv snd_conv patch_bucket_def)+
  moreover have "serve dp lm rq w = limited lm [?b] (handle dp rq (rq_op rq)) w"
    using buckets_of(1) [OF assms(3), of lm] guarded_passes [of rq dp lm] assms(4) by (simp add: serve_def)
  ultimately show thesis
    by (intro that [of l]) (simp_all add: limited_def assms(2) h split: bool.splits)
qed

lemma patch_status: "patch_operation op \<Longrightarrow> handle dp rq op w = Some (r, w') \<Longrightarrow> reply_code r \<noteq> 429"
  using handle_code [of dp rq op w r w'] by (cases op) (auto simp: reply_documented_def statuses split: reply.splits)

text \<open>Only authorised patches of the client count against its patch budget, and each of them does.\<close>

lemma serve_budget:
  assumes "counts_hits lm amount used" "lm_enabled lm" "serve dp lm rq w = Some (r, w')"
  shows "used (aw_limits w') (patch_bucket key) = used (aw_limits w) (patch_bucket key) + (if patches dp lm key rq then 1 else 0)
    \<and> (patches dp lm key rq \<longrightarrow> (reply_code r \<noteq> 429 \<longleftrightarrow> used (aw_limits w) (patch_bucket key) < amount ''20/minute''))"
proof -
  let ?go = "limited lm (own_buckets lm rq) (handle dp rq (rq_op rq))"
  consider (other) "\<not> patch_operation (rq_op rq)" | (unauthorised) "patch_operation (rq_op rq)" "\<not> authorised dp rq"
    | (patch) "patch_operation (rq_op rq)" "authorised dp rq" by blast
  then show ?thesis
  proof cases
    case other
    have away: "patch_bucket key \<notin> set (default_buckets lm rq)" "patch_bucket key \<notin> set (own_buckets lm rq)"
      using buckets_of(2) [OF other, of key lm] by simp_all
    have go: "used (aw_limits v') (patch_bucket key) = used (aw_limits v) (patch_bucket key)" if "?go v = Some (q, v')" for v q v'
      by (rule limited_other [OF assms(1) away(2) that]) (simp add: handle_keeps)
    have "used (aw_limits v') (patch_bucket key) = used (aw_limits v) (patch_bucket key)" if "guarded dp lm rq ?go v = Some (q, v')" for v q v'
      using guarded_other [OF that, of used "patch_bucket key"] go by blast
    with limited_other [OF assms(1) away(1) assms(3) [unfolded serve_def]]
    have "used (aw_limits w') (patch_bucket key) = used (aw_limits w) (patch_bucket key)" by blast
    with other show ?thesis by (simp add: patches_def)
  next
    case unauthorised
    then have "\<not> public_operation (rq_op rq)" by (cases "rq_op rq") simp_all
    from guarded_refuses [OF this unauthorised(2)] obtain e fs where
      "guarded dp lm rq ?go w = Some (Answer (auth_response e), w\<lparr>aw_failures := fs\<rparr>)" by blast
    then have "aw_limits w' = aw_limits w" using assms(3) buckets_of(1) [OF unauthorised(1), of lm] by (auto simp: serve_def)
    with unauthorised(2) show ?thesis by (simp add: patches_def)
  next
    case patch
    obtain l where l: "used l = (used (aw_limits w))(patch_bucket (lm_key lm (rq_host rq)) := Suc (used (aw_limits w) (patch_bucket (lm_key lm (rq_host rq)))))"
      "serve dp lm rq w = (if used (aw_limits w) (patch_bucket (lm_key lm (rq_host rq))) < amount ''20/minute''
       then handle dp rq (rq_op rq) (w\<lparr>aw_limits := l\<rparr>) else Some (Answer too_many, w\<lparr>aw_limits := l\<rparr>))"
      by (rule serve_patch [OF assms(1,2) patch])
    have "aw_limits w' = l"
      using l(2) assms(3) handle_keeps [of dp rq "rq_op rq" "w\<lparr>aw_limits := l\<rparr>" r w'] by (auto split: if_splits)
    moreover have "reply_code r \<noteq> 429 \<longleftrightarrow> used (aw_limits w) (patch_bucket (lm_key lm (rq_host rq))) < amount ''20/minute''"
      using l(2) assms(3) patch_status [OF patch(1), of dp rq "w\<lparr>aw_limits := l\<rparr>" r w'] by (auto simp: too_many_def split: if_splits)
    ultimately show ?thesis using l(1) patch by (auto simp: patches_def patch_bucket_def)
  qed
qed

section \<open>Properties\<close>

text \<open>
  C4. Every management operation needs the token: a request without exactly the configured bearer
  token to any endpoint but the discovery pages, the keys, the webhook and the two steps of the
  authorisation is answered 401, 403 or 429 before its handler runs, so that neither the tables, the
  requests sent nor the Apple connection change, and it does not use up the limit that the
  decorator of the endpoint sets.
\<close>

theorem management_guarded:
  assumes "\<not> public_operation (rq_op rq)"
    and "rq_authorization rq \<noteq> Some (''Bearer '' @ ssf_management_token (sv_cfg (dp_service dp)))"
  shows "\<exists>r l fs. serve dp lm rq w = Some (Answer r, w\<lparr>aw_limits := l, aw_failures := fs\<rparr>) \<and> code_of r \<in> {401, 403, 429}
    \<and> (ep_limit (endpoint_of (rq_op rq)) \<noteq> None \<longrightarrow> l = aw_limits w)"
proof -
  have un: "\<not> authorised dp rq" using assms(2) by (simp add: authorised_def)
  show ?thesis
  proof (cases rule: limited_cases [of lm "default_buckets lm rq" "guarded dp lm rq (limited lm (own_buckets lm rq) (handle dp rq (rq_op rq)))" w])
    case (admitted l)
    obtain e fs where "guarded dp lm rq (limited lm (own_buckets lm rq) (handle dp rq (rq_op rq))) (w\<lparr>aw_limits := l\<rparr>)
        = Some (Answer (auth_response e), w\<lparr>aw_limits := l, aw_failures := fs\<rparr>)"
      using guarded_refuses [OF assms(1) un, of lm "limited lm (own_buckets lm rq) (handle dp rq (rq_op rq))" "w\<lparr>aw_limits := l\<rparr>"] by auto
    moreover have "ep_limit (endpoint_of (rq_op rq)) \<noteq> None \<longrightarrow> l = aw_limits w"
      using admitted(2) default_or_own [of rq lm] by blast
    ultimately show ?thesis
      using admitted(1) auth_response_code [of e]
      by (intro exI [of _ "auth_response e"] exI [of _ l] exI [of _ fs]) (simp add: serve_def)
  next
    case (refused l)
    with default_or_own [of rq lm] show ?thesis
      by (intro exI [of _ too_many] exI [of _ l] exI [of _ "aw_failures w"]) (auto simp: serve_def too_many_def)
  qed
qed

text \<open>A limiter that counts hits per limit, scope and client, for the instances.\<close>

definition counting_limiter :: "(pystr \<times> pystr \<times> pystr \<Rightarrow> nat) limiter" where
  "counting_limiter = \<lparr>lm_enabled = True, lm_key = (\<lambda>host. case host of Some h \<Rightarrow> h | None \<Rightarrow> ''127.0.0.1''),
     lm_hit = (\<lambda>b l. (l b < digits_val (fst (partition_at CHR ''/'' (fst b))), l(b := Suc (l b))))\<rparr>"

definition example_deployment :: deployment where
  "example_deployment = \<lparr>dp_service = example_service, dp_webhook = toy_webhook, dp_environ = (\<lambda>_. None),
     dp_apple = (\<lambda>_. patching_net), dp_source = (\<lambda>_. paged_source)\<rparr>"

definition example_request_of :: "operation \<Rightarrow> pystr \<Rightarrow> pystr option \<Rightarrow> api_request" where
  "example_request_of op path authorization =
     \<lparr>rq_op = op, rq_path = path, rq_host = Some ''192.0.2.7'', rq_authorization = authorization, rq_time = 0, rq_call = example_call,
      rq_scim = example_env_at 1000, rq_state = ''s'', rq_consumed = 0\<rparr>"

definition example_app :: "(pystr \<times> pystr \<times> pystr \<Rightarrow> nat) app_world" where
  "example_app = \<lparr>aw_world = \<lparr>w_db = saved_db, w_sent = []\<rparr>, aw_scim = example_world, aw_failures = (\<lambda>_. None),
     aw_limits = (\<lambda>_. 0), aw_started = 0\<rparr>"

theorem management_guarded_witness:
  "\<exists>r w'. serve example_deployment counting_limiter (example_request_of DiscardPending ''/ssf/delivery/pending'' (Some ''Bearer x'')) example_app
       = Some (Answer r, w') \<and> code_of r \<in> {401, 403, 429} \<and> w_db (aw_world w') = saved_db \<and> aw_limits w' = (\<lambda>_. 0)"
proof -
  let ?rq = "example_request_of DiscardPending ''/ssf/delivery/pending'' (Some ''Bearer x'')"
  have "\<not> public_operation (rq_op ?rq)" "ep_limit (endpoint_of (rq_op ?rq)) \<noteq> None"
    "rq_authorization ?rq \<noteq> Some (''Bearer '' @ ssf_management_token (sv_cfg (dp_service example_deployment)))"
    by (simp_all add: example_request_of_def example_deployment_def example_service_def example_settings_def statuses)
  from management_guarded [OF this(1,3), of counting_limiter example_app] this(2) show ?thesis
    by (fastforce simp: example_app_def)
qed

lemma handler_documented: "handler_statuses op \<subseteq> documented op" "429 \<in> documented op"
  by (auto simp: handler_statuses_def documented_def Let_def)

lemma reply_documented_mono: "reply_documented op A r \<Longrightarrow> A \<subseteq> B \<Longrightarrow> reply_documented op B r"
  by (cases r) (auto simp: reply_documented_def)

lemma refusal_documented: "\<not> public_operation op \<Longrightarrow> {401, 403, 429} \<subseteq> documented op"
  by (simp add: documented_def Let_def ep_auth_iff)

lemma limited_documented:
  assumes "limited lm buckets go w = Some (r, w')" "\<And>v r v'. go v = Some (r, v') \<Longrightarrow> reply_documented op (documented op) r"
  shows "reply_documented op (documented op) r"
proof (cases rule: limited_cases [of lm buckets go w])
  case (admitted l)
  with assms show ?thesis by simp
next
  case (refused l)
  with assms(1) handler_documented(2) show ?thesis by (auto simp: too_many_def reply_documented_def)
qed

text \<open>
  C33. An endpoint answers a request whose arguments were accepted only with what its decorator
  documents: the endpoint's own status, one of its documented errors, the 429 of a limit, the 500 of an
  unhandled exception, or, where the bearer token is required, 401 or 403. The one reply without a
  documented status is the redirection, and only \<^verbatim>\<open>authorize\<close> makes it. Requests that the framework
  refuses while it validates the arguments (422) never reach these functions.
\<close>

theorem documented_statuses:
  assumes "serve dp lm rq w = Some (r, w')"
  shows "case r of Redirect _ \<Rightarrow> rq_op rq = Authorize
    | _ \<Rightarrow> reply_code r \<in> {ep_status (endpoint_of (rq_op rq)), 500, 429} \<union> set (ep_errors (endpoint_of (rq_op rq)))
        \<union> (if ep_auth (endpoint_of (rq_op rq)) then {401, 403} else {})"
proof -
  have own: "reply_documented (rq_op rq) (documented (rq_op rq)) q"
    if "limited lm (own_buckets lm rq) (handle dp rq (rq_op rq)) v = Some (q, v')" for v q v'
    by (rule limited_documented [OF that], rule reply_documented_mono [OF handle_code handler_documented(1)])
  have "reply_documented (rq_op rq) (documented (rq_op rq)) q"
    if g: "guarded dp lm rq (limited lm (own_buckets lm rq) (handle dp rq (rq_op rq))) v = Some (q, v')" for v q v'
  proof (cases "public_operation (rq_op rq) \<or> authorised dp rq")
    case True
    with own g show ?thesis by (simp add: guarded_passes)
  next
    case False
    with guarded_refuses [of rq dp lm "limited lm (own_buckets lm rq) (handle dp rq (rq_op rq))" v] g obtain e where "q = Answer (auth_response e)" by fastforce
    with False auth_response_code [of e] refusal_documented [of "rq_op rq"] show ?thesis by (auto simp: reply_documented_def)
  qed
  with assms limited_documented have "reply_documented (rq_op rq) (documented (rq_op rq)) r" unfolding serve_def by blast
  then show ?thesis unfolding reply_documented_def documented_def Let_def .
qed

theorem documented_statuses_witness:
  "\<exists>r w'. serve example_deployment counting_limiter (example_request_of GetStream ''/ssf/streams'' None) example_app = Some (r, w')
     \<and> reply_code r \<in> {200, 401, 403, 404, 429, 500}"
proof -
  let ?rq = "example_request_of GetStream ''/ssf/streams'' None"
  obtain r w' where s: "serve example_deployment counting_limiter ?rq example_app = Some (r, w')"
    by (cases "serve example_deployment counting_limiter ?rq example_app")
       (auto simp: serve_def limited_def guarded_def reading_def example_request_of_def split: if_splits prod.splits bool.splits sum.splits)
  with documented_statuses [OF s] show ?thesis
    by (auto simp: statuses example_request_of_def split: reply.splits if_splits)
qed

text \<open>
  C32. The two ways to patch the stream share one budget, and nobody else can use it up: in any
  sequence of requests within one window of the limiter, whatever else is asked by whomever, exactly
  the first twenty authorised patches of a client, by either path, get past the limit.
\<close>

theorem patch_budget_shared:
  assumes "counts_hits lm amount used" "amount ''20/minute'' = 20" "lm_enabled lm"
    and "used (aw_limits w) (''20/minute'', ''patch_stream'', key) = 0"
    and "serve_all dp lm rqs w = Some (rs, w')"
  shows "map (\<lambda>(rq, r). reply_code r \<noteq> 429) (filter (\<lambda>(rq, r). patches dp lm key rq) (zip rqs rs))
    = map (\<lambda>k. k < 20) [0..<length (filter (patches dp lm key) rqs)]"
proof -
  have "map (\<lambda>(rq, r). reply_code r \<noteq> 429) (filter (\<lambda>(rq, r). patches dp lm key rq) (zip rqs rs))
      = map (\<lambda>k. used (aw_limits w) (patch_bucket key) + k < 20) [0..<length (filter (patches dp lm key) rqs)]"
    using assms(5)
  proof (induction rqs arbitrary: w rs)
    case (Cons rq rqs)
    then obtain r v rs' where s: "serve dp lm rq w = Some (r, v)" "serve_all dp lm rqs v = Some (rs', w')" "rs = r # rs'"
      by (auto split: option.splits)
    from serve_budget [OF assms(1,3) s(1), of key] assms(2) Cons.IH [OF s(2)] s(3) show ?case
      by (auto simp: map_upt_Suc simp del: upt_Suc)
  qed simp
  with assms(4) show ?thesis by (simp add: patch_bucket_def)
qed

definition pause_request :: stream_patch_request where
  "pause_request = \<lparr>pr_status = Some PausedStatus, pr_events_requested = None, pr_delivery = None, pr_aud = None\<rparr>"

definition alternating_patches :: "api_request list" where
  "alternating_patches =
     (let token = Some (''Bearer '' @ ssf_management_token (sv_cfg (dp_service example_deployment)));
          plain = example_request_of (PatchStream pause_request) ''/ssf/streams'';
          by_id = example_request_of (PatchStreamById ''s1'' pause_request) ''/ssf/streams/s1''
      in plain None # by_id None # concat (replicate 11 [plain token, by_id token]))"

lemma counting_limiter_counts:
  "counts_hits counting_limiter (\<lambda>l. digits_val (fst (partition_at CHR ''/'' l))) (\<lambda>l. l)"
  by (simp add: counts_hits_def counting_limiter_def)

lemma serve_all_patches:
  "\<forall>rq \<in> set rqs. patch_operation (rq_op rq) \<Longrightarrow> \<exists>rs w'. serve_all dp lm rqs w = Some (rs, w')"
proof (induction rqs arbitrary: w)
  case (Cons rq rqs)
  have "serve dp lm rq w \<noteq> None"
    using Cons.prems by (cases "rq_op rq") (auto simp: serve_def limited_def guarded_def on_world_def split: prod.splits bool.splits sum.splits)
  then obtain r v where "serve dp lm rq w = Some (r, v)" by fastforce
  moreover obtain rs w' where "serve_all dp lm rqs v = Some (rs, w')" using Cons by fastforce
  ultimately show ?case by simp
qed simp

theorem patch_budget_shared_witness:
  "\<exists>rs w'. serve_all example_deployment counting_limiter alternating_patches example_app = Some (rs, w')
     \<and> map (\<lambda>(rq, r). reply_code r \<noteq> 429)
         (filter (\<lambda>(rq, r). patches example_deployment counting_limiter ''192.0.2.7'' rq) (zip alternating_patches rs))
       = replicate 20 True @ [False, False]"
proof -
  have "\<forall>rq \<in> set alternating_patches. patch_operation (rq_op rq)"
    by (auto simp: alternating_patches_def Let_def example_request_of_def)
  from serve_all_patches [OF this] obtain rs w' where
    s: "serve_all example_deployment counting_limiter alternating_patches example_app = Some (rs, w')" by blast
  have "length (filter (patches example_deployment counting_limiter ''192.0.2.7'') alternating_patches) = 22"
    by (simp add: alternating_patches_def Let_def patches_def authorised_def example_request_of_def counting_limiter_def numeral_eq_Suc)
  moreover have "digits_val (fst (partition_at CHR ''/'' ''20/minute'')) = 20" by code_simp
  ultimately show ?thesis
    using patch_budget_shared [OF counting_limiter_counts _ _ _ s, of "''192.0.2.7''"] s
    by (simp add: counting_limiter_def example_app_def upt_rec numeral_eq_Suc)
qed

end
