(* ===== verification/Startup.thy ===== *)
theory Startup
  imports Scim_Service
begin

text \<open>
  \<^verbatim>\<open>app/startup.py\<close> and the start of \<^verbatim>\<open>lifespan\<close> in \<^verbatim>\<open>app/main.py\<close>: the preflight checks, which log one
  line per finding and decide whether the service starts, and the quarantine of streams whose
  receiver token cannot be decrypted. What the checks read from the file system, the database and
  the network is a record; a log line is its level with the name of the check.
\<close>

section \<open>What the checks read\<close>

datatype log_level = LogOk | LogWarn | LogFail

type_synonym log_lines = "(log_level \<times> pystr) list"

text \<open>The stored streams and the expiry of the stored token are \<open>None\<close> when reading them fails.\<close>

record startup_env =
  u_dir_exists :: bool
  u_dir_writable :: bool
  u_db_exists :: bool
  u_db_writable :: bool
  u_key_exists :: bool
  u_jwks_exists :: bool
  u_streams :: "(pystr \<times> pystr) list option"
  u_token_expiry :: "int option"
  u_time :: real
  u_environ :: environ
  u_probe :: scim_reply

section \<open>Checks\<close>

text \<open>Each check gives whether it failed and what it logged.\<close>

definition check_ssf_issuer :: "settings \<Rightarrow> bool \<times> log_lines" where
  "check_ssf_issuer cfg =
     (let l = ''SSF_ISSUER''; sl = rstrip (\<lambda>c. c = CHR ''/'') in
      if ssf_issuer cfg = [] then (True, [(LogFail, l)])
      else (False, (LogOk, l) #
        (if ssf_allow_custom_issuer cfg then []
         else (if sl (ssf_issuer cfg) \<noteq> sl (ssf_base_url cfg) then [(LogWarn, l)] else [])
            @ (if contains (ssf_issuer cfg) ''/application/o/'' then [(LogWarn, l)] else []))))"

definition check_ssf_base_url :: "settings \<Rightarrow> bool \<times> log_lines" where
  "check_ssf_base_url cfg =
     (if ssf_base_url cfg \<noteq> [] then (False, [(LogOk, ''SSF_BASE_URL'')]) else (True, [(LogFail, ''SSF_BASE_URL'')]))"

definition check_management_token :: "settings \<Rightarrow> bool \<times> log_lines" where
  "check_management_token cfg =
     (if length (ssf_management_token cfg) \<ge> 32 then (False, [(LogOk, ''SSF_MANAGEMENT_TOKEN'')])
      else (True, [(LogFail, ''SSF_MANAGEMENT_TOKEN'')]))"

definition check_webhook_auth :: "settings \<Rightarrow> startup_env \<Rightarrow> bool \<times> log_lines" where
  "check_webhook_auth cfg ue =
     (let m = ''SSF_WEBHOOK_AUTH_MODE'' in
      if ssf_webhook_auth_mode cfg = ''bearer'' then
        (if length (opt_str (ssf_webhook_token cfg)) \<ge> 32 then (False, [(LogOk, m), (LogOk, ''SSF_WEBHOOK_TOKEN'')])
         else (True, [(LogOk, m), (LogFail, ''SSF_WEBHOOK_TOKEN'')]))
      else if ssf_webhook_auth_mode cfg = ''hmac'' then
        (if length (ssf_webhook_secret cfg) > 0 then (False, [(LogOk, m), (LogOk, ''SSF_WEBHOOK_SECRET'')])
         else (True, [(LogOk, m), (LogFail, ''SSF_WEBHOOK_SECRET'')]))
      else if ssf_webhook_auth_mode cfg = ''unsigned'' then
        (False, (LogWarn, m) #
          (if lower (getenv (u_environ ue) ''SSF_ALLOW_UNSIGNED_WEBHOOK'' []) = ''true'' then [(LogWarn, ''SSF_ALLOW_UNSIGNED_WEBHOOK'')] else []))
      else (True, [(LogFail, m)]))"

definition check_signing_key :: "startup_env \<Rightarrow> log_lines" where
  "check_signing_key ue = [(if u_key_exists ue then LogOk else LogWarn, ''Signing key'')]"

definition check_jwks :: "startup_env \<Rightarrow> log_lines" where
  "check_jwks ue = [(if u_jwks_exists ue then LogOk else LogWarn, ''JWKS'')]"

definition check_database :: "startup_env \<Rightarrow> bool \<times> log_lines" where
  "check_database ue =
     (if \<not> u_dir_exists ue then (False, [(LogWarn, ''Database dir'')])
      else if \<not> u_dir_writable ue then (True, [(LogFail, ''Database dir'')])
      else if u_db_exists ue \<and> \<not> u_db_writable ue then (True, [(LogFail, ''Database'')])
      else (False, [(LogOk, ''Database'')]))"

definition check_pii_pepper :: "settings \<Rightarrow> log_lines" where
  "check_pii_pepper cfg = [(if pii_pepper cfg \<noteq> [] then LogOk else LogWarn, ''SSF_PII_PEPPER'')]"

text \<open>The stored streams outside the allowlist, with the host that is reported.\<close>

definition allowlist_violations :: "pystr list \<Rightarrow> (pystr \<times> pystr) list \<Rightarrow> (pystr \<times> pystr) list" where
  "allowlist_violations hosts rows =
     map (\<lambda>(sid, url). (sid, if safe_hostname url \<noteq> [] then safe_hostname url else ''unknown-host''))
       (filter (\<lambda>(sid, url). \<not> receiver_host_allowed url hosts) rows)"

definition check_stored_streams_allowlist :: "settings \<Rightarrow> startup_env \<Rightarrow> bool \<times> log_lines" where
  "check_stored_streams_allowlist cfg ue =
     (let hosts = ssf_allowed_receiver_hosts cfg in
      if hosts = [] then (True, [])
      else case u_streams ue of
        None \<Rightarrow> (True, [])
      | Some rows \<Rightarrow> if allowlist_violations hosts rows = [] then (True, []) else (False, [(LogFail, ''Receiver allowlist'')]))"

definition check_receiver_allowlist :: "settings \<Rightarrow> startup_env \<Rightarrow> bool \<times> log_lines" where
  "check_receiver_allowlist cfg ue =
     (if ssf_allowed_receiver_hosts cfg = [] then (False, [(LogWarn, ''Receiver allowlist'')])
      else case check_stored_streams_allowlist cfg ue of
        (ok, ls) \<Rightarrow> (\<not> ok, (LogOk, ''Receiver allowlist'') # ls))"

definition check_forwarded_ips :: "startup_env \<Rightarrow> log_lines" where
  "check_forwarded_ips ue =
     [(if getenv (u_environ ue) ''SSF_FORWARDED_ALLOW_IPS'' ''127.0.0.1'' = ''*'' then LogWarn else LogOk, ''SSF_FORWARDED_ALLOW_IPS'')]"

text \<open>\<open>None\<close> is the exception of \<^verbatim>\<open>urlparse\<close> for an address it cannot read.\<close>

definition warn_if_apple_scim_url_uses_appleaccount :: "pystr \<Rightarrow> pystr \<Rightarrow> log_lines option" where
  "warn_if_apple_scim_url_uses_appleaccount url_name url_val =
     map_option (\<lambda>p. if lower (url_hostname p) = ''appleaccount.apple.com'' then [(LogWarn, url_name)] else []) (urlparse url_val)"

definition check_scim_authorized :: "startup_env \<Rightarrow> log_lines" where
  "check_scim_authorized ue =
     [(case u_token_expiry ue of
         Some t \<Rightarrow> if u_time ue < real_of_int t then LogOk else LogWarn
       | None \<Rightarrow> LogWarn, ''Apple SCIM OAuth'')]"

definition check_authentik_connectivity :: "startup_env \<Rightarrow> log_lines" where
  "check_authentik_connectivity ue =
     [(case u_probe ue of
         NetError \<Rightarrow> LogWarn
       | Reply st _ \<Rightarrow> if st = 200 then LogOk else if st \<in> {401, 403} then LogFail else LogWarn, ''Authentik API'')]"

definition check_apple_scim_enabled :: "settings \<Rightarrow> startup_env \<Rightarrow> log_lines option" where
  "check_apple_scim_enabled cfg ue =
     (case (warn_if_apple_scim_url_uses_appleaccount ''APPLE_SCIM_AUTHORIZE_URL'' (apple_scim_authorize_url cfg),
            warn_if_apple_scim_url_uses_appleaccount ''APPLE_SCIM_TOKEN_URL'' (apple_scim_token_url cfg)) of
        (Some w1, Some w2) \<Rightarrow>
          Some ([(LogOk, ''Apple SCIM''),
                 (if nonempty (apple_scim_group_id cfg) \<noteq> None then LogOk else LogWarn, ''Apple SCIM group filter''),
                 (if nonempty (apple_scim_alert_webhook_url cfg) \<noteq> None then LogOk else LogWarn, ''Apple SCIM alerts'')]
                @ w1 @ w2 @ check_scim_authorized ue @ check_authentik_connectivity ue)
      | _ \<Rightarrow> None)"

text \<open>The names that the warning of a disabled part lists.\<close>

definition check_apple_scim_disabled :: "settings \<Rightarrow> pystr list" where
  "check_apple_scim_disabled cfg =
     map fst (filter (\<lambda>(name, val). nonempty val = None)
       [(''APPLE_SCIM_CLIENT_ID'', apple_scim_client_id cfg), (''APPLE_SCIM_CLIENT_SECRET'', apple_scim_client_secret cfg),
        (''AUTHENTIK_URL'', authentik_url cfg), (''AUTHENTIK_TOKEN'', authentik_token cfg)])"

text \<open>The warning always names a variable, as it is only given when the part is disabled.\<close>

lemma check_apple_scim_disabled_names: "check_apple_scim_disabled cfg = [] \<longleftrightarrow> apple_scim_enabled cfg"
  by (simp add: check_apple_scim_disabled_def apple_scim_enabled_def)

definition check_apple_scim :: "settings \<Rightarrow> startup_env \<Rightarrow> log_lines option" where
  "check_apple_scim cfg ue =
     (if apple_scim_enabled cfg then check_apple_scim_enabled cfg ue else Some [(LogWarn, ''Apple SCIM'')])"

text \<open>Whether the service starts, with the lines logged; \<open>None\<close> is an exception.\<close>

definition run_preflight_checks :: "settings \<Rightarrow> startup_env \<Rightarrow> (bool \<times> log_lines) option" where
  "run_preflight_checks cfg ue =
     (case (check_ssf_issuer cfg, check_ssf_base_url cfg, check_management_token cfg, check_webhook_auth cfg ue,
            check_database ue, check_receiver_allowlist cfg ue) of
        ((f1, l1), (f2, l2), (f3, l3), (f4, l4), (f5, l5), (f6, l6)) \<Rightarrow>
          map_option (\<lambda>l7.
              (\<not> (f1 \<or> f2 \<or> f3 \<or> f4 \<or> f5 \<or> f6),
               l1 @ l2 @ l3 @ l4 @ check_signing_key ue @ check_jwks ue @ l5 @ check_pii_pepper cfg @ l6 @ check_forwarded_ips ue @ l7))
            (check_apple_scim cfg ue))"

section \<open>Quarantine\<close>

text \<open>The streams to pause; \<open>None\<close> when decrypting raised something else, which ends the check.\<close>

fun quarantine_failures :: "crypto_lib \<Rightarrow> settings \<Rightarrow> stream_row list \<Rightarrow> pystr list option" where
  "quarantine_failures lib cfg [] = Some []"
| "quarantine_failures lib cfg (r # rs) =
     (if r_endpoint_token r = [] then quarantine_failures lib cfg rs
      else case decrypt_token lib cfg (r_endpoint_token r) of
        Inr _ \<Rightarrow> quarantine_failures lib cfg rs
      | Inl TokenDecryptionError \<Rightarrow> map_option (Cons (r_stream_id r)) (quarantine_failures lib cfg rs)
      | Inl _ \<Rightarrow> None)"

definition quarantine_undecryptable_receiver_tokens :: "crypto_lib \<Rightarrow> settings \<Rightarrow> db \<Rightarrow> db" where
  "quarantine_undecryptable_receiver_tokens lib cfg d =
     (case quarantine_failures lib cfg (streams d) of
        None \<Rightarrow> d
      | Some failures \<Rightarrow>
          if failures = [] then d
          else d\<lparr>streams := map (\<lambda>r. if r_stream_id r \<in> set failures then r\<lparr>r_status := ''paused''\<rparr> else r) (streams d)\<rparr>)"

text \<open>
  The start of the application: the checks, the signing keys, the tables, the quarantine. \<open>None\<close> when
  the process exits or a check raises.
\<close>

definition lifespan_start :: "crypto_lib \<Rightarrow> settings \<Rightarrow> startup_env \<Rightarrow> generated_key \<Rightarrow> key_files \<Rightarrow> db option \<Rightarrow> (key_files \<times> db) option" where
  "lifespan_start lib cfg ue fresh kf file =
     (case run_preflight_checks cfg ue of
        Some (True, ls) \<Rightarrow> Some (ensure_keys fresh kf, quarantine_undecryptable_receiver_tokens lib cfg (init_db file))
      | _ \<Rightarrow> None)"

section \<open>Which settings pass\<close>

lemma urlparse_slashes: "set v \<subseteq> {CHR ''/''} \<Longrightarrow> urlparse v = Some p \<Longrightarrow> url_scheme p = []"
  by (auto simp: urlparse_def split_scheme_def py_partition_def clean_url_def Let_def split: prod.splits if_splits dest: set_dropWhileD)

lemma rstrip_Nil: "rstrip p s = [] \<Longrightarrow> \<forall>c \<in> set s. p c"
  by (auto simp: rstrip_def dropWhile_eq_Nil_conv)

lemma https_url_base: "https_url v \<Longrightarrow> strip_trailing_slash v \<noteq> []"
proof
  assume "https_url v" "strip_trailing_slash v = []"
  then have "set v \<subseteq> {CHR ''/''}" using rstrip_Nil unfolding strip_trailing_slash_def by blast
  with \<open>https_url v\<close> urlparse_slashes show False unfolding https_url_def by fastforce
qed

lemma from_env_base_url: "from_env env = Inr cfg \<Longrightarrow> ssf_base_url cfg \<noteq> []"
  by (auto simp: from_env_def Let_def ebind_Inr_iff parse_https_url_ok https_url_base split: if_splits)

lemma https_url_nonempty: "https_url v \<Longrightarrow> v \<noteq> []"
  using https_url_base [of v] by (auto simp: strip_trailing_slash_def rstrip_def)

lemma config_checks_pass:
  assumes "from_env env = Inr cfg"
  shows "\<not> fst (check_ssf_issuer cfg)" "\<not> fst (check_ssf_base_url cfg)" "\<not> fst (check_management_token cfg)"
    "\<not> fst (check_webhook_auth cfg ue)" "check_apple_scim cfg ue \<noteq> None"
proof -
  have ok: "settings_ok cfg" by (rule from_env_settings_ok [OF assms])
  then show "\<not> fst (check_ssf_issuer cfg)" "\<not> fst (check_management_token cfg)"
    using https_url_nonempty by (auto simp: check_ssf_issuer_def Let_def settings_ok_def check_management_token_def)
  show "\<not> fst (check_ssf_base_url cfg)" using from_env_base_url [OF assms] by (simp add: check_ssf_base_url_def)
  show "\<not> fst (check_webhook_auth cfg ue)"
    using ok by (auto simp: check_webhook_auth_def Let_def settings_ok_def WEBHOOK_AUTH_MODES_def opt_str_def)
  show "check_apple_scim cfg ue \<noteq> None"
    using ok by (auto simp: check_apple_scim_def check_apple_scim_enabled_def warn_if_apple_scim_url_uses_appleaccount_def settings_ok_def https_url_def)
qed

definition database_usable :: "startup_env \<Rightarrow> bool" where
  "database_usable ue \<longleftrightarrow> (u_dir_exists ue \<longrightarrow> u_dir_writable ue \<and> (u_db_exists ue \<longrightarrow> u_db_writable ue))"

definition streams_allowed :: "settings \<Rightarrow> startup_env \<Rightarrow> bool" where
  "streams_allowed cfg ue \<longleftrightarrow> (\<forall>rows. u_streams ue = Some rows \<longrightarrow> (\<forall>(sid, url) \<in> set rows. receiver_host_allowed url (ssf_allowed_receiver_hosts cfg)))"

lemma check_database_iff: "\<not> fst (check_database ue) \<longleftrightarrow> database_usable ue"
  by (simp add: check_database_def database_usable_def)

lemma check_allowlist_iff: "\<not> fst (check_receiver_allowlist cfg ue) \<longleftrightarrow> streams_allowed cfg ue"
  by (auto simp: check_receiver_allowlist_def check_stored_streams_allowlist_def streams_allowed_def Let_def
      allowlist_violations_def receiver_host_allowed_def filter_empty_conv split: option.splits)

text \<open>A check that fails logs a failure.\<close>

lemma failure_logged:
  "fst (check_database ue) \<Longrightarrow> \<exists>l. (LogFail, l) \<in> set (snd (check_database ue))"
  "fst (check_receiver_allowlist cfg ue) \<Longrightarrow> \<exists>l. (LogFail, l) \<in> set (snd (check_receiver_allowlist cfg ue))"
  by (auto simp: check_database_def check_receiver_allowlist_def check_stored_streams_allowlist_def Let_def
      split: if_splits option.splits)

lemma preflight_result:
  assumes "from_env env = Inr cfg"
  obtains ls where "run_preflight_checks cfg ue = Some (database_usable ue \<and> streams_allowed cfg ue, ls)"
    "set (snd (check_database ue)) \<union> set (snd (check_receiver_allowlist cfg ue)) \<subseteq> set ls"
proof -
  obtain l7 where l7: "check_apple_scim cfg ue = Some l7" using config_checks_pass(5) [OF assms] by blast
  show thesis
    by (rule that, simp add: run_preflight_checks_def case_prod_beta l7 config_checks_pass(1-4) [OF assms]
          check_database_iff [symmetric] check_allowlist_iff [symmetric]) auto
qed

section \<open>What the quarantine does\<close>

definition undecryptable :: "crypto_lib \<Rightarrow> settings \<Rightarrow> stream_row \<Rightarrow> bool" where
  "undecryptable lib cfg r \<longleftrightarrow> r_endpoint_token r \<noteq> [] \<and> decrypt_token lib cfg (r_endpoint_token r) = Inl TokenDecryptionError"

lemma quarantine_failures_spec:
  assumes "\<forall>r \<in> set rs. \<forall>e. decrypt_token lib cfg (r_endpoint_token r) = Inl e \<longrightarrow> e = TokenDecryptionError"
  shows "quarantine_failures lib cfg rs = Some (map r_stream_id (filter (undecryptable lib cfg) rs))"
  using assms by (induction rs) (auto simp: undecryptable_def split: sum.splits crypto_error.splits)

lemma quarantine_rows:
  assumes "db_ok d" "\<forall>r \<in> set (streams d). \<forall>e. decrypt_token lib cfg (r_endpoint_token r) = Inl e \<longrightarrow> e = TokenDecryptionError"
  shows "quarantine_undecryptable_receiver_tokens lib cfg d
    = d\<lparr>streams := map (\<lambda>r. if undecryptable lib cfg r then r\<lparr>r_status := ''paused''\<rparr> else r) (streams d)\<rparr>"
proof -
  from assms(1) consider "streams d = []" | r where "streams d = [r]"
    by (cases "streams d") (auto simp: db_ok_def)
  then show ?thesis
    by cases (use quarantine_failures_spec [OF assms(2)] in
        \<open>cases d, auto simp: quarantine_undecryptable_receiver_tokens_def simp del: quarantine_failures.simps\<close>)
qed

section \<open>Properties\<close>

text \<open>
  With settings that load, the service starts exactly when its database is usable and every
  stored stream is on the receiver allowlist: no other check can stop it, none raises, and when it
  does not start a failure has been logged.
\<close>

theorem preflight_decides:
  assumes "from_env env = Inr cfg"
  shows "\<exists>ls. run_preflight_checks cfg ue = Some (database_usable ue \<and> streams_allowed cfg ue, ls)
    \<and> (database_usable ue \<and> streams_allowed cfg ue \<or> (\<exists>l. (LogFail, l) \<in> set ls))"
proof -
  obtain ls where ls: "run_preflight_checks cfg ue = Some (database_usable ue \<and> streams_allowed cfg ue, ls)"
    "set (snd (check_database ue)) \<union> set (snd (check_receiver_allowlist cfg ue)) \<subseteq> set ls"
    by (rule preflight_result [OF assms])
  with failure_logged check_database_iff [of ue] check_allowlist_iff [of cfg ue] show ?thesis by blast
qed

definition example_startup :: startup_env where
  "example_startup = \<lparr>u_dir_exists = True, u_dir_writable = True, u_db_exists = False, u_db_writable = False, u_key_exists = False,
     u_jwks_exists = False, u_streams = None, u_token_expiry = None, u_time = 0, u_environ = (\<lambda>_. None), u_probe = NetError\<rparr>"

lemma example_loads: "from_env example_env = Inr example_settings"
  by code_simp

theorem preflight_decides_witness:
  "\<exists>ls. run_preflight_checks example_settings example_startup = Some (True, ls)"
  using preflight_decides [OF example_loads, of example_startup]
  by (simp add: database_usable_def streams_allowed_def example_startup_def)

text \<open>
  C16. After the start no stream is left enabled with a receiver token that cannot be decrypted: on
  tables in order, when decrypting raises nothing else, exactly the streams whose token cannot be
  decrypted are paused and nothing else changes, the tables stay in order, and starting again
  changes nothing more.
\<close>

theorem startup_quarantines:
  assumes "lifespan_start lib cfg ue fresh kf (Some d) = Some (kf', d')" "db_ok d"
    and "\<forall>r \<in> set (streams d). \<forall>e. decrypt_token lib cfg (r_endpoint_token r) = Inl e \<longrightarrow> e = TokenDecryptionError"
  shows "d' = d\<lparr>streams := map (\<lambda>r. if undecryptable lib cfg r then r\<lparr>r_status := ''paused''\<rparr> else r) (streams d)\<rparr>
    \<and> (\<forall>r \<in> set (streams d'). r_status r = ''enabled'' \<longrightarrow> \<not> undecryptable lib cfg r)
    \<and> db_ok d' \<and> quarantine_undecryptable_receiver_tokens lib cfg d' = d'"
proof -
  from assms(1) have q: "d' = quarantine_undecryptable_receiver_tokens lib cfg d"
    by (auto simp: lifespan_start_def init_db_def split: option.splits prod.splits bool.splits)
  note rows = quarantine_rows [OF assms(2,3)]
  have ok: "db_ok d'" using assms(2) unfolding q rows by (simp add: db_ok_def)
  have same: "undecryptable lib cfg (r\<lparr>r_status := s\<rparr>) = undecryptable lib cfg r" for r s by (simp add: undecryptable_def)
  have "\<forall>r \<in> set (streams d'). \<forall>e. decrypt_token lib cfg (r_endpoint_token r) = Inl e \<longrightarrow> e = TokenDecryptionError"
    using assms(3) unfolding q rows by auto
  from quarantine_rows [OF ok this] have "quarantine_undecryptable_receiver_tokens lib cfg d' = d'"
    unfolding q rows by (simp add: same comp_def cong: if_cong)
  with ok show ?thesis using rows q by (auto simp: same)
qed

definition rotated_settings :: settings where
  "rotated_settings = example_settings\<lparr>ssf_token_encryption_key := Some ''rotated''\<rparr>"

lemma rotated_starts: "map_option fst (run_preflight_checks rotated_settings example_startup) = Some True"
  by code_simp

lemma rotated_undecryptable:
  "decrypt_token toy_lib rotated_settings (encrypt_token toy_lib example_settings 0 (endpoint_token example_stream)) = Inl TokenDecryptionError"
  by (rule decrypt_token_other_key [OF toy_lib_laws])
    (simp_all add: get_token_encryption_key_def toy_lib_def example_settings_def rotated_settings_def nonempty_def example_stream_def)

theorem startup_quarantines_witness:
  "\<forall>g kf0. \<exists>kf d. lifespan_start toy_lib rotated_settings example_startup g kf0 (Some saved_db) = Some (kf, d)
     \<and> (\<forall>r \<in> set (streams d). r_status r \<noteq> ''enabled'') \<and> length (streams d) = 1"
proof (intro allI)
  fix g kf0
  have row: "streams saved_db = [stream_to_row toy_lib example_settings 0 example_stream]"
    by (simp add: saved_db_def save_stream_def)
  obtain ls where "run_preflight_checks rotated_settings example_startup = Some (True, ls)" using rotated_starts by auto
  then obtain kf d where s: "lifespan_start toy_lib rotated_settings example_startup g kf0 (Some saved_db) = Some (kf, d)"
    by (simp add: lifespan_start_def)
  have ok: "db_ok saved_db" by (auto simp: saved_db_def save_stream_def empty_db_def db_ok_def)
  have "\<forall>r \<in> set (streams saved_db). \<forall>e. decrypt_token toy_lib rotated_settings (r_endpoint_token r) = Inl e \<longrightarrow> e = TokenDecryptionError"
    using rotated_undecryptable by (simp add: row stream_to_row_def)
  note q = startup_quarantines [OF s ok this]
  have "encrypt_token toy_lib example_settings 0 (endpoint_token example_stream) \<noteq> []"
    using rotated_undecryptable by (auto simp: decrypt_token_def)
  then have "undecryptable toy_lib rotated_settings (stream_to_row toy_lib example_settings 0 example_stream)"
    using rotated_undecryptable by (simp add: stream_to_row_def undecryptable_def)
  with q row s show "\<exists>kf d. lifespan_start toy_lib rotated_settings example_startup g kf0 (Some saved_db) = Some (kf, d)
     \<and> (\<forall>r \<in> set (streams d). r_status r \<noteq> ''enabled'') \<and> length (streams d) = 1"
    by (intro exI [of _ kf] exI [of _ d]) simp
qed

end
