(* ===== verification/Logging_Setup.thy ===== *)
theory Logging_Setup
  imports Config
begin

text \<open>
  \<^verbatim>\<open>configure_logging\<close> of \<^verbatim>\<open>app/config.py\<close> on the logger tree of the standard library: loggers named by
  dotted paths with a level, handlers, filters and a propagation flag each, below one root logger.
  A handler is what it formats with. Whether \<^verbatim>\<open>colorlog\<close> is installed is an argument.
\<close>

section \<open>Loggers\<close>

datatype formatter = PlainFormat | ColourFormat

record logger =
  lg_level :: "nat option"    \<comment> \<open>\<open>None\<close>: \<^verbatim>\<open>NOTSET\<close>\<close>
  lg_handlers :: "formatter list"
  lg_filters :: "(pystr \<Rightarrow> bool) list"
  lg_propagate :: bool

record logging_state =
  ls_root_level :: nat
  ls_root_handlers :: "formatter list"
  ls_loggers :: "pystr \<Rightarrow> logger"

definition fresh_logger :: logger where
  "fresh_logger = \<lparr>lg_level = None, lg_handlers = [], lg_filters = [], lg_propagate = True\<rparr>"

text \<open>A logger and those above it, nearest first, without the root.\<close>

definition lineage :: "pystr \<Rightarrow> pystr list" where
  "lineage name = name # map (\<lambda>i. take i name) (rev (filter (\<lambda>i. name ! i = CHR ''.'') [0..<length name]))"

fun effective_level :: "logging_state \<Rightarrow> pystr list \<Rightarrow> nat" where
  "effective_level ls [] = ls_root_level ls"
| "effective_level ls (n # ns) = (case lg_level (ls_loggers ls n) of Some l \<Rightarrow> l | None \<Rightarrow> effective_level ls ns)"

fun reached_handlers :: "logging_state \<Rightarrow> pystr list \<Rightarrow> formatter list" where
  "reached_handlers ls [] = ls_root_handlers ls"
| "reached_handlers ls (n # ns) =
     lg_handlers (ls_loggers ls n) @ (if lg_propagate (ls_loggers ls n) then reached_handlers ls ns else [])"

text \<open>The handlers that write a record; the filters are those of the logger it was made on.\<close>

definition written_by :: "logging_state \<Rightarrow> pystr \<Rightarrow> nat \<Rightarrow> pystr \<Rightarrow> formatter list" where
  "written_by ls name level msg =
     (if level < effective_level ls (lineage name) then []
      else if list_all (\<lambda>p. p msg) (lg_filters (ls_loggers ls name)) then reached_handlers ls (lineage name)
      else [])"

section \<open>Configuration\<close>

definition level_number :: "pystr \<Rightarrow> nat" where
  "level_number name =
     (if name = ''DEBUG'' then 10 else if name = ''INFO'' then 20 else if name = ''WARNING'' then 30
      else if name = ''ERROR'' then 40 else if name = ''CRITICAL'' then 50 else 20)"

definition change_logger :: "pystr \<Rightarrow> (logger \<Rightarrow> logger) \<Rightarrow> logging_state \<Rightarrow> logging_state" where
  "change_logger name f ls = ls\<lparr>ls_loggers := (ls_loggers ls)(name := f (ls_loggers ls name))\<rparr>"

text \<open>\<^verbatim>\<open>logging.basicConfig\<close> does nothing when the root logger already has a handler.\<close>

definition basic_config :: "nat \<Rightarrow> logging_state \<Rightarrow> logging_state" where
  "basic_config level ls =
     (if ls_root_handlers ls \<noteq> [] then ls else ls\<lparr>ls_root_handlers := [PlainFormat], ls_root_level := level\<rparr>)"

definition uvicorn_loggers :: "pystr list" where
  "uvicorn_loggers = [''uvicorn'', ''uvicorn.error'', ''uvicorn.access'']"

definition noisy_loggers :: "pystr list" where
  "noisy_loggers = [''aiosqlite'', ''httpx'', ''httpcore'']"

definition configure_logging :: "settings \<Rightarrow> bool \<Rightarrow> logging_state \<Rightarrow> logging_state" where
  "configure_logging cfg colorlog ls =
     (let formatter = (if ssf_log_color cfg \<and> colorlog then ColourFormat else PlainFormat);
          s1 = basic_config (level_number (log_level cfg)) ls;
          s2 = s1\<lparr>ls_root_handlers := map (\<lambda>_. formatter) (ls_root_handlers s1)\<rparr>;
          s3 = fold (\<lambda>n. change_logger n (\<lambda>l. l\<lparr>lg_handlers := [], lg_propagate := True\<rparr>)) uvicorn_loggers s2;
          s4 = change_logger ''uvicorn.access'' (\<lambda>l. l\<lparr>lg_filters := lg_filters l @ [healthcheck_filter]\<rparr>) s3
      in fold (\<lambda>n. change_logger n (\<lambda>l. l\<lparr>lg_level := Some 30\<rparr>)) noisy_loggers s4)"

section \<open>What is written\<close>

lemma change_logger_simps [simp]:
  "ls_loggers (change_logger n f ls) m = (if m = n then f (ls_loggers ls m) else ls_loggers ls m)"
  "ls_root_handlers (change_logger n f ls) = ls_root_handlers ls" "ls_root_level (change_logger n f ls) = ls_root_level ls"
  by (simp_all add: change_logger_def)

lemma lineage_simps:
  "lineage ''uvicorn'' = [''uvicorn'']" "lineage ''uvicorn.error'' = [''uvicorn.error'', ''uvicorn'']"
  "lineage ''uvicorn.access'' = [''uvicorn.access'', ''uvicorn'']" "lineage ''aiosqlite'' = [''aiosqlite'']"
  "lineage ''httpx'' = [''httpx'']" "lineage ''httpcore'' = [''httpcore'']"
  by code_simp+

text \<open>Where the formatter of the root handlers is decided.\<close>

definition chosen_format :: "settings \<Rightarrow> bool \<Rightarrow> formatter" where
  "chosen_format cfg colorlog = (if ssf_log_color cfg \<and> colorlog then ColourFormat else PlainFormat)"

lemma loggers_change_fold:
  "(\<And>l. f (f l) = f l) \<Longrightarrow> ls_loggers (fold (\<lambda>n. change_logger n f) ns ls) n = (if n \<in> set ns then f (ls_loggers ls n) else ls_loggers ls n)"
  by (induction ns arbitrary: ls) auto

lemma root_change_fold: "ls_root_handlers (fold (\<lambda>n. change_logger n f) ns ls) = ls_root_handlers ls"
  by (induction ns arbitrary: ls) auto

lemma basic_config_loggers: "ls_loggers (basic_config level ls) = ls_loggers ls"
  by (simp add: basic_config_def)

text \<open>What becomes of each logger and of the root's handlers.\<close>

lemma configured_logger:
  "ls_loggers (configure_logging cfg colorlog ls) n =
     (let l = ls_loggers ls n;
          u = (if n \<in> set uvicorn_loggers then l\<lparr>lg_handlers := [], lg_propagate := True\<rparr> else l);
          f = (if n = ''uvicorn.access'' then u\<lparr>lg_filters := lg_filters u @ [healthcheck_filter]\<rparr> else u)
      in if n \<in> set noisy_loggers then f\<lparr>lg_level := Some 30\<rparr> else f)"
  by (simp add: configure_logging_def Let_def loggers_change_fold basic_config_loggers)

lemma configured_root:
  "ls_root_handlers (configure_logging cfg colorlog ls)
    = (if ls_root_handlers ls = [] then [chosen_format cfg colorlog] else map (\<lambda>_. chosen_format cfg colorlog) (ls_root_handlers ls))"
  by (simp add: configure_logging_def Let_def root_change_fold basic_config_def chosen_format_def)

lemma logger_names:
  "''uvicorn'' \<in> set uvicorn_loggers" "''uvicorn.error'' \<in> set uvicorn_loggers" "''uvicorn.access'' \<in> set uvicorn_loggers"
  "''uvicorn'' \<notin> set noisy_loggers" "''uvicorn.error'' \<notin> set noisy_loggers" "''uvicorn.access'' \<notin> set noisy_loggers"
  by code_simp+

lemma access_reached: "n \<in> set uvicorn_loggers \<Longrightarrow> lg_handlers (ls_loggers (configure_logging cfg colorlog ls) n) = []
    \<and> lg_propagate (ls_loggers (configure_logging cfg colorlog ls) n)"
  by (simp add: configured_logger Let_def)

text \<open>
  Whatever was set up before, after the configuration every record that is written has the one
  chosen format, the server's loggers write to the root's handlers and to no others, a line about the
  container's health check is never written by the access logger, and nothing below a warning is
  written by the loggers that would show addresses of requests and statements.
\<close>

theorem logging_configured:
  fixes ls colorlog cfg
  defines "ls' \<equiv> configure_logging cfg colorlog ls"
  shows "set (ls_root_handlers ls') = {chosen_format cfg colorlog}
    \<and> (\<forall>n \<in> set uvicorn_loggers. reached_handlers ls' (lineage n) = ls_root_handlers ls')
    \<and> (\<forall>level msg. contains msg ''127.0.0.1'' \<and> contains msg ''/jwks.json'' \<longrightarrow> written_by ls' ''uvicorn.access'' level msg = [])
    \<and> (\<forall>n \<in> set noisy_loggers. \<forall>level < 30. \<forall>msg. written_by ls' n level msg = [])"
proof -
  have "set (ls_root_handlers ls') = {chosen_format cfg colorlog}"
    by (cases "ls_root_handlers ls") (auto simp: ls'_def configured_root)
  moreover have "reached_handlers ls' (lineage n) = ls_root_handlers ls'" if "n \<in> set uvicorn_loggers" for n
  proof -
    from that consider "n = ''uvicorn''" | "n = ''uvicorn.error''" | "n = ''uvicorn.access''" by (auto simp: uvicorn_loggers_def)
    then show ?thesis
      by cases (simp_all add: ls'_def lineage_simps access_reached [OF logger_names(1)] access_reached [OF logger_names(2)]
          access_reached [OF logger_names(3)])
  qed
  moreover have "written_by ls' ''uvicorn.access'' level msg = []"
    if "contains msg ''127.0.0.1''" "contains msg ''/jwks.json''" for level msg
  proof -
    have "healthcheck_filter \<in> set (lg_filters (ls_loggers ls' ''uvicorn.access''))"
      by (simp add: ls'_def configured_logger Let_def logger_names)
    moreover have "\<not> healthcheck_filter msg" using that by (simp add: healthcheck_filter_def)
    ultimately have "\<not> list_all (\<lambda>p. p msg) (lg_filters (ls_loggers ls' ''uvicorn.access''))" by (auto simp: list_all_iff)
    then show ?thesis by (simp add: written_by_def)
  qed
  moreover have "written_by ls' n level msg = []" if "n \<in> set noisy_loggers" "level < 30" for n level msg
  proof -
    have "lg_level (ls_loggers ls' n) = Some 30" using that(1) by (simp add: ls'_def configured_logger Let_def)
    moreover have "lineage n = n # tl (lineage n)" by (simp add: lineage_def)
    ultimately have "effective_level ls' (lineage n) = 30" by (metis effective_level.simps(2) option.case(2))
    with that(2) show ?thesis by (simp add: written_by_def)
  qed
  ultimately show ?thesis by blast
qed

text \<open>
  The filter looks for its two texts anywhere in the line: a request from another address that
  carries both in its path is not written either.
\<close>

lemma healthcheck_filter_evaded:
  "written_by (configure_logging cfg colorlog ls) ''uvicorn.access'' level
     (''203.0.113.9:5000 - GET /webhook/authentik?x=127.0.0.1/jwks.json HTTP/1.1 401'') = []"
proof -
  have "contains ''203.0.113.9:5000 - GET /webhook/authentik?x=127.0.0.1/jwks.json HTTP/1.1 401'' ''127.0.0.1''"
    "contains ''203.0.113.9:5000 - GET /webhook/authentik?x=127.0.0.1/jwks.json HTTP/1.1 401'' ''/jwks.json''" by code_simp+
  with logging_configured [where cfg = cfg and colorlog = colorlog and ls = ls] show ?thesis by blast
qed

end
