(* ===== verification/Lifecycle.thy ===== *)
theory Lifecycle
  imports Api_Routes Startup Delivery_Lock Logging_Setup
begin

text \<open>
  The application as \<^verbatim>\<open>app/main.py\<close> builds, runs and stops it: what \<^verbatim>\<open>create_app\<close> puts together and in
  which order a response passes the middlewares, the loop of scheduled synchronisations, the end of
  the delivery worker after the stop event is set, and what \<^verbatim>\<open>lifespan\<close> reports about its tasks.
\<close>

section \<open>Loading the settings\<close>

text \<open>
  A configuration error ends the import of \<^verbatim>\<open>config.py\<close> with exit code 0, so that the container is not
  restarted over and over.
\<close>

datatype boot = SysExit int | Loaded settings

definition load_settings :: "environ \<Rightarrow> boot" where
  "load_settings env = (case from_env env of Inl _ \<Rightarrow> SysExit 0 | Inr s \<Rightarrow> Loaded s)"

text \<open>What runs has passed every check of the configuration, and what does not is not restarted.\<close>

lemma load_settings_ok: "case load_settings env of SysExit n \<Rightarrow> n = 0 | Loaded s \<Rightarrow> settings_ok s"
  by (simp add: load_settings_def from_env_settings_ok split: sum.split)

section \<open>The application\<close>

datatype middleware = SlowAPIMiddleware | RequestIDMiddleware | SecurityHeadersMiddleware

text \<open>The middlewares outermost first, as the framework keeps them.\<close>

record application =
  ap_root_path :: pystr
  ap_title :: pystr
  ap_version :: pystr
  ap_docs_url :: "pystr option"
  ap_redoc_url :: "pystr option"
  ap_openapi_url :: "pystr option"
  ap_middleware :: "middleware list"
  ap_endpoints :: "endpoint list"

definition add_middleware :: "middleware \<Rightarrow> application \<Rightarrow> application" where
  "add_middleware m ap = ap\<lparr>ap_middleware := m # ap_middleware ap\<rparr>"

definition include_router :: "router \<Rightarrow> application \<Rightarrow> application" where
  "include_router rt ap = ap\<lparr>ap_endpoints := ap_endpoints ap @ mounted rt\<rparr>"

definition create_app :: "settings \<Rightarrow> environ \<Rightarrow> application" where
  "create_app cfg env =
     (let openapi_enabled = ssf_enable_openapi cfg;
          application = \<lparr>ap_root_path = ssf_root_path cfg, ap_title = ''SSF Transmitter'', ap_version = getenv env ''APP_VERSION'' ''dev'',
            ap_docs_url = (if openapi_enabled then Some ''/docs'' else None),
            ap_redoc_url = (if openapi_enabled then Some ''/redoc'' else None),
            ap_openapi_url = (if openapi_enabled then Some ''/openapi.json'' else None),
            ap_middleware = [], ap_endpoints = []\<rparr>
      in fold include_router
           [root_router, wellknown_router, jwks_router, streams_router, verification_router, webhook_router, apple_scim_router]
           (add_middleware SecurityHeadersMiddleware (add_middleware RequestIDMiddleware (add_middleware SlowAPIMiddleware application))))"

text \<open>What a middleware does to the response that comes back through it; the limiter adds nothing.\<close>

definition through :: "pystr \<Rightarrow> web_request \<Rightarrow> middleware \<Rightarrow> web_response \<Rightarrow> web_response" where
  "through uuid r m p =
     (case m of SlowAPIMiddleware \<Rightarrow> p | RequestIDMiddleware \<Rightarrow> request_id uuid r p | SecurityHeadersMiddleware \<Rightarrow> security_headers r p)"

text \<open>A response of the innermost handler passes all middlewares; one that a middleware makes itself passes those outside of it.\<close>

definition pass_out :: "pystr \<Rightarrow> web_request \<Rightarrow> middleware list \<Rightarrow> web_response \<Rightarrow> web_response" where
  "pass_out uuid r ms p = foldr (through uuid r) ms p"

definition outside_of :: "middleware \<Rightarrow> middleware list \<Rightarrow> middleware list" where
  "outside_of m ms = takeWhile (\<lambda>m'. m' \<noteq> m) ms"

definition rate_limited_response :: "pystr \<Rightarrow> web_request \<Rightarrow> application \<Rightarrow> web_response \<Rightarrow> web_response" where
  "rate_limited_response uuid r ap p = pass_out uuid r (outside_of SlowAPIMiddleware (ap_middleware ap)) p"

lemma create_app_middleware: "ap_middleware (create_app cfg env) = [SecurityHeadersMiddleware, RequestIDMiddleware, SlowAPIMiddleware]"
  by (simp add: create_app_def include_router_def add_middleware_def Let_def)

lemma create_app_endpoints: "ap_endpoints (create_app cfg env) = app_endpoints"
  by (simp add: create_app_def include_router_def add_middleware_def app_endpoints_def Let_def)

lemma pass_out_respond: "pass_out uuid r (ap_middleware (create_app cfg env)) p = respond_through uuid r p"
  by (simp add: pass_out_def create_app_middleware through_def respond_through_def)

text \<open>
  Every response leaves with the correlation identifier and the security headers, also one that the
  rate limiter makes before any route is reached; the interactive documentation is served only when
  it was asked for.
\<close>

theorem responses_leave_marked:
  fixes cfg env uuid r p
  defines "ap \<equiv> create_app cfg env"
  assumes "p' = pass_out uuid r (ap_middleware ap) p \<or> p' = rate_limited_response uuid r ap p"
  shows "header (wp_headers p') ''x-request-id''
      = (if header (wr_headers r) ''x-request-id'' \<noteq> [] then header (wr_headers r) ''x-request-id'' else take 8 uuid)
    \<and> header (wp_headers p') ''x-content-type-options'' = ''nosniff'' \<and> header (wp_headers p') ''x-frame-options'' = ''DENY''
    \<and> header (wp_headers p') ''referrer-policy'' = ''no-referrer'' \<and> header (wp_headers p') ''cache-control'' = ''no-store''
    \<and> wp_status p' = wp_status p \<and> wp_body p' = wp_body p
    \<and> (\<not> ssf_enable_openapi cfg \<longrightarrow> ap_docs_url ap = None \<and> ap_redoc_url ap = None \<and> ap_openapi_url ap = None)"
proof -
  have "p' = respond_through uuid r p"
    using assms(2) by (auto simp: ap_def pass_out_respond)
      (simp_all add: rate_limited_response_def outside_of_def create_app_middleware pass_out_def through_def respond_through_def)
  moreover have "\<not> ssf_enable_openapi cfg \<longrightarrow> ap_docs_url ap = None \<and> ap_redoc_url ap = None \<and> ap_openapi_url ap = None"
    by (simp add: ap_def create_app_def include_router_def add_middleware_def Let_def)
  ultimately show ?thesis by (simp add: respond_through_def security_headers_def request_id_def Let_def)
qed

section \<open>Scheduled synchronisations\<close>

text \<open>
  One turn of the loop: what the run draws from its environment, and what the routes did to the
  connection while the loop slept.
\<close>

record turn =
  tn_env :: scim_env
  tn_apple :: "pystr \<Rightarrow> scim_net"
  tn_source :: "pystr \<Rightarrow> source_net"
  tn_others :: "scim_world \<Rightarrow> scim_world"

text \<open>The loop over the turns until it is cancelled; \<open>None\<close> when a run waits or does not end.\<close>

fun apple_scim_sync_loop :: "settings \<Rightarrow> turn list \<Rightarrow> scim_world \<Rightarrow> scim_world option" where
  "apple_scim_sync_loop cfg [] w = Some w"
| "apple_scim_sync_loop cfg (t # ts) w =
     (case run_scheduled_apple_scim_sync cfg (tn_env t) (tn_apple t) (tn_source t) (tn_others t w) of
        Finished w' \<Rightarrow> apple_scim_sync_loop cfg ts w'
      | _ \<Rightarrow> None)"

section \<open>Stopping\<close>

text \<open>How a task ended, and the line \<^verbatim>\<open>lifespan\<close> logs about it.\<close>

datatype task_end = WasCancelled | Failed | Returned_normally

datatype stop_line = DeliveryStopped | DeliveryFailed | SyncStopped | SyncFailed

definition lifespan_stop :: "task_end \<Rightarrow> task_end option \<Rightarrow> stop_line list" where
  "lifespan_stop delivery sync =
     (case delivery of WasCancelled \<Rightarrow> [DeliveryStopped] | Failed \<Rightarrow> [DeliveryFailed] | Returned_normally \<Rightarrow> [DeliveryStopped]) @
     (case sync of
        None \<Rightarrow> []
      | Some WasCancelled \<Rightarrow> [SyncStopped]
      | Some Failed \<Rightarrow> [SyncFailed]
      | Some Returned_normally \<Rightarrow> [])"

text \<open>
  What happens after the stop event was set: the worker makes its steps, which are counted, and the
  other tasks theirs in between.
\<close>

inductive stopping_run :: "crypto_lib \<Rightarrow> settings \<Rightarrow> nat \<Rightarrow> sys \<Rightarrow> sys \<Rightarrow> bool" for lib cfg where
  here: "stopping_run lib cfg 0 s s"
| worker: "stopping_run lib cfg k s t \<Longrightarrow> worker_step lib cfg t u \<Longrightarrow> stopping_run lib cfg (Suc k) s u"
| others: "stopping_run lib cfg k s t \<Longrightarrow> env_step lib cfg t u \<Longrightarrow> stopping_run lib cfg k s u"

fun steps_left :: "worker \<Rightarrow> nat" where
  "steps_left (Idle []) = 0"
| "steps_left (Idle (_ # _)) = 1"
| "steps_left Fetching = 2"
| "steps_left (Waiting _ _) = 2"
| "steps_left (Locked _ _) = 1"
| "steps_left (Reading _ _) = 5"
| "steps_left (Holding _ _) = 4"
| "steps_left (Cancelling _ _) = 2"
| "steps_left (Pausing _ _) = 2"
| "steps_left (Ready _ _ _ _) = 3"
| "steps_left (Answered _ _ _) = 2"

lemma steps_left_Idle: "steps_left (Idle items) = (if items = [] then 0 else 1)"
  by (cases items) simp_all

text \<open>The identifier the worker may still push for once the stop event is set.\<close>

fun held_id :: "worker \<Rightarrow> nat option" where
  "held_id (Reading item _) = Some (item_id item)"
| "held_id (Holding item _) = Some (item_id item)"
| "held_id (Ready item _ _ _) = Some (item_id item)"
| "held_id _ = None"

lemma worker_step_stop: "worker_step lib cfg s s' \<Longrightarrow> sys_stop s' = sys_stop s"
  by (auto elim!: worker_stepE)

lemma env_step_keeps: "env_step lib cfg s s' \<Longrightarrow> sys_worker s' = sys_worker s \<and> sys_pushes s' = sys_pushes s \<and> (sys_stop s \<longrightarrow> sys_stop s')"
  by (auto elim!: env_stepE)

lemma stopping_step_decreases:
  "worker_step lib cfg s s' \<Longrightarrow> sys_stop s \<Longrightarrow> steps_left (sys_worker s') < steps_left (sys_worker s)"
  by (cases rule: worker_step.cases) (auto simp: steps_left_Idle elim: uses_database.elims)

lemma due_item_id: "get_due_outbox_item now i d = Some c \<Longrightarrow> item_id c = i"
  by (auto simp: get_due_outbox_item_def row_to_item_def find_Some_iff)

text \<open>A step of the worker after the stop: it pushes for the identifier it holds, or for none; it never takes up another.\<close>

lemma stopping_step_pushes:
  assumes "worker_step lib cfg s s'" "sys_stop s"
  shows "(sys_pushes s' = sys_pushes s \<and> (held_id (sys_worker s') = None \<or> held_id (sys_worker s') = held_id (sys_worker s)))
    \<or> (\<exists>ev items. sys_pushes s' = ev # sys_pushes s \<and> held_id (sys_worker s) = Some (item_id (pe_item ev))
         \<and> sys_worker s' = Answered (pe_item ev) (pe_result ev) items)"
  using assms by (cases rule: worker_step.cases) (auto dest: due_item_id)

text \<open>From an answer there are two ways on: it is written back, or the database fails.\<close>

lemma answered_step_iff:
  "sys_worker s = Answered item r items \<Longrightarrow>
     worker_step lib cfg s u \<longleftrightarrow> u = s\<lparr>sys_worker := Idle []\<rparr>
       \<or> (\<exists>now. u = s\<lparr>sys_db := write_back now item r (sys_db s), sys_worker := Idle items\<rparr>)"
  using worker_step.failed [of s lib cfg] worker_step.written [of s item r items lib cfg]
  by (auto elim!: worker_stepE)

lemma stopping_step_possible: "(\<nexists>u. worker_step lib cfg s u) \<longleftrightarrow> sys_worker s = Idle []" if "sys_stop s"
proof
  assume stuck: "\<nexists>u. worker_step lib cfg s u"
  show "sys_worker s = Idle []"
  proof (cases "sys_worker s")
    case (Idle items)
    with stuck that worker_step.give_up [of s _ _ lib cfg] show ?thesis by (cases items) auto
  next
    case (Waiting i xs)
    with stuck worker_step.acquire show ?thesis by blast
  next
    case (Locked i xs)
    with stuck that worker_step.stopped show ?thesis by blast
  next
    case (Ready i p st xs)
    with stuck worker_step.push show ?thesis by blast
  qed (use stuck worker_step.failed [of s lib cfg] in auto)
qed (use that in \<open>auto elim!: worker_stepE\<close>)

text \<open>An answer that the worker left: it wrote it back, or the database failed.\<close>

definition settled :: "crypto_lib \<Rightarrow> settings \<Rightarrow> sys \<Rightarrow> sys \<Rightarrow> push_event \<Rightarrow> bool" where
  "settled lib cfg s t ev \<longleftrightarrow>
     (\<exists>i j u v now. stopping_run lib cfg i s u \<and> stopping_run lib cfg j v t
        \<and> (\<exists>items. sys_worker u = Answered (pe_item ev) (pe_result ev) items)
        \<and> (sys_db v = write_back now (pe_item ev) (pe_result ev) (sys_db u) \<or> v = u\<lparr>sys_worker := Idle []\<rparr>))"

lemma settled_step:
  assumes "settled lib cfg s t ev" "worker_step lib cfg t u \<or> env_step lib cfg t u"
  shows "settled lib cfg s u ev"
proof -
  from assms(2) have "stopping_run lib cfg j v t \<Longrightarrow> \<exists>j'. stopping_run lib cfg j' v u" for j v
    using stopping_run.worker [of lib cfg j v t u] stopping_run.others [of lib cfg j v t u] by blast
  with assms(1) show ?thesis unfolding settled_def by blast
qed

lemma settles:
  assumes "stopping_run lib cfg k s t" "sys_worker t = Answered (pe_item ev) (pe_result ev) items" "worker_step lib cfg t u"
  shows "settled lib cfg s u ev"
proof -
  from assms(3) obtain now where
    "sys_db u = write_back now (pe_item ev) (pe_result ev) (sys_db t) \<or> u = t\<lparr>sys_worker := Idle []\<rparr>"
    unfolding answered_step_iff [OF assms(2)] by fastforce
  with assms(1,2) stopping_run.here [of lib cfg u] show ?thesis unfolding settled_def by blast
qed

definition pushed_since :: "crypto_lib \<Rightarrow> settings \<Rightarrow> sys \<Rightarrow> sys \<Rightarrow> push_event \<Rightarrow> bool" where
  "pushed_since lib cfg s t ev \<longleftrightarrow>
     sys_pushes t = ev # sys_pushes s \<and> held_id (sys_worker s) = Some (item_id (pe_item ev)) \<and> held_id (sys_worker t) = None
     \<and> ((\<exists>items. sys_worker t = Answered (pe_item ev) (pe_result ev) items) \<or> settled lib cfg s t ev)"

definition quiet_since :: "sys \<Rightarrow> sys \<Rightarrow> bool" where
  "quiet_since s t \<longleftrightarrow> sys_pushes t = sys_pushes s \<and> (held_id (sys_worker t) = None \<or> held_id (sys_worker t) = held_id (sys_worker s))"

lemma stopping_run_steps:
  "stopping_run lib cfg k s t \<Longrightarrow> sys_stop s \<Longrightarrow> sys_stop t \<and> steps_left (sys_worker t) + k \<le> steps_left (sys_worker s)"
proof (induction rule: stopping_run.induct)
  case (worker k s t u)
  then have t: "sys_stop t" "steps_left (sys_worker t) + k \<le> steps_left (sys_worker s)" by simp_all
  with stopping_step_decreases [OF worker(2)] have "steps_left (sys_worker u) < steps_left (sys_worker t)" by simp
  with t worker_step_stop [OF worker(2)] show ?case by simp
next
  case (others k s t u)
  with env_step_keeps [OF others(2)] show ?case by simp
qed simp

lemma stopping_run_pushes:
  "stopping_run lib cfg k s t \<Longrightarrow> sys_stop s \<Longrightarrow> quiet_since s t \<or> (\<exists>ev. pushed_since lib cfg s t ev)"
proof (induction rule: stopping_run.induct)
  case (worker k s t u)
  have stop: "sys_stop t" using stopping_run_steps [OF worker(1) worker.prems] by simp
  have after: "settled lib cfg s u ev"
    if "(\<exists>items. sys_worker t = Answered (pe_item ev) (pe_result ev) items) \<or> settled lib cfg s t ev" for ev
    using that settles [OF worker(1) _ worker(2)] settled_step worker(2) by blast
  from stopping_step_pushes [OF worker(2) stop] consider
    (quiet) "sys_pushes u = sys_pushes t" "held_id (sys_worker u) = None \<or> held_id (sys_worker u) = held_id (sys_worker t)"
    | (push) ev items where "sys_pushes u = ev # sys_pushes t" "held_id (sys_worker t) = Some (item_id (pe_item ev))"
      "sys_worker u = Answered (pe_item ev) (pe_result ev) items" by blast
  then show ?case
  proof cases
    case step: quiet
    from worker.IH [OF worker.prems] show ?thesis
    proof
      assume "quiet_since s t"
      with step have "quiet_since s u" unfolding quiet_since_def by auto
      then show ?thesis ..
    next
      assume "\<exists>ev. pushed_since lib cfg s t ev"
      then obtain ev where "pushed_since lib cfg s t ev" ..
      with step after have "pushed_since lib cfg s u ev" unfolding pushed_since_def by auto
      then show ?thesis by blast
    qed
  next
    case ev: (push ev items)
    with worker.IH [OF worker.prems] have "quiet_since s t" unfolding pushed_since_def by auto
    with ev have "pushed_since lib cfg s u ev" unfolding pushed_since_def quiet_since_def by auto
    then show ?thesis by blast
  qed
next
  case (others k s t u)
  note keeps = env_step_keeps [OF others(2)]
  have "settled lib cfg s t ev \<Longrightarrow> settled lib cfg s u ev" for ev using settled_step others(2) by blast
  with keeps have "pushed_since lib cfg s t ev \<Longrightarrow> pushed_since lib cfg s u ev" for ev unfolding pushed_since_def by auto
  moreover have "quiet_since s t \<Longrightarrow> quiet_since s u" using keeps unfolding quiet_since_def by auto
  ultimately show ?case using others.IH [OF others.prems] by blast
qed (simp add: quiet_since_def)

text \<open>
  C17. The worker stops in an orderly way: from whatever it is doing when the stop event is set, and
  whatever the other tasks do meanwhile, it is idle after at most five more of its steps and cannot get
  stuck before. It sends at most one more token, and only for the item that it had taken up under the
  lock when the event was set. The answer to that push is not dropped: from the state in which it is
  known, the only ways on are that it is written back, as a success or as a failed attempt, or that
  the database fails, in which case the row is as it was.
\<close>

theorem shutdown_finishes:
  assumes "sys_stop s" "stopping_run lib cfg k s t"
  shows "k \<le> 5 \<and> ((\<nexists>u. worker_step lib cfg t u) \<longleftrightarrow> sys_worker t = Idle [])
    \<and> (sys_pushes t = sys_pushes s \<or>
        (\<exists>ev. sys_pushes t = ev # sys_pushes s \<and> held_id (sys_worker s) = Some (item_id (pe_item ev))
           \<and> ((\<exists>items. sys_worker t = Answered (pe_item ev) (pe_result ev) items)
              \<or> (\<exists>i j u v now. stopping_run lib cfg i s u \<and> stopping_run lib cfg j v t
                   \<and> (\<exists>items. sys_worker u = Answered (pe_item ev) (pe_result ev) items)
                   \<and> (sys_db v = write_back now (pe_item ev) (pe_result ev) (sys_db u) \<or> v = u\<lparr>sys_worker := Idle []\<rparr>)))))
    \<and> (\<forall>item r items. sys_worker t = Answered item r items \<longrightarrow>
        (\<forall>u. worker_step lib cfg t u \<longleftrightarrow> u = t\<lparr>sys_worker := Idle []\<rparr>
               \<or> (\<exists>now. u = t\<lparr>sys_db := write_back now item r (sys_db t), sys_worker := Idle items\<rparr>)))"
proof (intro conjI allI impI)
  note steps = stopping_run_steps [OF assms(2,1)]
  have "steps_left (sys_worker s) \<le> 5" by (cases "sys_worker s" rule: steps_left.cases) simp_all
  with steps show "k \<le> 5" by simp
  show "(\<nexists>u. worker_step lib cfg t u) \<longleftrightarrow> sys_worker t = Idle []" using stopping_step_possible [OF conjunct1 [OF steps]] .
  show "sys_pushes t = sys_pushes s \<or>
      (\<exists>ev. sys_pushes t = ev # sys_pushes s \<and> held_id (sys_worker s) = Some (item_id (pe_item ev))
         \<and> ((\<exists>items. sys_worker t = Answered (pe_item ev) (pe_result ev) items)
            \<or> (\<exists>i j u v now. stopping_run lib cfg i s u \<and> stopping_run lib cfg j v t
                 \<and> (\<exists>items. sys_worker u = Answered (pe_item ev) (pe_result ev) items)
                 \<and> (sys_db v = write_back now (pe_item ev) (pe_result ev) (sys_db u) \<or> v = u\<lparr>sys_worker := Idle []\<rparr>))))"
    using stopping_run_pushes [OF assms(2,1)] unfolding quiet_since_def pushed_since_def settled_def by blast
qed (rule answered_step_iff)

text \<open>The stop event is set just before the push of the example run: the push is made and recorded.\<close>

theorem shutdown_finishes_witness:
  "\<exists>p t. stopping_run toy_lib example_settings 2 ((example_state (Ready example_item p example_stream []) [])\<lparr>sys_stop := True\<rparr>) t
     \<and> sys_worker t = Idle [] \<and> outbox (sys_db t) = [] \<and> sys_pushes t = [example_push] \<and> (\<nexists>u. worker_step toy_lib example_settings t u)"
proof -
  let ?p = "delivery_payload_of example_stream example_event example_token"
  let ?s = "(example_state (Ready example_item ?p example_stream []) [])\<lparr>sys_stop := True\<rparr>"
  let ?t = "example_written\<lparr>sys_stop := True\<rparr>"
  have "worker_step toy_lib example_settings ?s (example_end\<lparr>sys_stop := True\<rparr>)"
    using worker_step.push [of ?s example_item ?p example_stream "[]" toy_lib example_settings "Some (Returned True)"]
    by (simp add: example_defs example_push_def)
  moreover have "worker_step toy_lib example_settings (example_end\<lparr>sys_stop := True\<rparr>) ?t"
    using worker_step.written [of "example_end\<lparr>sys_stop := True\<rparr>" example_item "Some (Returned True)" "[]" toy_lib example_settings 300]
    by (simp add: example_defs example_written_def write_back_def example_item_def Outbox.example_row_def example_delivery_def row_to_item_def)
  ultimately have run: "stopping_run toy_lib example_settings 2 ?s ?t"
    by (metis One_nat_def Suc_1 stopping_run.here stopping_run.worker)
  then have "\<nexists>u. worker_step toy_lib example_settings ?t u"
    using shutdown_finishes [OF _ run] by (simp add: example_written_def)
  with run example_emptied show ?thesis by (intro exI [of _ ?p] exI [of _ ?t]) (simp add: example_written_def example_defs)
qed

end
