(* ===== verification/Py_Regex.thy ===== *)
theory Py_Regex
  imports Main
begin

text \<open>
  The part of Python's \<^verbatim>\<open>re\<close> that the release scripts use, on texts as lists of code points: a
  backtracking matcher that lists the ends of all matches at a position in the order in which they
  are tried, so that its first element is the match that is found, and searching, iterating and
  substituting on top of it. The matcher is shown to try exactly the matches of the expression.
\<close>

type_synonym codepoints = "int list"

definition uni :: "string \<Rightarrow> codepoints" where
  "uni s = map of_char s"

text \<open>
  The white space of \<^verbatim>\<open>str.isspace\<close> and of \<^verbatim>\<open>\\s\<close>, and the decimal digits of \<^verbatim>\<open>\\d\<close>: the runs of ten
  of Unicode 16, by their zeros.
\<close>

definition WHITE_SPACE :: codepoints where
  "WHITE_SPACE = [9, 10, 11, 12, 13, 28, 29, 30, 31, 32, 133, 160, 5760, 8192, 8193, 8194, 8195, 8196, 8197, 8198, 8199,
     8200, 8201, 8202, 8232, 8233, 8239, 8287, 12288]"

definition DIGIT_ZEROS :: codepoints where
  "DIGIT_ZEROS =
     [48, 1632, 1776, 1984, 2406, 2534, 2662, 2790, 2918, 3046, 3174, 3302, 3430, 3558, 3664, 3792, 3872,
      4160, 4240, 6112, 6160, 6470, 6608, 6784, 6800, 6992, 7088, 7232, 7248, 42528, 43216, 43264, 43472,
      43504, 43600, 44016, 65296, 66720, 68912, 68928, 69734, 69872, 69942, 70096, 70384, 70736, 70864, 71248,
      71360, 71376, 71386, 71472, 71904, 72016, 72688, 72784, 73040, 73120, 73552, 90416, 92768, 92864, 93008,
      93552, 118000, 120782, 120792, 120802, 120812, 120822, 123200, 123632, 124144, 124401, 125264, 130032]"

definition white :: "int \<Rightarrow> bool" where
  "white c \<longleftrightarrow> c \<in> set WHITE_SPACE"

definition decimal :: "int \<Rightarrow> bool" where
  "decimal c \<longleftrightarrow> (\<exists>z \<in> set DIGIT_ZEROS. z \<le> c \<and> c < z + 10)"

definition strip_cp :: "codepoints \<Rightarrow> codepoints" where
  "strip_cp t = rev (dropWhile white (rev (dropWhile white t)))"

definition rstrip_cp :: "codepoints \<Rightarrow> codepoints" where
  "rstrip_cp t = rev (dropWhile white (rev t))"

section \<open>Expressions\<close>

text \<open>
  \<open>Star\<close> and \<open>Lazy\<close> are the greedy and the reluctant repetition, \<open>Bol\<close> and \<open>Eol\<close> the anchors of multi-line
  mode, \<open>Eos\<close> the dollar of single-line mode.
\<close>

datatype rx =
    One "int \<Rightarrow> bool"
  | Eps
  | Seq rx rx
  | Star rx
  | Lazy rx
  | Grp nat rx
  | Bol
  | Eol
  | Eos

definition lit :: "codepoints \<Rightarrow> rx" where
  "lit s = foldr (\<lambda>c r. Seq (One (\<lambda>x. x = c)) r) s Eps"

definition plus_of :: "rx \<Rightarrow> rx" where
  "plus_of r = Seq r (Star r)"

definition lazy_plus :: "rx \<Rightarrow> rx" where
  "lazy_plus r = Seq r (Lazy r)"

definition times_of :: "nat \<Rightarrow> rx \<Rightarrow> rx" where
  "times_of n r = (Seq r ^^ n) Eps"

definition seqs :: "rx list \<Rightarrow> rx" where
  "seqs rs = foldr Seq rs Eps"

type_synonym captures = "(nat \<times> nat \<times> nat) list"

section \<open>Matching\<close>

definition at_bol :: "codepoints \<Rightarrow> nat \<Rightarrow> bool" where
  "at_bol t i \<longleftrightarrow> i = 0 \<or> t ! (i - 1) = 10"

definition at_eol :: "codepoints \<Rightarrow> nat \<Rightarrow> bool" where
  "at_eol t i \<longleftrightarrow> i = length t \<or> t ! i = 10"

definition at_eos :: "codepoints \<Rightarrow> nat \<Rightarrow> bool" where
  "at_eos t i \<longleftrightarrow> i = length t \<or> Suc i = length t \<and> t ! i = 10"

text \<open>The ends of the matches from a position, with the groups captured, in the order they are tried.\<close>

function (sequential) tries :: "codepoints \<Rightarrow> rx \<Rightarrow> nat \<Rightarrow> captures \<Rightarrow> (nat \<times> captures) list" where
  "tries t (One p) i c = (if i < length t \<and> p (t ! i) then [(Suc i, c)] else [])"
| "tries t Eps i c = [(i, c)]"
| "tries t (Seq r s) i c = concat (map (\<lambda>(j, c'). tries t s j c') (tries t r i c))"
| "tries t (Star r) i c =
     concat (map (\<lambda>(j, c'). if i < j \<and> j \<le> length t then tries t (Star r) j c' else []) (tries t r i c)) @ [(i, c)]"
| "tries t (Lazy r) i c =
     (i, c) # concat (map (\<lambda>(j, c'). if i < j \<and> j \<le> length t then tries t (Lazy r) j c' else []) (tries t r i c))"
| "tries t (Grp n r) i c = map (\<lambda>(j, c'). (j, (n, i, j) # c')) (tries t r i c)"
| "tries t Bol i c = (if at_bol t i then [(i, c)] else [])"
| "tries t Eol i c = (if at_eol t i then [(i, c)] else [])"
| "tries t Eos i c = (if at_eos t i then [(i, c)] else [])"
  by pat_completeness auto

termination
  by (relation "measures [\<lambda>(t, r, i, c). size r, \<lambda>(t, r, i, c). length t - i]") auto

declare tries.simps(4,5) [simp del]

lemma tries_Star:
  "x \<in> set (tries t (Star r) i c) \<longleftrightarrow> x = (i, c) \<or>
     (\<exists>k d. (k, d) \<in> set (tries t r i c) \<and> i < k \<and> k \<le> length t \<and> x \<in> set (tries t (Star r) k d))"
  by (subst tries.simps) (auto split: if_splits)

lemma tries_Lazy:
  "x \<in> set (tries t (Lazy r) i c) \<longleftrightarrow> x = (i, c) \<or>
     (\<exists>k d. (k, d) \<in> set (tries t r i c) \<and> i < k \<and> k \<le> length t \<and> x \<in> set (tries t (Lazy r) k d))"
  by (subst tries.simps) (auto split: if_splits)

section \<open>What is matched\<close>

text \<open>The pairs of positions between which an expression matches.\<close>

primrec spans :: "codepoints \<Rightarrow> rx \<Rightarrow> (nat \<times> nat) set" where
  "spans t (One p) = {(i, j). j = Suc i \<and> i < length t \<and> p (t ! i)}"
| "spans t Eps = Id"
| "spans t (Seq r s) = spans t r O spans t s"
| "spans t (Star r) = (spans t r)\<^sup>*"
| "spans t (Lazy r) = (spans t r)\<^sup>*"
| "spans t (Grp n r) = spans t r"
| "spans t Bol = {(i, j). j = i \<and> at_bol t i}"
| "spans t Eol = {(i, j). j = i \<and> at_eol t i}"
| "spans t Eos = {(i, j). j = i \<and> at_eos t i}"

lemma rtrancl_bounds:
  assumes "(i, j) \<in> R\<^sup>*" "\<And>i j. (i, j) \<in> R \<Longrightarrow> i \<le> j \<and> (i \<le> n \<longrightarrow> j \<le> n)"
  shows "i \<le> j \<and> (i \<le> n \<longrightarrow> j \<le> (n :: nat))"
  using assms(1) by (induction rule: rtrancl_induct) (use assms(2) le_trans in blast)+

lemma spans_bounds: "(i, j) \<in> spans t r \<Longrightarrow> i \<le> j \<and> (i \<le> length t \<longrightarrow> j \<le> length t)"
proof (induction r arbitrary: i j)
  case (Seq r s)
  from Seq.prems obtain k where "(i, k) \<in> spans t r" "(k, j) \<in> spans t s" by auto
  with Seq.IH show ?case by (meson le_trans)
next
  case (Star r)
  then show ?case using rtrancl_bounds [of i j "spans t r" "length t"] by simp
next
  case (Lazy r)
  then show ?case using rtrancl_bounds [of i j "spans t r" "length t"] by simp
qed auto

text \<open>Repetitions lose nothing by never trying an empty turn.\<close>

lemma repeat_complete:
  assumes "(i, j) \<in> (spans t r)\<^sup>*" "i \<le> length t"
    and turn: "\<And>i k c. i \<le> length t \<Longrightarrow> (i, k) \<in> spans t r \<Longrightarrow> \<exists>c'. (k, c') \<in> set (tries t r i c)"
    and stop: "\<And>i c. (i, c) \<in> set (rep i c)"
    and go: "\<And>i k c c' x. (k, c') \<in> set (tries t r i c) \<Longrightarrow> i < k \<Longrightarrow> k \<le> length t \<Longrightarrow> x \<in> set (rep k c') \<Longrightarrow> x \<in> set (rep i c)"
  shows "\<exists>c'. (j, c') \<in> set (rep i c)"
  using assms(1,2)
proof (induction arbitrary: c rule: converse_rtrancl_induct)
  case base
  then show ?case using stop by blast
next
  case (step i k)
  from spans_bounds [OF step.hyps(1)] step.prems have k: "i \<le> k" "k \<le> length t" by auto
  show ?case
  proof (cases "i = k")
    case True
    with step.IH [OF k(2), of c] show ?thesis by simp
  next
    case False
    from turn [OF step.prems step.hyps(1)] obtain c' where c': "(k, c') \<in> set (tries t r i c)" by blast
    from step.IH [OF k(2), of c'] obtain c'' where "(j, c'') \<in> set (rep k c')" by blast
    with go [OF c'] k False show ?thesis by (meson le_neq_implies_less)
  qed
qed

lemma tries_complete: "(i, j) \<in> spans t r \<Longrightarrow> i \<le> length t \<Longrightarrow> \<exists>c'. (j, c') \<in> set (tries t r i c)"
proof (induction r arbitrary: i j c)
  case (Seq r s)
  then obtain k where k: "(i, k) \<in> spans t r" "(k, j) \<in> spans t s" by auto
  with spans_bounds Seq.prems(2) have "k \<le> length t" by blast
  from Seq.IH(1) [OF k(1) Seq.prems(2), of c] obtain c' where c': "(k, c') \<in> set (tries t r i c)" by blast
  from Seq.IH(2) [OF k(2) \<open>k \<le> length t\<close>, of c'] c' show ?case by fastforce
next
  case (Star r)
  show ?case
    by (rule repeat_complete [OF Star.prems(1) [unfolded spans.simps] Star.prems(2) ]) (use Star.IH tries_Star in blast)+
next
  case (Lazy r)
  show ?case
    by (rule repeat_complete [OF Lazy.prems(1) [unfolded spans.simps] Lazy.prems(2) ]) (use Lazy.IH tries_Lazy in blast)+
next
  case (Grp n r)
  from Grp.IH [OF _ Grp.prems(2), of j c] Grp.prems(1) show ?case by force
qed auto

lemma tries_sound: "(j, c') \<in> set (tries t r i c) \<Longrightarrow> (i, j) \<in> spans t r"
proof (induction t r i c arbitrary: j c' rule: tries.induct)
  case (3 t r s i c)
  then show ?case by (simp, blast)
next
  case (4 t r i c)
  show ?case
  proof (cases "(j, c') = (i, c)")
    case False
    with 4(3) tries_Star obtain k d where "(k, d) \<in> set (tries t r i c)" "i < k" "k \<le> length t" "(j, c') \<in> set (tries t (Star r) k d)"
      by blast
    with 4(1,2) show ?thesis by (simp, blast intro: converse_rtrancl_into_rtrancl)
  qed simp
next
  case (5 t r i c)
  show ?case
  proof (cases "(j, c') = (i, c)")
    case False
    with 5(3) tries_Lazy obtain k d where "(k, d) \<in> set (tries t r i c)" "i < k" "k \<le> length t" "(j, c') \<in> set (tries t (Lazy r) k d)"
      by blast
    with 5(1,2) show ?thesis by (simp, blast intro: converse_rtrancl_into_rtrancl)
  qed simp
qed (auto split: if_splits)

text \<open>The matcher tries exactly the matches there are.\<close>

theorem tries_exact: "i \<le> length t \<Longrightarrow> fst ` set (tries t r i c) = {j. (i, j) \<in> spans t r}"
proof (intro equalityI subsetI)
  fix j
  assume "i \<le> length t" "j \<in> {j. (i, j) \<in> spans t r}"
  then obtain c' where "(j, c') \<in> set (tries t r i c)" using tries_complete by blast
  then show "j \<in> fst ` set (tries t r i c)" by (rule image_eqI [rotated]) simp
qed (use tries_sound in fastforce)

section \<open>Searching\<close>

type_synonym found = "nat \<times> nat \<times> captures"

definition match_at :: "codepoints \<Rightarrow> rx \<Rightarrow> nat \<Rightarrow> found option" where
  "match_at t r i = (case tries t r i [] of [] \<Rightarrow> None | (j, c) # _ \<Rightarrow> Some (i, j, c))"

definition search_from :: "codepoints \<Rightarrow> rx \<Rightarrow> nat \<Rightarrow> found option" where
  "search_from t r i = (case List.map_filter (match_at t r) [i..<Suc (length t)] of [] \<Rightarrow> None | m # _ \<Rightarrow> Some m)"

definition fullmatch :: "rx \<Rightarrow> codepoints \<Rightarrow> bool" where
  "fullmatch r t \<longleftrightarrow> (\<exists>(j, c) \<in> set (tries t r 0 []). j = length t)"

definition group :: "codepoints \<Rightarrow> captures \<Rightarrow> nat \<Rightarrow> codepoints" where
  "group t c n = (case map_of c n of Some (i, j) \<Rightarrow> drop i (take j t) | None \<Rightarrow> [])"

lemma search_from_bounds:
  assumes "search_from t r i = Some (a, b, c)"
  shows "i \<le> a \<and> a \<le> b \<and> b \<le> length t \<and> (b, c) \<in> set (tries t r a [])"
proof -
  from assms have "(a, b, c) \<in> set (List.map_filter (match_at t r) [i..<Suc (length t)])"
    by (auto simp: search_from_def simp del: upt_Suc split: list.splits)
  then obtain k where k: "i \<le> k" "k \<le> length t" "match_at t r k = Some (a, b, c)"
    by (auto simp: List.map_filter_def simp del: upt_Suc split: option.splits if_splits)
  then have "a = k" "(b, c) \<in> set (tries t r k [])" by (auto simp: match_at_def split: list.splits prod.splits)
  with k spans_bounds [OF tries_sound] show ?thesis by blast
qed

text \<open>All matches from a position on, each search going on behind the previous match.\<close>

function finditer :: "rx \<Rightarrow> codepoints \<Rightarrow> nat \<Rightarrow> found list" where
  "finditer r t i =
     (case search_from t r i of
        None \<Rightarrow> []
      | Some (a, b, c) \<Rightarrow> (a, b, c) # (if i < max b (Suc a) then finditer r t (max b (Suc a)) else []))"
  by pat_completeness auto

termination
  by (relation "measure (\<lambda>(r, t, i). Suc (length t) - i)") (auto dest: search_from_bounds)

declare finditer.simps [simp del]

text \<open>
  Substitution: the text between the matches stays, every match is replaced.
\<close>

fun splice :: "codepoints \<Rightarrow> (captures \<Rightarrow> codepoints) \<Rightarrow> nat \<Rightarrow> found list \<Rightarrow> codepoints" where
  "splice t f i [] = drop i t"
| "splice t f i ((a, b, c) # ms) = drop i (take a t) @ f c @ splice t f b ms"

definition sub_all :: "rx \<Rightarrow> (codepoints \<Rightarrow> captures \<Rightarrow> codepoints) \<Rightarrow> codepoints \<Rightarrow> codepoints" where
  "sub_all r f t = splice t (f t) 0 (finditer r t 0)"

definition sub_first :: "rx \<Rightarrow> codepoints \<Rightarrow> codepoints \<Rightarrow> codepoints" where
  "sub_first r s t = splice t (\<lambda>_. s) 0 (case search_from t r 0 of None \<Rightarrow> [] | Some m \<Rightarrow> [m])"

text \<open>The matches found are in order and do not overlap.\<close>

definition in_order :: "nat \<Rightarrow> nat \<Rightarrow> found list \<Rightarrow> bool" where
  "in_order i n ms \<longleftrightarrow> sorted_wrt (\<lambda>(a, b, c) (a', b', c'). b \<le> a' \<and> a < a') ms \<and> (\<forall>(a, b, c) \<in> set ms. i \<le> a \<and> a \<le> b \<and> b \<le> n)"

lemma finditer_in_order: "in_order i (length t) (finditer r t i)"
proof (induction r t i rule: finditer.induct)
  case (1 r t i)
  show ?case
  proof (cases "search_from t r i")
    case None
    then show ?thesis by (subst finditer.simps) (simp add: in_order_def)
  next
    case (Some m)
    obtain a b c where m: "m = (a, b, c)" by (metis prod_cases3)
    from search_from_bounds [OF Some [unfolded m]] have ab: "i \<le> a" "a \<le> b" "b \<le> length t" by auto
    then have "i < max b (Suc a)" by auto
    with "1.IH" [OF Some, of a "(b, c)" b c] m have "in_order (max b (Suc a)) (length t) (finditer r t (max b (Suc a)))" by simp
    with ab Some m \<open>i < max b (Suc a)\<close> show ?thesis
      by (subst finditer.simps) (fastforce simp: in_order_def)
  qed
qed

end
