(* ===== verification/Release_Scripts.thy ===== *)
theory Release_Scripts
  imports Py_Regex "HOL-Library.AList"
begin

text \<open>
  The release tooling under \<^verbatim>\<open>scripts/\<close>: \<^verbatim>\<open>generate-release-notes.py\<close>, \<^verbatim>\<open>sync-release-docs.py\<close> and
  \<^verbatim>\<open>sync-wiki.py\<close>, on files that map a path to its text. A script gives its exit status, or the
  message of \<^verbatim>\<open>SystemExit\<close>, and the files it leaves; what it prints is left out. A path is relative to
  the repository, except those of the wiki checkout, which are relative to that.
\<close>

type_synonym files = "codepoints \<Rightarrow> codepoints option"

datatype exit = Exit nat | SystemExit

definition EM :: codepoints where "EM = [8212]"

text \<open>Texts from their parts.\<close>

definition ljoin :: "codepoints list \<Rightarrow> codepoints" where
  "ljoin ls = concat (map (\<lambda>l. l @ [10]) ls)"

definition starts :: "codepoints \<Rightarrow> codepoints \<Rightarrow> bool" where
  "starts t p \<longleftrightarrow> take (length p) t = p"

section \<open>Changelog\<close>

definition dot :: rx where "dot = One (\<lambda>c. c \<noteq> 10)"
definition space_rx :: rx where "space_rx = One white"
definition digit_rx :: rx where "digit_rx = One decimal"
definition not_bracket :: rx where "not_bracket = One (\<lambda>c. c \<noteq> 93)"

text \<open>\<^verbatim>\<open>^## \[[^\]]+\].*$\<close> and \<^verbatim>\<open>^## \[([^\]]+)\] - (\d{4}-\d{2}-\d{2}) - (.+?)\s*$\<close> with long dashes.\<close>

definition SECTION_RE :: rx where
  "SECTION_RE = seqs [Bol, lit (uni ''## ['' ), plus_of not_bracket, lit (uni '']''), Star dot, Eol]"

definition date_rx :: rx where
  "date_rx = seqs [times_of 4 digit_rx, lit (uni ''-''), times_of 2 digit_rx, lit (uni ''-''), times_of 2 digit_rx]"

definition HEADER_RE :: rx where
  "HEADER_RE = seqs [Bol, lit (uni ''## [''), Grp 1 (plus_of not_bracket), lit (uni ''] '' @ EM @ uni '' ''), Grp 2 date_rx,
     lit (uni '' '' @ EM @ uni '' ''), Grp 3 (lazy_plus dot), Star space_rx, Eol]"

text \<open>\<^verbatim>\<open>\n*-{3,}\s*$\<close>\<close>

definition DIVIDER_RE :: rx where
  "DIVIDER_RE = seqs [Star (One (\<lambda>c. c = 10)), times_of 3 (One (\<lambda>c. c = 45)), Star (One (\<lambda>c. c = 45)), Star space_rx, Eos]"

definition VERSION_RE :: rx where
  "VERSION_RE = seqs [plus_of digit_rx, lit (uni ''.''), plus_of digit_rx, lit (uni ''.''), plus_of digit_rx]"

definition section_body :: "codepoints \<Rightarrow> nat \<Rightarrow> nat \<Rightarrow> codepoints" where
  "section_body t start stop = rstrip_cp (sub_all DIVIDER_RE (\<lambda>_ _. []) (strip_cp (drop start (take stop t))))"

definition boundaries :: "codepoints \<Rightarrow> nat list" where
  "boundaries t = map fst (finditer SECTION_RE t 0)"

definition section_end :: "codepoints \<Rightarrow> nat \<Rightarrow> nat" where
  "section_end t a = (case filter (\<lambda>b. a < b) (boundaries t) of [] \<Rightarrow> length t | b # _ \<Rightarrow> b)"

text \<open>Version, date, title and body of an entry; a later entry of a version replaces an earlier one.\<close>

definition section_of :: "codepoints \<Rightarrow> found \<Rightarrow> codepoints \<times> (codepoints \<times> codepoints \<times> codepoints)" where
  "section_of t m = (case m of (a, b, c) \<Rightarrow>
     (group t c 1, (group t c 2, group t c 3, section_body t b (section_end t a))))"

definition parse_sections :: "codepoints \<Rightarrow> codepoints \<Rightarrow> (codepoints \<times> codepoints \<times> codepoints) option" where
  "parse_sections t = map_of (rev (map (section_of t) (finditer HEADER_RE t 0)))"

section \<open>Release notes\<close>

definition deploy_footer :: "codepoints \<Rightarrow> codepoints" where
  "deploy_footer version =
     ljoin [uni ''---'', [], uni ''### Deploy'', [],
       uni ''- `ghcr.io/solarssk/ssf-transmitter:'' @ version @ uni ''` / '' @
       uni ''`docker.io/solarssk/ssf-transmitter:'' @ version @ uni ''` '' @ EM @ uni '' same image, both registries, '' @
       uni ''`linux/amd64` and `linux/arm64`'',
       uni ''- Upgrade notes: '' @
       uni ''[docs/Upgrading.md](https://github.com/solarssk/ssf-transmitter/blob/main/docs/Upgrading.md)'']"

definition notes_path :: "codepoints \<Rightarrow> codepoints" where
  "notes_path version = uni ''.github/release-notes/v'' @ version @ uni ''.md''"

definition CHANGELOG :: codepoints where "CHANGELOG = uni ''CHANGELOG.md''"

definition remove_v :: "codepoints \<Rightarrow> codepoints" where
  "remove_v s = (case s of c # cs \<Rightarrow> if c = 118 then cs else s | [] \<Rightarrow> [])"

text \<open>The arguments without the program's name; \<open>None\<close> is the exception of an unreadable file.\<close>

definition generate_release_notes :: "codepoints list \<Rightarrow> files \<Rightarrow> (exit \<times> files) option" where
  "generate_release_notes args fs =
     (case args of
        [arg] \<Rightarrow>
          (let version = remove_v arg in
           if \<not> fullmatch VERSION_RE version then Some (Exit 1, fs)
           else (case fs CHANGELOG of
               None \<Rightarrow> None
             | Some text \<Rightarrow>
                 (case parse_sections text version of
                    None \<Rightarrow> Some (Exit 1, fs)
                  | Some (date, title, body) \<Rightarrow>
                      if body = [] then Some (Exit 1, fs)
                      else Some (Exit 0, fs(notes_path version \<mapsto> body @ [10, 10] @ deploy_footer version)))))
      | _ \<Rightarrow> Some (Exit 1, fs))"

section \<open>Pointers to the current release\<close>

text \<open>\<^verbatim>\<open>[\d.]+\<close>\<close>

definition version_rx :: rx where
  "version_rx = plus_of (One (\<lambda>c. decimal c \<or> c = 46))"

definition read_current_version :: "codepoints \<Rightarrow> codepoints option" where
  "read_current_version version = (if fullmatch VERSION_RE version then Some version else None)"

text \<open>The header of \<^verbatim>\<open>sync-release-docs.py\<close> captures the version and the title only.\<close>

definition TITLE_RE :: rx where
  "TITLE_RE = seqs [Bol, lit (uni ''## [''), Grp 1 (plus_of not_bracket), lit (uni ''] '' @ EM @ uni '' ''), date_rx,
     lit (uni '' '' @ EM @ uni '' ''), Grp 2 (lazy_plus dot), Star space_rx, Eol]"

definition read_title_for :: "codepoints \<Rightarrow> codepoints \<Rightarrow> codepoints option" where
  "read_title_for text version =
     map_option (\<lambda>(a, b, c). group text c 2) (find (\<lambda>(a, b, c). group text c 1 = version) (finditer TITLE_RE text 0))"

text \<open>A pointer: a text before the version, the version, and what follows it.\<close>

definition pointer :: "string \<Rightarrow> rx \<Rightarrow> rx" where
  "pointer before after = seqs [lit (uni before), version_rx, after]"

definition RELEASE_URL :: codepoints where
  "RELEASE_URL = uni ''https://github.com/solarssk/ssf-transmitter/releases/tag/v''"

definition stable_rx :: rx where
  "stable_rx = seqs [lit (uni ''**Current stable release:** `v''), version_rx, lit (uni ''` '' @ EM @ uni '' [''), lazy_plus dot,
     lit (uni '']('' @ RELEASE_URL), version_rx, lit (uni '')'')]"

definition compose_doc :: codepoints where "compose_doc = uni ''docs/synology-authentik-compose.md''"
definition deployment_doc :: codepoints where "deployment_doc = uni ''docs/Deployment.md''"

definition patterns_for :: "codepoints \<Rightarrow> codepoints \<Rightarrow> (codepoints \<times> rx \<times> codepoints) list" where
  "patterns_for version title =
     [(uni ''docs/README.md'', stable_rx,
         uni ''**Current stable release:** `v'' @ version @ uni ''` '' @ EM @ uni '' ['' @ title @ uni '']('' @ RELEASE_URL @ version @ uni '')''),
      (compose_doc, pointer ''**Current release:** `ghcr.io/solarssk/ssf-transmitter:'' (lit (uni ''`'')),
         uni ''**Current release:** `ghcr.io/solarssk/ssf-transmitter:'' @ version @ uni ''`''),
      (compose_doc, pointer ''`docker.io/solarssk/ssf-transmitter:'' (lit (uni ''` '' @ EM @ uni '' same image, public'')),
         uni ''`docker.io/solarssk/ssf-transmitter:'' @ version @ uni ''` '' @ EM @ uni '' same image, public''),
      (compose_doc, pointer ''Swap `image:` to `docker.io/solarssk/ssf-transmitter:'' (lit (uni ''` for the public'')),
         uni ''Swap `image:` to `docker.io/solarssk/ssf-transmitter:'' @ version @ uni ''` for the public''),
      (compose_doc, pointer ''image: ghcr.io/solarssk/ssf-transmitter:'' Eps,
         uni ''image: ghcr.io/solarssk/ssf-transmitter:'' @ version),
      (compose_doc, pointer ''Pin `'' (lit (uni ''` in production.'')),
         uni ''Pin `'' @ version @ uni ''` in production.''),
      (compose_doc, pointer ''Stable release tags (`v'' (lit (uni ''`) update the `latest` Docker tag'')),
         uni ''Stable release tags (`v'' @ version @ uni ''`) update the `latest` Docker tag''),
      (deployment_doc, pointer ''ghcr.io/solarssk/ssf-transmitter:'' (seqs [plus_of (lit (uni '' '')), lit (uni ''# pinned release'')]),
         uni ''ghcr.io/solarssk/ssf-transmitter:'' @ version @ uni ''     # pinned release''),
      (deployment_doc, pointer ''docker.io/solarssk/ssf-transmitter:'' (seqs [plus_of (lit (uni '' '')), lit (uni ''# same image, Docker Hub'')]),
         uni ''docker.io/solarssk/ssf-transmitter:'' @ version @ uni ''   # same image, Docker Hub''),
      (deployment_doc, pointer ''image: ghcr.io/solarssk/ssf-transmitter:'' Eps,
         uni ''image: ghcr.io/solarssk/ssf-transmitter:'' @ version),
      (deployment_doc, pointer ''docker.io/solarssk/ssf-transmitter:'' (lit (uni ''` to pull from Docker Hub'')),
         uni ''docker.io/solarssk/ssf-transmitter:'' @ version @ uni ''` to pull from Docker Hub''),
      (uni ''docs/API.md'', pointer (CHR 0x22 # ''version'' @ [CHR 0x22] @ '': '' @ [CHR 0x22]) (lit (uni [CHR 0x22])),
         uni (CHR 0x22 # ''version'' @ [CHR 0x22] @ '': '' @ [CHR 0x22]) @ version @ uni [CHR 0x22])]"

text \<open>
  The first loop of \<^verbatim>\<open>main\<close>: the new text of every document, in the order in which they come up; a
  text that is empty is read again. The second loop compares and writes.
\<close>

datatype pointer_error = FileMissing | PatternMissing

fun update_docs :: "files \<Rightarrow> (codepoints \<times> codepoints) list \<Rightarrow> (codepoints \<times> rx \<times> codepoints) list \<Rightarrow>
    pointer_error + (codepoints \<times> codepoints) list" where
  "update_docs fs by_path [] = Inr by_path"
| "update_docs fs by_path ((rel, r, s) # ps) =
     (case (case map_of by_path rel of Some t \<Rightarrow> if t \<noteq> [] then Some t else fs rel | None \<Rightarrow> fs rel) of
        None \<Rightarrow> Inl FileMissing
      | Some t \<Rightarrow>
          if search_from t r 0 = None then Inl PatternMissing
          else update_docs fs (AList.update rel (sub_first r s t) by_path) ps)"

fun write_docs :: "bool \<Rightarrow> (codepoints \<times> codepoints) list \<Rightarrow> files \<Rightarrow> codepoints list \<times> files" where
  "write_docs check [] fs = ([], fs)"
| "write_docs check ((rel, updated) # ds) fs =
     (let (stale, fs') = write_docs check ds (if fs rel \<noteq> Some updated \<and> \<not> check then fs(rel \<mapsto> updated) else fs)
      in (if fs rel \<noteq> Some updated then rel # stale else stale, fs'))"

definition sync_release_docs :: "bool \<Rightarrow> codepoints \<Rightarrow> files \<Rightarrow> (exit \<times> files) option" where
  "sync_release_docs check project_version fs =
     (case read_current_version project_version of
        None \<Rightarrow> Some (SystemExit, fs)
      | Some version \<Rightarrow>
          (case fs CHANGELOG of
             None \<Rightarrow> None
           | Some text \<Rightarrow>
               (case read_title_for text version of
                  None \<Rightarrow> Some (SystemExit, fs)
                | Some title \<Rightarrow>
                    (case update_docs fs [] (patterns_for version title) of
                       Inl FileMissing \<Rightarrow> None
                     | Inl PatternMissing \<Rightarrow> Some (SystemExit, fs)
                     | Inr by_path \<Rightarrow>
                         (case write_docs check by_path fs of
                            (stale, fs') \<Rightarrow> Some (Exit (if check \<and> stale \<noteq> [] then 1 else 0), fs'))))))"

section \<open>Wiki pages\<close>

text \<open>A path from the file system's root is the list of its parts; the repository is at \<open>root\<close>.\<close>

type_synonym parts = "codepoints list"

definition MAPPING :: "(codepoints \<times> codepoints) list" where
  "MAPPING = map (\<lambda>(p, w). (uni p, uni w))
     [(''docs/API.md'', ''API-Reference''), (''docs/Apple-SCIM-Sync.md'', ''Apple-SCIM-Sync''),
      (''docs/Configuration.md'', ''Configuration''), (''docs/Deployment.md'', ''Deployment''),
      (''docs/Event-Mapping.md'', ''Event-Mapping''), (''docs/Key-Management.md'', ''Key-Management''),
      (''docs/Troubleshooting.md'', ''Troubleshooting''), (''docs/Upgrading.md'', ''Upgrading''),
      (''docs/synology-authentik-compose.md'', ''Synology-Authentik-Compose''),
      (''docs/security/DATA-PROTECTION.md'', ''Data-Protection''), (''docs/security/Security-Notes.md'', ''Security-Notes'')]"

definition REPO_BLOB_BASE :: codepoints where
  "REPO_BLOB_BASE = uni ''https://github.com/solarssk/ssf-transmitter/blob/main''"

text \<open>\<^verbatim>\<open>(\]\()([^)]+)(\))\<close>\<close>

definition LINK_RE :: rx where
  "LINK_RE = seqs [Grp 1 (lit (uni ''](''))  , Grp 2 (plus_of (One (\<lambda>c. c \<noteq> 41))), Grp 3 (lit (uni '')''))]"

fun split_cp :: "int \<Rightarrow> codepoints \<Rightarrow> codepoints list" where
  "split_cp s [] = [[]]"
| "split_cp s (c # cs) = (if c = s then [] # split_cp s cs else (case split_cp s cs of p # ps \<Rightarrow> (c # p) # ps | [] \<Rightarrow> [[c]]))"

text \<open>\<^verbatim>\<open>(directory / path).resolve()\<close>, where no part is a symbolic link.\<close>

definition step_into :: "codepoints \<Rightarrow> parts \<Rightarrow> parts" where
  "step_into c dir = (if c = [] \<or> c = uni ''.'' then dir else if c = uni ''..'' then butlast dir else dir @ [c])"

definition resolve :: "parts \<Rightarrow> codepoints \<Rightarrow> parts" where
  "resolve dir path = fold step_into (split_cp 47 path) (if starts path (uni ''/'') then [] else dir)"

fun join_parts :: "parts \<Rightarrow> codepoints" where
  "join_parts [] = uni ''.''"
| "join_parts [p] = p"
| "join_parts (p # ps) = p @ uni ''/'' @ join_parts ps"

definition relative_to :: "parts \<Rightarrow> parts \<Rightarrow> codepoints option" where
  "relative_to root path = (if take (length root) path = root then Some (join_parts (drop (length root) path)) else None)"

definition is_external :: "codepoints \<Rightarrow> bool" where
  "is_external target \<longleftrightarrow> starts target (uni ''http://'') \<or> starts target (uni ''https://'') \<or> starts target (uni ''mailto:'')"

text \<open>The part of a target before its fragment, and the fragment without the hash.\<close>

definition path_part :: "codepoints \<Rightarrow> codepoints" where
  "path_part target = takeWhile (\<lambda>c. c \<noteq> 35) target"

definition fragment :: "codepoints \<Rightarrow> codepoints" where
  "fragment target = tl (dropWhile (\<lambda>c. c \<noteq> 35) target)"

definition source_dir :: "parts \<Rightarrow> codepoints \<Rightarrow> parts" where
  "source_dir root source = root @ butlast (split_cp 47 source)"

definition rewrite_link :: "parts \<Rightarrow> (parts \<Rightarrow> bool) \<Rightarrow> codepoints \<Rightarrow> codepoints \<Rightarrow> codepoints" where
  "rewrite_link root is_file target source =
     (if is_external target then target
      else if path_part target = [] then target
      else
        (let resolved = resolve (source_dir root source) (path_part target);
             with_fragment = (\<lambda>new. if fragment target \<noteq> [] then new @ [35] @ fragment target else new)
         in case relative_to root resolved of
              None \<Rightarrow> target
            | Some repo_relative \<Rightarrow>
                (case map_of MAPPING repo_relative of
                   Some page \<Rightarrow> with_fragment page
                 | None \<Rightarrow> if is_file resolved then with_fragment (REPO_BLOB_BASE @ uni ''/'' @ repo_relative) else target)))"

definition convert :: "parts \<Rightarrow> (parts \<Rightarrow> bool) \<Rightarrow> codepoints \<Rightarrow> codepoints \<Rightarrow> codepoints" where
  "convert root is_file text source =
     sub_all LINK_RE (\<lambda>t c. group t c 1 @ rewrite_link root is_file (group t c 2) source @ group t c 3) text"

text \<open>The pages are written one by one, and those before a missing source stay written.\<close>

fun sync_pages :: "parts \<Rightarrow> (parts \<Rightarrow> bool) \<Rightarrow> files \<Rightarrow> (codepoints \<times> codepoints) list \<Rightarrow> files \<Rightarrow> (exit \<times> files) option" where
  "sync_pages root is_file fs [] wiki = Some (Exit 0, wiki)"
| "sync_pages root is_file fs ((repo_relative, page) # ms) wiki =
     (if \<not> is_file (root @ split_cp 47 repo_relative) then Some (Exit 1, wiki)
      else case fs repo_relative of
        None \<Rightarrow> None
      | Some text \<Rightarrow> sync_pages root is_file fs ms (wiki(page @ uni ''.md'' \<mapsto> convert root is_file text repo_relative)))"

definition sync_wiki :: "parts \<Rightarrow> (parts \<Rightarrow> bool) \<Rightarrow> files \<Rightarrow> codepoints list \<Rightarrow> (codepoints \<Rightarrow> files option) \<Rightarrow> (exit \<times> files) option" where
  "sync_wiki root is_file fs args checkout =
     (case args of
        [dir] \<Rightarrow> (case checkout dir of None \<Rightarrow> Some (Exit 1, Map.empty) | Some wiki \<Rightarrow> sync_pages root is_file fs MAPPING wiki)
      | _ \<Rightarrow> Some (Exit 1, Map.empty))"

section \<open>Entries keep to themselves\<close>

lemma boundaries_sorted: "sorted (boundaries t)"
  using finditer_in_order [of 0 t SECTION_RE]
  by (auto simp: boundaries_def in_order_def sorted_map sorted_wrt_iff_nth_less case_prod_beta less_imp_le)

lemma section_end_spec:
  "a < section_end t a \<or> section_end t a = length t" "section_end t a = length t \<or> section_end t a \<in> set (boundaries t)"
  "b \<in> set (boundaries t) \<Longrightarrow> a < b \<Longrightarrow> section_end t a \<le> b"
proof -
  have sorted: "sorted (filter (\<lambda>b. a < b) (boundaries t))" by (rule sorted_filter [of "\<lambda>x. x", simplified]) (rule boundaries_sorted)
  have mem: "x \<in> set (filter (\<lambda>b. a < b) (boundaries t)) \<longleftrightarrow> x \<in> set (boundaries t) \<and> a < x" for x by simp
  show "a < section_end t a \<or> section_end t a = length t" "section_end t a = length t \<or> section_end t a \<in> set (boundaries t)"
    using mem by (cases "filter (\<lambda>b. a < b) (boundaries t)"; force simp: section_end_def)+
  show "b \<in> set (boundaries t) \<Longrightarrow> a < b \<Longrightarrow> section_end t a \<le> b"
    using mem [of b] sorted by (cases "filter (\<lambda>b. a < b) (boundaries t)") (auto simp: section_end_def simp del: filter_is_subset)
qed

text \<open>
  The notes of a release are those of its own entry: when a file is written it is the one of the
  version asked for, which is three numbers, and its text is the entry's body and the footer. The
  body is cut out of the changelog between the entry's heading and the next heading of any kind, so
  that no text of another entry gets into it, not even of one without a title.
\<close>

theorem release_notes_from_own_entry:
  assumes "generate_release_notes args fs = Some (e, fs')" "fs' \<noteq> fs"
  shows "\<exists>version tx a b c body. e = Exit 0 \<and> args \<noteq> [] \<and> version = remove_v (hd args) \<and> fullmatch VERSION_RE version
    \<and> fs CHANGELOG = Some tx \<and> (a, b, c) \<in> set (finditer HEADER_RE tx 0) \<and> group tx c 1 = version
    \<and> body = section_body tx b (section_end tx a) \<and> body \<noteq> []
    \<and> (\<forall>h \<in> set (boundaries tx). \<not> (a < h \<and> h < section_end tx a))
    \<and> fs' = fs(notes_path version \<mapsto> body @ [10, 10] @ deploy_footer version)"
proof -
  from assms obtain arg tx date heading body where *: "args = [arg]" "fullmatch VERSION_RE (remove_v arg)" "fs CHANGELOG = Some tx"
    "parse_sections tx (remove_v arg) = Some (date, heading, body)" "body \<noteq> []" "e = Exit 0"
    "fs' = fs(notes_path (remove_v arg) \<mapsto> body @ [10, 10] @ deploy_footer (remove_v arg))"
    by (auto simp: generate_release_notes_def Let_def split: list.splits option.splits if_splits)
  from map_of_SomeD [OF *(4) [unfolded parse_sections_def]] obtain a b c where
    "(a, b, c) \<in> set (finditer HEADER_RE tx 0)" "group tx c 1 = remove_v arg" "body = section_body tx b (section_end tx a)"
    by (auto simp: section_of_def)
  moreover have "\<forall>h \<in> set (boundaries tx). \<not> (a < h \<and> h < section_end tx a)" using section_end_spec(3) [of _ tx a] by force
  ultimately show ?thesis using *
    by (rule_tac x = "remove_v arg" in exI, rule_tac x = tx in exI, rule_tac x = a in exI, rule_tac x = b in exI,
        rule_tac x = c in exI, rule_tac x = body in exI) simp
qed

text \<open>An entry of a small changelog, followed by a heading without a title.\<close>

definition example_changelog :: codepoints where
  "example_changelog = uni ''## [1.2.3] '' @ EM @ uni '' 2026-01-02 '' @ EM @ uni '' T'' @ [10, 10] @ uni ''b'' @ [10, 10] @ uni ''---'' @ [10, 10]
     @ uni ''## [1.2.2]'' @ [10] @ uni ''old'' @ [10]"

lemma example_sections:
  "parse_sections example_changelog (uni ''1.2.3'') = Some (uni ''2026-01-02'', uni ''T'', uni ''b'')"
  "parse_sections example_changelog (uni ''1.2.2'') = None"
  by code_simp+

section \<open>Checking and writing agree\<close>

lemma update_docs_keys:
  "update_docs fs by_path ps = Inr ds \<Longrightarrow> distinct (map fst by_path) \<Longrightarrow> distinct (map fst ds) \<and> set (map fst ds) = set (map fst by_path) \<union> set (map fst ps)"
proof (induction fs by_path ps rule: update_docs.induct)
  case (2 fs by_path rel r s ps)
  from "2.prems"(1) obtain t where
    t: "(case map_of by_path rel of Some t \<Rightarrow> if t \<noteq> [] then Some t else fs rel | None \<Rightarrow> fs rel) = Some t" "search_from t r 0 \<noteq> None"
      "update_docs fs (AList.update rel (sub_first r s t) by_path) ps = Inr ds"
    by (auto split: option.splits if_splits)
  from "2.IH" [OF t(1,2,3) distinct_update [OF "2.prems"(2)]] show ?case by (auto simp: dom_update update_keys)
qed simp

lemma write_docs_keeps: "rel \<notin> set (map fst ds) \<Longrightarrow> snd (write_docs check ds fs) rel = fs rel"
  by (induction check ds fs rule: write_docs.induct) (auto simp: Let_def split: prod.splits if_splits)

lemma write_docs_check: "snd (write_docs True ds fs) = fs"
  by (induction True ds fs rule: write_docs.induct) (auto simp: Let_def split: prod.splits)

lemma write_docs_stale:
  "distinct (map fst ds) \<Longrightarrow> fst (write_docs check ds fs) = [] \<longleftrightarrow> (\<forall>(rel, u) \<in> set ds. fs rel = Some u)"
proof (induction check ds fs rule: write_docs.induct)
  case (2 check rel u ds fs)
  have "\<forall>(r, v) \<in> set ds. r \<noteq> rel" using "2.prems" by (auto simp: image_iff)
  with 2 show ?case by (auto simp: Let_def case_prod_beta split: if_splits)
qed simp

lemma write_docs_all: "distinct (map fst ds) \<Longrightarrow> (rel, u) \<in> set ds \<Longrightarrow> snd (write_docs False ds fs) rel = Some u"
proof (induction False ds fs rule: write_docs.induct)
  case (2 rel' u' ds fs)
  then show ?case using write_docs_keeps [of rel ds False] by (auto simp: Let_def case_prod_beta split: if_splits)
qed simp

lemma write_docs_same: "\<forall>(rel, u) \<in> set ds. fs rel = Some u \<Longrightarrow> write_docs check ds fs = ([], fs)"
  by (induction check ds fs rule: write_docs.induct) auto

text \<open>
  C39. The check of the release workflow means what it says: it never changes a file, and it succeeds in
  exactly the case that a run without the check succeeds and would change none. A run without it
  writes only when it succeeds: one that stops changes none either.
\<close>

theorem check_agrees_with_sync:
  "(sync_release_docs True v fs = Some (Exit 0, fs) \<longleftrightarrow> sync_release_docs False v fs = Some (Exit 0, fs))
   \<and> map_option snd (sync_release_docs True v fs) \<in> {None, Some fs}
   \<and> sync_release_docs False v fs \<in> {None, Some (SystemExit, fs)} \<union> range (\<lambda>fs'. Some (Exit 0, fs'))"
proof -
  have "(fst (write_docs True ds fs) = []) = (snd (write_docs False ds fs) = fs)"
    if "update_docs fs [] ps = Inr ds" for ps ds
  proof -
    from update_docs_keys [OF that] have d: "distinct (map fst ds)" by simp
    show ?thesis
    proof
      assume "fst (write_docs True ds fs) = []"
      then show "snd (write_docs False ds fs) = fs" using write_docs_same write_docs_stale [OF d] by fastforce
    next
      assume *: "snd (write_docs False ds fs) = fs"
      have "\<forall>(rel, u) \<in> set ds. fs rel = Some u" using write_docs_all [OF d, of _ _ fs] unfolding * by blast
      then show "fst (write_docs True ds fs) = []" using write_docs_stale [OF d] by blast
    qed
  qed
  then show ?thesis
    by (auto simp: sync_release_docs_def case_prod_beta write_docs_check split: option.splits sum.splits pointer_error.splits)
qed

section \<open>Links of a wiki page\<close>

lemma map_of_MAPPING_page: "map_of MAPPING p = Some page \<Longrightarrow> page \<in> set (map snd MAPPING) \<and> 35 \<notin> set page \<and> page \<noteq> []"
proof -
  have "\<forall>(p, w) \<in> set MAPPING. 35 \<notin> set w \<and> w \<noteq> []" by code_simp
  then show "map_of MAPPING p = Some page \<Longrightarrow> page \<in> set (map snd MAPPING) \<and> 35 \<notin> set page \<and> page \<noteq> []"
    by (force dest: map_of_SomeD)
qed

lemma path_part_page: "35 \<notin> set page \<Longrightarrow> path_part page = page" "35 \<notin> set page \<Longrightarrow> path_part (page @ 35 # f) = page"
  by (induction page) (auto simp: path_part_def)

text \<open>
  No link of a wiki page is left pointing at a file of the repository by a relative path, which
  would lead nowhere there: after the rewriting a link is external, or a fragment of the same page,
  or the name of a page of the wiki, or it did not resolve to a file of the repository.
\<close>

theorem wiki_links_resolved:
  fixes root is_file target source
  defines "new \<equiv> rewrite_link root is_file target source"
  shows "is_external new \<or> path_part new = [] \<or> path_part new \<in> set (map snd MAPPING)
    \<or> relative_to root (resolve (source_dir root source) (path_part new)) = None
    \<or> \<not> is_file (resolve (source_dir root source) (path_part new))"
proof (cases "is_external target \<or> path_part target = []")
  case True
  then show ?thesis by (auto simp: new_def rewrite_link_def)
next
  case False
  let ?resolved = "resolve (source_dir root source) (path_part target)"
  show ?thesis
  proof (cases "relative_to root ?resolved")
    case None
    with False show ?thesis by (auto simp: new_def rewrite_link_def Let_def)
  next
    case (Some rel)
    show ?thesis
    proof (cases "map_of MAPPING rel")
      case (Some page)
      with False \<open>relative_to root ?resolved = Some rel\<close> map_of_MAPPING_page [OF Some] show ?thesis
        by (auto simp: new_def rewrite_link_def Let_def path_part_page)
    next
      case None
      have "is_external (REPO_BLOB_BASE @ x)" for x
        by (simp add: is_external_def starts_def REPO_BLOB_BASE_def uni_def)
      then show ?thesis
        using False Some None by (auto simp: new_def rewrite_link_def Let_def)
    qed
  qed
qed

end
