(* ===== verification/Fuzz_Targets.thy ===== *)
theory Fuzz_Targets
  imports Log_Safety Url_Validation
begin

text \<open>
  The targets under \<^verbatim>\<open>fuzz/\<close>: what one call of \<^verbatim>\<open>TestOneInput\<close> checks, on the text the engine hands it.
  The lemmas show that no text makes a target fail, and how far the checks of the URL target,
  which leave name resolution out, decide the whole validation.
\<close>

section \<open>Log lines\<close>

text \<open>That the result is a string, which the target tests first, is its type here.\<close>

definition MAX_LEN :: nat where "MAX_LEN = 200"

definition SUFFIX :: pystr where "SUFFIX = ''...[truncated]''"

definition ends_with :: "pystr \<Rightarrow> pystr \<Rightarrow> bool" where
  "ends_with s e \<longleftrightarrow> length e \<le> length s \<and> drop (length s - length e) s = e"

datatype target_failure = ControlCharacter | TooLong nat

definition fuzz_log_sanitize :: "pystr \<Rightarrow> target_failure + unit" where
  "fuzz_log_sanitize txt =
     (let result = sanitize_for_log (JStr txt) 200 in
      if list_ex is_control result then Inl ControlCharacter
      else let body = (if ends_with result SUFFIX then take (length result - length SUFFIX) result else result) in
        if length body > MAX_LEN then Inl (TooLong (length body)) else Inr ())"

section \<open>Receiver addresses\<close>

text \<open>
  The answers of the calls, in their order. A \<^verbatim>\<open>ValueError\<close> of the last two is suppressed and
  shown as the left side; without a host the last call is not made, and a text that is no URL ends
  the target after the first three.
\<close>

definition fuzz_url_validation :: "pystr \<Rightarrow> bool \<times> bool \<times> bool \<times> ((url_error + unit) \<times> (url_error + unit) option) option" where
  "fuzz_url_validation txt =
     (is_blocked_ip txt, receiver_host_allowed txt [''example.com''], receiver_host_allowed txt [],
      (case urlparse txt of
         None \<Rightarrow> None
       | Some parsed \<Rightarrow>
           (let host = url_hostname parsed in
            Some (reject_unsafe_scheme_or_parts parsed, if host \<noteq> [] then Some (reject_blocked_host_literal host) else None))))"

section \<open>No text fails a target\<close>

lemma cut_suffix: "ends_with (b @ SUFFIX) SUFFIX" "take (length (b @ SUFFIX) - length SUFFIX) (b @ SUFFIX) = b"
  by (simp_all add: ends_with_def)

text \<open>
  The target for log lines never fails, also when a short text ends with the mark of truncation by
  itself.
\<close>

lemma fuzz_log_sanitize_passes: "fuzz_log_sanitize txt = Inr ()"
proof -
  define stripped where "stripped = filter (\<lambda>c. \<not> is_control c) txt"
  define result where "result = sanitize_for_log (JStr txt) 200"
  have r: "result = (if length stripped > 200 then take 200 stripped @ SUFFIX else stripped)"
    by (simp add: result_def stripped_def sanitize_for_log_def SUFFIX_def)
  have "list_all (\<lambda>c. \<not> is_control c) SUFFIX" by code_simp
  then have clean: "\<not> list_ex is_control result"
    unfolding r by (auto simp: list_ex_iff list_all_iff stripped_def dest: in_set_takeD)
  have short: "length (if ends_with result SUFFIX then take (length result - length SUFFIX) result else result) \<le> MAX_LEN"
    unfolding r by (cases "length stripped > 200") (auto simp: cut_suffix MAX_LEN_def)
  show ?thesis
    using clean short by (simp add: fuzz_log_sanitize_def result_def [symmetric] Let_def)
qed

text \<open>
  What the URL target exercises is the part of the validation before name resolution: a text is
  accepted exactly when its calls raise nothing, there is a host, and the allowlist and the resolved
  addresses admit it.
\<close>

lemma fuzz_url_covers_validation:
  "validate_receiver_endpoint_url dns txt hosts = Inr url \<longleftrightarrow>
     url = txt \<and> txt \<noteq> [] \<and> snd (snd (snd (fuzz_url_validation txt))) = Some (Inr (), Some (Inr ()))
     \<and> receiver_host_allowed txt hosts
     \<and> (\<exists>parsed ips. urlparse txt = Some parsed \<and> reject_blocked_resolved_ips dns (url_hostname parsed) = Inr ips)"
  by (auto simp: validate_receiver_endpoint_url_def fuzz_url_validation_def Let_def receiver_host_allowed_def
      split: option.splits sum.splits if_splits)

end
