(* ===== verification/Spec2Isabelle.thy ===== *)
theory Spec2Isabelle
  imports Delivery_Loss Log_Safety Scim_Log Lifecycle Release_Scripts Fuzz_Targets
begin

text \<open>
  \<^bold>\<open>The program.\<close> The SSF transmitter takes webhooks of an identity provider (Authentik), turns them
  into Security Event Tokens and pushes these, signed, to one registered receiver. A management API
  registers the receiver as a stream. Events wait in a queue in SQLite until the receiver
  acknowledges them. A second part keeps the accounts in Apple Business Manager in step with the
  provider by SCIM. The sources are under \<^verbatim>\<open>app/\<close>.

  \<^bold>\<open>Conventions.\<close> A Python string is a list of HOL characters, so of the first 256 code points. A
  value that came from JSON is the datatype \<open>json\<close>, in which a float is its text. A dictionary is an
  association list in insertion order. A raised exception is the left side of a sum, an unhandled
  one of a handler is \<open>Crash\<close> or \<open>ScimCrash\<close>. State is passed explicitly, and network services,
  clocks, random values, name resolution and cryptographic primitives are arguments. What the
  proofs rely on of Fernet is the hypothesis \<open>fernet_laws\<close>: decryption under the same key inverts
  encryption, under another key it fails, and a token has the published wire format (version byte,
  time, initialisation vector, blocks, authentication code), stated without the program's own format
  check. \<open>toy_lib\<close> shows that it can hold. Log lines
  are modelled where they are the result (start-up checks) or carry identities (\<^verbatim>\<open>Log_Safety\<close>,
  \<^verbatim>\<open>Scim_Log\<close>), and left out elsewhere.

  \<^bold>\<open>Theories and what they model.\<close>
  \<^item> \<^verbatim>\<open>Prelude\<close>: strings, integers as text, dictionaries, JSON values; the interfaces \<open>normaliser\<close>
    (normal forms), \<open>machine\<close> (invariants of reachable states) and \<open>codec\<close> (round trips).
  \<^item> \<^verbatim>\<open>Json_Text\<close>: \<^verbatim>\<open>json.dumps\<close> and \<^verbatim>\<open>json.loads\<close>, and that reading inverts writing.
  \<^item> \<^verbatim>\<open>Net_Address\<close>, \<^verbatim>\<open>Url_Validation\<close>: \<^verbatim>\<open>urlparse\<close> and IP addresses as words of 32 and 128 bits, and
    \<^verbatim>\<open>security/url_validation.py\<close>: which receiver addresses are accepted.
  \<^item> \<^verbatim>\<open>Config\<close>: \<^verbatim>\<open>config.py\<close>; settings that load satisfy \<open>settings_ok\<close>.
  \<^item> \<^verbatim>\<open>Crypto\<close>: \<^verbatim>\<open>crypto.py\<close>; encryption at rest, key files, token claims.
  \<^item> \<^verbatim>\<open>Database\<close>: \<^verbatim>\<open>database.py\<close>; the tables are the record \<open>db\<close>, every operation a function on it,
    the invariant \<open>db_ok\<close> is kept by all of them.
  \<^item> \<^verbatim>\<open>Mapper\<close>, \<^verbatim>\<open>Pusher\<close>, \<^verbatim>\<open>Outbox\<close>: \<^verbatim>\<open>events/\<close>; from the webhook body to queued payloads, the
    request that is sent, the treatment of one queued item and of a pass over the due ones.
  \<^item> \<^verbatim>\<open>Delivery_Lock\<close>: the delivery worker, one step per database call, push and test of the stop event,
    and beside it the API and the stop event; every database call may fail and ends the pass. No item is
    sent to a receiver that was replaced or removed, and a delivery that was recorded is final. A success
    whose record failed is pushed again: delivery is at least once, as the documentation says.
  \<^item> \<^verbatim>\<open>Auth\<close>, \<^verbatim>\<open>Requests\<close>, \<^verbatim>\<open>Stream_Api\<close>, \<^verbatim>\<open>Webhook\<close>: \<^verbatim>\<open>auth.py\<close>, \<^verbatim>\<open>models.py\<close>,
    \<^verbatim>\<open>routes/streams.py\<close>, \<^verbatim>\<open>routes/verification.py\<close>, \<^verbatim>\<open>routes/webhook.py\<close>; one function per handler.
  \<^item> \<^verbatim>\<open>Log_Safety\<close>: \<^verbatim>\<open>security/pii.py\<close>, \<^verbatim>\<open>security/log_sanitize.py\<close>, \<^verbatim>\<open>security/http_logging.py\<close>.
  \<^item> \<^verbatim>\<open>Scim_Client\<close>, \<^verbatim>\<open>Scim_Sync\<close>: \<^verbatim>\<open>scim/apple.py\<close>, reading and writing. A call threads the list of the
    requests sent, so that what was read before a write is part of the statement. The index
    dictionaries point into a list of user objects because the code updates such an object in place
    through one index and sees the change through the other.
  \<^item> \<^verbatim>\<open>Scim_Log\<close>: what the synchronisation logs, and that its count of recoveries mirrors the loop.
  \<^item> \<^verbatim>\<open>Scim_Source\<close>: \<^verbatim>\<open>scim/authentik.py\<close>; pages of users and their SCIM form.
  \<^item> \<^verbatim>\<open>Scim_Coordination\<close>: \<^verbatim>\<open>scim/coordination.py\<close> as a step relation over tasks, the pending OAuth
    states of \<^verbatim>\<open>routes/apple_scim.py\<close>, and \<^verbatim>\<open>alerts.py\<close>. Whether a task sleeps or wakes depends on the
    flag of the idle event alone, as in \<^verbatim>\<open>asyncio.Event\<close>.
  \<^item> \<^verbatim>\<open>Scim_Service\<close>: \<^verbatim>\<open>scim/token.py\<close>, the handlers of \<^verbatim>\<open>routes/apple_scim.py\<close> and the scheduled run of
    \<^verbatim>\<open>main.py\<close>, with the end-to-end statement from the provider to Apple's directory.
  \<^item> \<^verbatim>\<open>Queue_Contract\<close>: the interface \<open>durable_queue\<close> that the tables keep towards whoever delivers;
    \<^verbatim>\<open>Delivery_Loss\<close>: with it, no accepted token is lost over any interleaving of worker, webhook and API.
  \<^item> \<^verbatim>\<open>Startup\<close>: \<^verbatim>\<open>startup.py\<close> and the start of \<^verbatim>\<open>lifespan\<close>.
  \<^item> \<^verbatim>\<open>Api_Routes\<close>: the routes with their guards and rate limits as the decorators in \<^verbatim>\<open>routes/\<close> give them.
  \<^item> \<^verbatim>\<open>Logging_Setup\<close>: \<^verbatim>\<open>configure_logging\<close> of \<^verbatim>\<open>config.py\<close>.
  \<^item> \<^verbatim>\<open>Lifecycle\<close>: \<^verbatim>\<open>create_app\<close>, the scheduled loop and the stop of \<^verbatim>\<open>lifespan\<close> in \<^verbatim>\<open>main.py\<close>, with the
    runs of the worker after the stop event is set: five steps at most, one push at most, its answer
    written back.
  \<^item> \<^verbatim>\<open>Web\<close>: \<^verbatim>\<open>routes/root.py\<close>, \<^verbatim>\<open>routes/wellknown.py\<close>, \<^verbatim>\<open>routes/jwks.py\<close> and the middlewares.
  \<^item> \<^verbatim>\<open>Py_Regex\<close>, \<^verbatim>\<open>Release_Scripts\<close>: the matcher of regular expressions by attempts in order, and the
    three scripts under \<^verbatim>\<open>scripts/\<close> as functions on texts.
  \<^item> \<^verbatim>\<open>Fuzz_Targets\<close>: the targets under \<^verbatim>\<open>fuzz/\<close>, and that no text makes one fail.

  \<^bold>\<open>What the properties show.\<close> Delivery: accepted events are durable, a due item stays queued until it
  is acknowledged, refused for good or its stream is gone, items go out in order of their due time,
  and never to a stale or unsafe target, no run loses a token, and a recorded delivery is not repeated. Addresses: the deny list against an
  explicit table of ranges, the same verdict for an IPv4 address in every embedded form. Storage: the
  invariant of the tables, round trips, failing closed under another key, no enabled stream without a
  usable token. API: authentication of every management route, its statuses and budgets, the limit on
  failures, confirmed creation, no secret in a response. Logs: no address survives redaction. SCIM: listings are complete or refused, only accounts linked to a
  source user are changed, every user is accounted for, updates converge, one operation at a time,
  states are good once. Start and stop: what stops the start, the
  quarantine, and that the shutdown finishes. Scripts: the check accepts exactly what the
  synchronisation would leave alone.

  \<^bold>\<open>Termination and fuel.\<close> The JSON reader takes the length of its text as fuel, which bounds its
  depth. The listing of Apple's users terminates by a measure, as each page moves towards the total.
  The provider's pages are followed by a \<open>partial_function\<close>: no page count bounds them, and the
  theorem says that the loop returns exactly for chains that end. The delivery loop is a relation.

  \<^bold>\<open>Not modelled.\<close> Libraries the sources only call: how the web framework matches paths and parses
  requests and how the rate limiter counts (the limiter is an argument of \<open>serve\<close>), the coercions of
  the validation library, the TOML reader. HTTP headers of the SCIM requests other than the bearer
  tokens. Symbolic links in the file system. The fuzzing engine that draws the inputs of the targets.
  The answers (422) by which the framework refuses arguments before a handler runs. A write to the file
  system that fails half way through a release script: the scripts write all texts or none. A row of
  the stream table whose events are JSON but no list, which no operation stores: reading it is an error.
\<close>

end
